(* ===== verification/Kafka_Prelude.thy ===== *)
theory Kafka_Prelude
  imports Main "HOL-Library.Word"
begin

text \<open>
  The prelude of the development: Rust's machine integers as words, the outcome of a Rust
  computation (a value, an error, a panic), byte streams as the program's \<open>std::io::Read\<close>
  sees them, and the two small combinator languages in which every reader and writer of the
  protocol layer is written.

  A \<open>stream\<close> is what a reader still holds: the bytes that can be read, and what a read past
  them reports.  The second component is \<open>None\<close> for an ordinary end of file, which
  \<open>read_exact\<close> reports as \<open>UnexpectedEof\<close>, and \<open>Some e\<close> for a source (a decompressor)
  that fails with \<open>e\<close> there.

  A writer is the sequence of bytes it appends: the program only ever writes the protocol to
  in-memory buffers, where \<open>write_all\<close> cannot fail, and it discards the buffer when a write
  returns an error.
\<close>

unbundle bit_operations_syntax

section \<open>Types\<close>

type_synonym u8 = "8 word"
type_synonym u16 = "16 word"
type_synonym u32 = "32 word"
type_synonym u64 = "64 word"
type_synonym i8 = "8 word"
type_synonym i16 = "16 word"
type_synonym i32 = "32 word"
type_synonym i64 = "64 word"
type_synonym usize = nat

text \<open>
  A Rust panic is an outcome of its own, not an error value.  \<open>Diverges\<close> is the outcome of a
  loop that does not return; arithmetic overflow panics, as it does in builds with overflow
  checks.
\<close>

datatype panic = AssertFailed | ArithmeticOverflow | ExpectFailed | Unreachable | IndexOutOfBounds
  | Diverges

datatype ('e, 'a) outcome = Ok 'a | Err 'e | Panic panic

fun map_err :: "('e \<Rightarrow> 'f) \<Rightarrow> ('e, 'a) outcome \<Rightarrow> ('f, 'a) outcome" where
  "map_err f (Ok x) = Ok x"
| "map_err f (Err e) = Err (f e)"
| "map_err f (Panic p) = Panic p"

fun bind_o :: "('e, 'a) outcome \<Rightarrow> ('a \<Rightarrow> ('e, 'b) outcome) \<Rightarrow> ('e, 'b) outcome" where
  "bind_o (Ok x) f = f x"
| "bind_o (Err e) f = Err e"
| "bind_o (Panic p) f = Panic p"

fun is_panic :: "('e, 'a) outcome \<Rightarrow> bool" where
  "is_panic (Panic _) = True"
| "is_panic _ = False"

text \<open>The kinds of \<open>std::io::Error\<close> the program tells apart.\<close>

datatype io_error = UnexpectedEof | OtherIo

type_synonym stream = "u8 list \<times> io_error option"

text \<open>Lemma collections: what a reader or writer proof unfolds, and the closure rules of the
  reader contracts.\<close>

named_theorems rw_simps "unfoldings and equations of readers and writers"
named_theorems reader_intros "closure rules of the reader contracts"

section \<open>Outcomes\<close>

lemma bind_o_Ok_iff [simp]:
  "bind_o m f = Ok y \<longleftrightarrow> (\<exists>x. m = Ok x \<and> f x = Ok y)"
  by (cases m) auto

lemma bind_o_Err_iff: "bind_o m f = Err e \<longleftrightarrow> m = Err e \<or> (\<exists>x. m = Ok x \<and> f x = Err e)"
  by (cases m) auto

lemma map_err_Ok_iff [simp]: "map_err f m = Ok x \<longleftrightarrow> m = Ok x"
  by (cases m) auto

lemma map_err_Panic_iff [simp]: "map_err f m = Panic p \<longleftrightarrow> m = Panic p"
  by (cases m) auto

lemma is_panic_map_err [simp]: "is_panic (map_err f m) = is_panic m"
  by (cases m) auto

lemma is_panic_iff: "is_panic m \<longleftrightarrow> (\<exists>p. m = Panic p)"
  by (cases m) auto

section \<open>Readers\<close>

text \<open>What a read past the available bytes reports.\<close>

fun eof_kind :: "io_error option \<Rightarrow> io_error" where
  "eof_kind None = UnexpectedEof"
| "eof_kind (Some e) = e"

text \<open>\<open>Read::read_exact\<close> of a buffer of \<open>n\<close> bytes.\<close>

fun io_read_exact :: "nat \<Rightarrow> stream \<Rightarrow> (io_error, u8 list \<times> stream) outcome" where
  "io_read_exact n (bs, e) =
     (if n \<le> length bs then Ok (take n bs, (drop n bs, e)) else Err (eof_kind e))"

definition rret :: "'a \<Rightarrow> stream \<Rightarrow> ('e, 'a \<times> stream) outcome" where
  "rret x s = Ok (x, s)"

definition rbind :: "(stream \<Rightarrow> ('e, 'a \<times> stream) outcome) \<Rightarrow>
    ('a \<Rightarrow> stream \<Rightarrow> ('e, 'b \<times> stream) outcome) \<Rightarrow> stream \<Rightarrow> ('e, 'b \<times> stream) outcome" where
  "rbind m f s = (case m s of Ok (x, s') \<Rightarrow> f x s' | Err e \<Rightarrow> Err e | Panic p \<Rightarrow> Panic p)"

text \<open>A computation that does not touch the stream, inside a reader: Rust's \<open>?\<close> on a
  conversion, a check or an assertion.\<close>

definition rlift :: "('e, 'a) outcome \<Rightarrow> stream \<Rightarrow> ('e, 'a \<times> stream) outcome" where
  "rlift m s = (case m of Ok x \<Rightarrow> Ok (x, s) | Err e \<Rightarrow> Err e | Panic p \<Rightarrow> Panic p)"

text \<open>\<open>(c).then(|| read).transpose()?\<close>: an optional field.\<close>

definition rwhen :: "bool \<Rightarrow> (stream \<Rightarrow> ('e, 'a \<times> stream) outcome) \<Rightarrow>
    stream \<Rightarrow> ('e, 'a option \<times> stream) outcome" where
  "rwhen c m = (if c then rbind m (\<lambda>x. rret (Some x)) else rret None)"

text \<open>Rust's \<open>assert!\<close>.\<close>

definition assert_that :: "bool \<Rightarrow> ('e, unit) outcome" where
  "assert_that b = (if b then Ok () else Panic AssertFailed)"

lemma rbind_Ok [simp]: "m s = Ok (x, s') \<Longrightarrow> rbind m f s = f x s'"
  by (simp add: rbind_def)

lemma rbind_Err [simp]: "m s = Err e \<Longrightarrow> rbind m f s = Err e"
  by (simp add: rbind_def)

lemma rbind_Panic [simp]: "m s = Panic p \<Longrightarrow> rbind m f s = Panic p"
  by (simp add: rbind_def)

lemma rbind_Ok_iff:
  "rbind m f s = Ok r \<longleftrightarrow> (\<exists>x s'. m s = Ok (x, s') \<and> f x s' = Ok r)"
  by (auto simp: rbind_def split: outcome.splits)

lemma rbind_Panic_iff:
  "rbind m f s = Panic p \<longleftrightarrow>
     m s = Panic p \<or> (\<exists>x s'. m s = Ok (x, s') \<and> f x s' = Panic p)"
  by (auto simp: rbind_def split: outcome.splits)

lemma rret_simp [simp]: "rret x s = Ok (x, s)"
  by (simp add: rret_def)

lemma rlift_simps [simp]:
  "rlift (Ok x) s = Ok (x, s)" "rlift (Err e) s = Err e" "rlift (Panic p) s = Panic p"
  by (simp_all add: rlift_def)

lemma rbind_rlift_Ok [simp]: "rbind (rlift (Ok x)) f = f x"
  by (rule ext) (simp add: rbind_def)

lemma rbind_rret [simp]: "rbind (rret x) f = f x"
  by (rule ext) (simp add: rbind_def)

lemma rlift_Ok_iff: "rlift m s = Ok (x, s') \<longleftrightarrow> m = Ok x \<and> s' = s"
  by (cases m) auto

lemma assert_that_simps [simp]:
  "b \<Longrightarrow> assert_that b = Ok ()" "\<not> b \<Longrightarrow> assert_that b = Panic AssertFailed"
  by (simp_all add: assert_that_def)

lemma rwhen_simps [simp]:
  "rwhen False m = rret None" "rwhen True m = rbind m (\<lambda>x. rret (Some x))"
  by (simp_all add: rwhen_def)

section \<open>Writers\<close>

text \<open>Sequencing of two writes into the same buffer.\<close>

fun wseq :: "('e, u8 list) outcome \<Rightarrow> ('e, u8 list) outcome \<Rightarrow> ('e, u8 list) outcome" where
  "wseq (Ok xs) (Ok ys) = Ok (xs @ ys)"
| "wseq (Ok xs) (Err e) = Err e"
| "wseq (Ok xs) (Panic p) = Panic p"
| "wseq (Err e) _ = Err e"
| "wseq (Panic p) _ = Panic p"

text \<open>A loop \<open>for element in inner { element.write(writer)?; }\<close>.\<close>

fun wconcat :: "('a \<Rightarrow> ('e, u8 list) outcome) \<Rightarrow> 'a list \<Rightarrow> ('e, u8 list) outcome" where
  "wconcat wr [] = Ok []"
| "wconcat wr (x # xs) = wseq (wr x) (wconcat wr xs)"

lemma wseq_Ok_iff [simp]:
  "wseq a b = Ok zs \<longleftrightarrow> (\<exists>xs ys. a = Ok xs \<and> b = Ok ys \<and> zs = xs @ ys)"
  by (cases a; cases b) auto

lemma wseq_is_panicD: "is_panic (wseq a b) \<Longrightarrow> is_panic a \<or> is_panic b"
  by (cases a; cases b) auto

lemma wconcat_is_panic:
  "(\<And>x. x \<in> set xs \<Longrightarrow> \<not> is_panic (wr x)) \<Longrightarrow> \<not> is_panic (wconcat wr xs)"
  by (induction xs) (auto dest!: wseq_is_panicD)

lemma wconcat_append:
  "wconcat wr (xs @ ys) = wseq (wconcat wr xs) (wconcat wr ys)"
proof (induction xs)
  case Nil
  show ?case by (cases "wconcat wr ys") auto
next
  case (Cons x xs)
  then show ?case
    by (cases "wr x"; cases "wconcat wr xs"; cases "wconcat wr ys") auto
qed

section \<open>Checked integer conversions\<close>

text \<open>Rust's \<open>try_from\<close> between integer types, on a 64-bit target.\<close>

definition i16_try_from_usize :: "usize \<Rightarrow> i16 option" where
  "i16_try_from_usize n = (if n < 2 ^ 15 then Some (of_nat n) else None)"

definition i32_try_from_usize :: "usize \<Rightarrow> i32 option" where
  "i32_try_from_usize n = (if n < 2 ^ 31 then Some (of_nat n) else None)"

definition u64_try_from_usize :: "usize \<Rightarrow> u64 option" where
  "u64_try_from_usize n = (if n < 2 ^ 64 then Some (of_nat n) else None)"

definition usize_try_from_signed :: "'a::len word \<Rightarrow> usize option" where
  "usize_try_from_signed w = (if 0 \<le> sint w then Some (nat (sint w)) else None)"

definition usize_try_from_u64 :: "u64 \<Rightarrow> usize option" where
  "usize_try_from_u64 w = Some (unat w)"

definition i32_try_from_i64 :: "i64 \<Rightarrow> i32 option" where
  "i32_try_from_i64 w = (if - (2 ^ 31) \<le> sint w \<and> sint w < 2 ^ 31 then Some (scast w) else None)"

text \<open>\<open>ok_or\<close>: an option as an outcome.\<close>

definition ok_or :: "'e \<Rightarrow> 'a option \<Rightarrow> ('e, 'a) outcome" where
  "ok_or e m = (case m of Some x \<Rightarrow> Ok x | None \<Rightarrow> Err e)"

lemma ok_or_simps [simp]: "ok_or e (Some x) = Ok x" "ok_or e None = Err e"
  by (simp_all add: ok_or_def)

lemma ok_or_Ok_iff [simp]: "ok_or e m = Ok x \<longleftrightarrow> m = Some x"
  by (cases m) auto

lemma ok_or_no_panic [simp]: "\<not> is_panic (ok_or e m)" "ok_or e m \<noteq> Panic p"
  by (cases m; simp)+

lemma sint_of_nat_small:
  assumes "n < 2 ^ (LENGTH('a) - 1)"
  shows "sint (of_nat n :: 'a::len word) = int n"
proof -
  have "sint (word_of_int (int n) :: 'a word) = signed_take_bit (LENGTH('a) - 1) (int n)"
    by (rule sint_sbintrunc')
  also have "\<dots> = int n"
    using assms
    by (intro signed_take_bit_int_eq_self) (auto simp flip: of_nat_less_iff intro: order_trans [of _ 0])
  finally show ?thesis by simp
qed

lemma usize_of_i16 [simp]:
  "i16_try_from_usize n = Some w \<Longrightarrow> usize_try_from_signed w = Some n"
  by (auto simp: i16_try_from_usize_def usize_try_from_signed_def sint_of_nat_small split: if_splits)

lemma usize_of_i32 [simp]:
  "i32_try_from_usize n = Some w \<Longrightarrow> usize_try_from_signed w = Some n"
  by (auto simp: i32_try_from_usize_def usize_try_from_signed_def sint_of_nat_small split: if_splits)

lemma usize_of_u64 [simp]:
  "u64_try_from_usize n = Some w \<Longrightarrow> usize_try_from_u64 w = Some n"
  by (auto simp: u64_try_from_usize_def usize_try_from_u64_def unat_of_nat split: if_splits)

lemma i32_of_scast_i64 [simp]: "i32_try_from_i64 (scast (x :: i32)) = Some x"
proof -
  have "sint (scast x :: i64) = sint x"
    by (rule sint_up_scast) (simp add: is_up)
  then show ?thesis
    using sint_greater_eq [of x] sint_less [of x]
    by (simp add: i32_try_from_i64_def scast_up_scast_id is_up)
qed

section \<open>Big-endian byte representation\<close>

text \<open>\<open>to_be_bytes\<close> and \<open>from_be_bytes\<close> of an integer of \<open>n\<close> bytes.\<close>

definition to_be_bytes :: "nat \<Rightarrow> 'a::len word \<Rightarrow> u8 list" where
  "to_be_bytes n w = map (\<lambda>i. ucast (drop_bit (8 * i) w)) (rev [0..<n])"

fun from_be_bytes :: "'a::len word \<Rightarrow> u8 list \<Rightarrow> 'a word" where
  "from_be_bytes acc [] = acc"
| "from_be_bytes acc (b # bs) = from_be_bytes (push_bit 8 acc OR ucast b) bs"

lemma length_to_be_bytes [simp]: "length (to_be_bytes n w) = n"
  by (simp add: to_be_bytes_def)

lemma to_be_bytes_Suc:
  "to_be_bytes (Suc n) w = ucast (drop_bit (8 * n) w) # to_be_bytes n w"
  by (simp add: to_be_bytes_def)

lemma push_drop_step:
  "push_bit 8 (drop_bit (8 * n + 8) w) OR ucast (ucast (drop_bit (8 * n) w) :: u8) =
    (drop_bit (8 * n) w :: 'a::len word)"
  by (rule bit_word_eqI) (auto simp: bit_simps)

lemma from_to_be_bytes_aux:
  "from_be_bytes (drop_bit (8 * n) w) (to_be_bytes n w) = (w :: 'a::len word)"
proof (induction n)
  case 0
  show ?case by (simp add: to_be_bytes_def)
next
  case (Suc n)
  then show ?case
    using push_drop_step [of n w] by (simp add: to_be_bytes_Suc add.commute)
qed

lemma from_to_be_bytes:
  assumes "LENGTH('a) \<le> 8 * n"
  shows "from_be_bytes 0 (to_be_bytes n w) = (w :: 'a::len word)"
proof -
  have "drop_bit (8 * n) w = 0"
    using assms by (intro bit_word_eqI) (auto simp: bit_simps dest: bit_imp_le_length)
  then show ?thesis using from_to_be_bytes_aux [of n w] by simp
qed

end
