(* ===== verification/Codec.thy ===== *)
theory Codec
  imports Kafka_Prelude
begin

text \<open>
  The error types of \<open>src/src/protocol/traits.rs\<close> and the contracts that \<open>ReadType\<close>,
  \<open>WriteType\<close> and their versioned variants promise, as locales:

  \<^item> \<open>stream_reader\<close>: a reader takes its bytes from the front of the stream, decides from
    these bytes alone, and reports an end of file when the stream stops inside them;
  \<^item> \<open>safe_reader\<close>: in addition, no input makes it panic;
  \<^item> \<open>norm_codec\<close>: what a writer wrote, the reader reads back, up to a normalisation of the
    value (a field that the version lacks is lost, a missing one gets its default);
  \<^item> \<open>codec\<close>: the reader gives back the value itself.

  The closure rules (collection \<open>reader_intros\<close>) derive the reader contracts of a message
  from the contracts of its fields, following the structure of its definition.
\<close>

section \<open>Errors\<close>

text \<open>The errors of the third-party decompressor \<open>snap\<close> that the program inspects.\<close>

datatype snap_error =
    SnapEmpty
  | SnapCopyWrite
  | SnapLiteral usize usize usize
  | SnapHeaderMismatch usize usize
  | SnapBufferTooSmall
  | SnapOffset
  | SnapOther

text \<open>The boxed error of \<open>Malformed\<close>: one constructor per place that makes one.\<close>

datatype malformed =
    TryFromInt
  | FromUtf8
  | UvarintTooLong
  | NegativeLength int
  | ZeroCompactString
  | TrailingBytes usize
  | UnknownControlVersion int
  | UnknownControlType int
  | BatchLenTooSmall usize
  | InvalidMagic int
  | CrcMismatch u32 u32
  | NotOneControlRecord usize
  | InvalidCompressionType int
  | DataLeft string
  | SnappyVersion "u8 list"
  | SnappyCompat "u8 list"
  | SnappyChunk usize usize
  | SnapErr snap_error
  | BrokenSnappy

datatype read_error = IO io_error | Overflow | Malformed malformed

datatype write_malformed = WriteTryFromInt | WriteSnapErr snap_error

datatype write_error = WriteIO io_error | WriteOverflow | WriteMalformed write_malformed

type_synonym 'a reader = "stream \<Rightarrow> (read_error, 'a \<times> stream) outcome"
type_synonym wres = "(write_error, u8 list) outcome"

text \<open>\<open>Read::read_exact\<close> with \<open>?\<close>: the I/O error becomes \<open>ReadError::IO\<close>.\<close>

definition read_exact :: "nat \<Rightarrow> u8 list reader" where
  "read_exact n s = map_err IO (io_read_exact n s)"

lemma read_exact_simp [simp]:
  "read_exact n (bs, e) =
     (if n \<le> length bs then Ok (take n bs, (drop n bs, e)) else Err (IO (eof_kind e)))"
  by (simp add: read_exact_def)

lemma read_exact_append [simp]:
  "length bs = n \<Longrightarrow> read_exact n (bs @ rest, e) = Ok (bs, (rest, e))"
  by simp

section \<open>Reader contracts\<close>

locale stream_reader =
  fixes rd :: "stream \<Rightarrow> (read_error, 'a \<times> stream) outcome"
  assumes consumes: "rd (bs, e) = Ok (x, s') \<Longrightarrow> \<exists>p rest. bs = p @ rest \<and> s' = (rest, e)"
    and extends: "rd (p @ rest, e) = Ok (x, (rest, e)) \<Longrightarrow>
      rd (p @ rest', e') = Ok (x, (rest', e'))"
    and truncated: "rd (p @ rest, e) = Ok (x, (rest, e)) \<Longrightarrow> k < length p \<Longrightarrow>
      rd (take k p, t) = Err (IO (eof_kind t))"
begin

lemma rest_le: "rd (bs, e) = Ok (x, (rest, e')) \<Longrightarrow> length rest \<le> length bs \<and> e' = e"
  by (auto dest: consumes)

lemma rest_is_drop:
  assumes "rd (bs, e) = Ok (x, (rest, e'))"
  shows "rest = drop (length bs - length rest) bs"
proof -
  from consumes [OF assms] obtain p where "bs = p @ rest" by auto
  then show ?thesis by simp
qed

lemma prefix_determines:
  assumes "rd (p @ rest, e) = Ok (x, (rest, e))" and "rd (p @ rest', e') = Ok (y, s')"
  shows "y = x \<and> s' = (rest', e')"
  using extends [OF assms(1), of rest' e'] assms(2) by simp

end

locale safe_reader = stream_reader rd
  for rd :: "stream \<Rightarrow> (read_error, 'a \<times> stream) outcome" +
  assumes no_panic: "\<not> is_panic (rd s)"
begin

lemma ok_or_err: "(\<exists>x s'. rd s = Ok (x, s')) \<or> (\<exists>e. rd s = Err e)"
  using no_panic [of s] by (cases "rd s") auto

end

subsection \<open>Closure rules\<close>

lemma stream_reader_rret [reader_intros]: "stream_reader (rret x)"
  by unfold_locales auto

lemma stream_reader_Ok [reader_intros]: "stream_reader (\<lambda>s. Ok (x, s))"
  using stream_reader_rret [of x] by (simp add: rret_def [abs_def])

lemma stream_reader_rlift [reader_intros]: "stream_reader (rlift m)"
  by unfold_locales (auto simp: rlift_Ok_iff)

lemma read_exact_takes:
  assumes "read_exact n (p @ rest, e) = Ok (x, (rest, e))"
  shows "n = length p"
proof -
  from assms have "drop n (p @ rest) = rest" and n: "n \<le> length (p @ rest)"
    by (auto split: if_splits)
  then have "length (p @ rest) - n = length rest" by (metis length_drop)
  with n show ?thesis by simp
qed

lemma stream_reader_read_exact [reader_intros]: "stream_reader (read_exact n)"
proof unfold_locales
  show "\<exists>p rest. bs = p @ rest \<and> s' = (rest, e)"
    if "read_exact n (bs, e) = Ok (x, s')" for bs e x s'
    using that by (auto split: if_splits intro: append_take_drop_id [symmetric])
next
  fix p rest rest' :: "u8 list" and e e' x
  assume *: "read_exact n (p @ rest, e) = Ok (x, (rest, e))"
  then have "n = length p" by (rule read_exact_takes)
  with * show "read_exact n (p @ rest', e') = Ok (x, (rest', e'))" by simp
next
  fix p rest :: "u8 list" and e x k t
  assume "read_exact n (p @ rest, e) = Ok (x, (rest, e))" and k: "k < length p"
  from this(1) have "n = length p" by (rule read_exact_takes)
  with k show "read_exact n (take k p, t) = Err (IO (eof_kind t))" by simp
qed

text \<open>A sequence of two readers splits the bytes it takes between them.\<close>

lemma rbind_split:
  assumes m: "stream_reader m" and f: "\<And>x. stream_reader (f x)"
    and ok: "rbind m f (bs, e) = Ok (y, s')"
  obtains x p1 p2 rest where "bs = p1 @ p2 @ rest" "s' = (rest, e)"
    "m (p1 @ p2 @ rest, e) = Ok (x, (p2 @ rest, e))" "f x (p2 @ rest, e) = Ok (y, (rest, e))"
proof -
  from ok obtain x s1 where mx: "m (bs, e) = Ok (x, s1)" and fx: "f x s1 = Ok (y, s')"
    by (auto simp: rbind_Ok_iff)
  from stream_reader.consumes [OF m mx] obtain p1 r1 where 1: "bs = p1 @ r1" "s1 = (r1, e)"
    by auto
  with stream_reader.consumes [OF f, of x r1 e y s'] fx
  obtain p2 rest where 2: "r1 = p2 @ rest" "s' = (rest, e)" by auto
  show ?thesis
    by (rule that [of p1 p2 rest x]) (use 1 2 mx fx in auto)
qed

lemma stream_reader_rbind [reader_intros]:
  assumes m: "stream_reader m" and f: "\<And>x. stream_reader (f x)"
  shows "stream_reader (rbind m f)"
proof unfold_locales
  fix bs e y s'
  assume "rbind m f (bs, e) = Ok (y, s')"
  then show "\<exists>p rest. bs = p @ rest \<and> s' = (rest, e)"
    by (rule rbind_split [OF m f]) (metis append.assoc)
next
  fix p rest e y rest' e'
  assume "rbind m f (p @ rest, e) = Ok (y, (rest, e))"
  then obtain x p1 p2 where p: "p = p1 @ p2"
    and mx: "m (p1 @ p2 @ rest, e) = Ok (x, (p2 @ rest, e))"
    and fx: "f x (p2 @ rest, e) = Ok (y, (rest, e))"
    by (rule rbind_split [OF m f]) auto
  from stream_reader.extends [OF m mx, of "p2 @ rest'" e']
    and stream_reader.extends [OF f fx, of rest' e']
  show "rbind m f (p @ rest', e') = Ok (y, (rest', e'))"
    by (simp add: p)
next
  fix p rest e y k t
  assume ok: "rbind m f (p @ rest, e) = Ok (y, (rest, e))" and k: "k < length p"
  from ok obtain x p1 p2 where p: "p = p1 @ p2"
    and mx: "m (p1 @ p2 @ rest, e) = Ok (x, (p2 @ rest, e))"
    and fx: "f x (p2 @ rest, e) = Ok (y, (rest, e))"
    by (rule rbind_split [OF m f]) auto
  show "rbind m f (take k p, t) = Err (IO (eof_kind t))"
  proof (cases "k < length p1")
    case True
    with stream_reader.truncated [OF m mx True] show ?thesis by (simp add: p)
  next
    case False
    with k p have "k - length p1 < length p2" by simp
    with stream_reader.truncated [OF f fx] have
      "f x (take (k - length p1) p2, t) = Err (IO (eof_kind t))" by blast
    moreover from stream_reader.extends [OF m mx]
    have "m (p1 @ take (k - length p1) p2, t) = Ok (x, (take (k - length p1) p2, t))" .
    ultimately show ?thesis using False by (simp add: p)
  qed
qed

lemma stream_reader_if [reader_intros]:
  "stream_reader a \<Longrightarrow> stream_reader b \<Longrightarrow> stream_reader (if c then a else b)"
  by simp

lemma stream_reader_rwhen [reader_intros]: "stream_reader m \<Longrightarrow> stream_reader (rwhen c m)"
  by (auto simp: rwhen_def intro!: reader_intros)

text \<open>The same rules for readers that never panic.\<close>

lemma safe_readerI:
  "stream_reader rd \<Longrightarrow> (\<And>s. \<not> is_panic (rd s)) \<Longrightarrow> safe_reader rd"
  by (simp add: safe_reader_def safe_reader_axioms_def)

lemma safe_reader_rret [reader_intros]: "safe_reader (rret x)"
  by (rule safe_readerI) (auto intro: reader_intros)

lemma safe_reader_Ok [reader_intros]: "safe_reader (\<lambda>s. Ok (x, s))"
  using safe_reader_rret [of x] by (simp add: rret_def [abs_def])

lemma safe_reader_rlift [reader_intros]: "\<not> is_panic m \<Longrightarrow> safe_reader (rlift m)"
  by (rule safe_readerI) (auto simp: is_panic_iff rlift_def intro: reader_intros split: outcome.splits)

lemma safe_reader_read_exact [reader_intros]: "safe_reader (read_exact n)"
  by (rule safe_readerI) (auto intro: reader_intros split: if_splits)

lemma safe_reader_rbind [reader_intros]:
  assumes "safe_reader m" and "\<And>x. safe_reader (f x)"
  shows "safe_reader (rbind m f)"
proof (rule safe_readerI)
  show "stream_reader (rbind m f)"
    using assms by (auto intro!: reader_intros simp: safe_reader_def)
  show "\<not> is_panic (rbind m f s)" for s
    using assms [THEN safe_reader.no_panic] by (auto simp: is_panic_iff rbind_Panic_iff)
qed

lemma safe_reader_if [reader_intros]:
  "(c \<Longrightarrow> safe_reader a) \<Longrightarrow> (\<not> c \<Longrightarrow> safe_reader b) \<Longrightarrow> safe_reader (if c then a else b)"
  by simp

lemma safe_reader_rwhen [reader_intros]:
  "(c \<Longrightarrow> safe_reader m) \<Longrightarrow> safe_reader (rwhen c m)"
  by (auto simp: rwhen_def intro!: reader_intros)

lemma safe_reader_assert:
  assumes "c" and "safe_reader f"
  shows "safe_reader (rbind (rlift (assert_that c)) (\<lambda>_. f))"
  using assms by (auto intro!: reader_intros)

section \<open>Round-trip contracts\<close>

locale norm_codec =
  fixes rd :: "stream \<Rightarrow> (read_error, 'b \<times> stream) outcome"
    and wr :: "'a \<Rightarrow> ('e, u8 list) outcome"
    and norm :: "'a \<Rightarrow> 'b"
  assumes roundtrip: "wr x = Ok bs \<Longrightarrow> rd (bs @ rest, e) = Ok (norm x, (rest, e))"
begin

lemma roundtrip_all: "wr x = Ok bs \<Longrightarrow> rd (bs, e) = Ok (norm x, ([], e))"
  using roundtrip [of x bs "[]" e] by simp

lemma write_inj: "wr x = Ok bs \<Longrightarrow> wr y = Ok bs \<Longrightarrow> norm x = norm y"
  using roundtrip_all [of x bs None] roundtrip_all [of y bs None] by simp

text \<open>No encoding is a proper prefix of another one: the format needs no terminator.\<close>

lemma prefix_free:
  assumes "wr x = Ok bs" and "wr y = Ok (bs @ cs)"
  shows "cs = [] \<and> norm x = norm y"
  using roundtrip [OF assms(1), of cs None] roundtrip_all [OF assms(2), of None] by simp

end

locale codec = norm_codec rd wr "\<lambda>x. x"
  for rd :: "stream \<Rightarrow> (read_error, 'a \<times> stream) outcome"
    and wr :: "'a \<Rightarrow> ('e, u8 list) outcome"
begin

lemma write_injective: "wr x = Ok bs \<Longrightarrow> wr y = Ok bs \<Longrightarrow> x = y"
  by (rule write_inj)

end

lemma codecI:
  "(\<And>x bs rest e. wr x = Ok bs \<Longrightarrow> rd (bs @ rest, e) = Ok (x, (rest, e))) \<Longrightarrow> codec rd wr"
  by unfold_locales

lemma norm_codecI:
  "(\<And>x bs rest e. wr x = Ok bs \<Longrightarrow> rd (bs @ rest, e) = Ok (norm x, (rest, e))) \<Longrightarrow>
    norm_codec rd wr norm"
  by unfold_locales

lemma codec_roundtrip: "codec rd wr \<Longrightarrow> wr x = Ok bs \<Longrightarrow> rd (bs @ rest, e) = Ok (x, (rest, e))"
  by (simp add: codec_def norm_codec.roundtrip)

end
