(* ===== verification/Vec_Builder.thy ===== *)
theory Vec_Builder
  imports Codec
begin

text \<open>
  \<open>src/src/protocol/vec_builder.rs\<close>: \<open>VecBuilder\<close>, which collects a vector of a length that
  comes from the wire in blocks of bounded size.  \<open>vb_list\<close> is the vector a builder stands
  for; the interpretation at the end shows that the blocks are invisible, and the two loops of
  the program that fill a builder are proved equal to the plain loops \<open>read_items\<close> and
  \<open>Codec.read_exact\<close>.
\<close>

section \<open>The builder\<close>

record 'a vec_builder =
  elements_per_block :: usize
  blocks :: "'a list list"
  remaining_elements :: usize

definition DEFAULT_BLOCK_SIZE :: usize where
  "DEFAULT_BLOCK_SIZE = 1024 * 1024 * 10"

text \<open>\<open>element_size\<close> stands for \<open>std::mem::size_of::<T>()\<close>.\<close>

definition new_with_block_size :: "usize \<Rightarrow> usize \<Rightarrow> usize \<Rightarrow> (read_error, 'a vec_builder) outcome" where
  "new_with_block_size element_size expected_elements block_size =
     (let per_block =
        (if element_size = 0 then expected_elements else block_size div element_size)
      in if per_block = 0 then Panic ExpectFailed
         else Ok \<lparr>elements_per_block = per_block, blocks = [[]],
                  remaining_elements = expected_elements\<rparr>)"

definition vb_new :: "usize \<Rightarrow> usize \<Rightarrow> (read_error, 'a vec_builder) outcome" where
  "vb_new element_size expected_elements =
     new_with_block_size element_size expected_elements DEFAULT_BLOCK_SIZE"

text \<open>The block the next element goes to: the last one, or a new one when that is full.\<close>

definition open_block :: "'a vec_builder \<Rightarrow> 'a list list" where
  "open_block b =
     (if length (last (blocks b)) \<ge> elements_per_block b then blocks b @ [[]] else blocks b)"

definition vb_push :: "'a \<Rightarrow> 'a vec_builder \<Rightarrow> (read_error, 'a vec_builder) outcome" where
  "vb_push x b =
     (if remaining_elements b = 0 then Panic AssertFailed
      else if blocks b = [] then Panic ExpectFailed
      else let bl = open_block b
           in Ok (b\<lparr>blocks := butlast bl @ [last bl @ [x]],
                    remaining_elements := remaining_elements b - 1\<rparr>))"

text \<open>
  The loop of \<open>VecBuilder<u8>::read_exact\<close>.  Every round reads at least one byte when a block
  holds at least one element, so \<open>remaining_elements\<close> rounds are enough; \<open>Diverges\<close> is
  what a builder with empty blocks, which \<open>new_with_block_size\<close> refuses, would do.
\<close>

fun vb_read_loop :: "nat \<Rightarrow> u8 vec_builder \<Rightarrow> u8 vec_builder reader" where
  "vb_read_loop 0 b s = (if remaining_elements b > 0 then Panic Diverges else Ok (b, s))"
| "vb_read_loop (Suc fuel) b s =
     (if remaining_elements b > 0 then
        if blocks b = [] then Panic ExpectFailed
        else
          let bl = open_block b;
              buf = last bl;
              to_read = min (remaining_elements b) (elements_per_block b - length buf)
          in case read_exact to_read s of
               Ok (data, s') \<Rightarrow>
                 vb_read_loop fuel
                   (b\<lparr>blocks := butlast bl @ [buf @ data],
                      remaining_elements := remaining_elements b - to_read\<rparr>) s'
             | Err e \<Rightarrow> Err e
             | Panic p \<Rightarrow> Panic p
      else Ok (b, s))"

definition vb_read_exact :: "u8 vec_builder \<Rightarrow> u8 vec_builder reader" where
  "vb_read_exact b = vb_read_loop (remaining_elements b) b"

text \<open>\<open>impl From<VecBuilder<T>> for Vec<T>\<close>.\<close>

fun append_blocks :: "'a list \<Rightarrow> 'a list list \<Rightarrow> 'a list" where
  "append_blocks out [] = out"
| "append_blocks out (block # bl) = append_blocks (out @ block) bl"

definition vb_into :: "'a vec_builder \<Rightarrow> 'a list" where
  "vb_into b = (if length (blocks b) = 1 then hd (blocks b) else append_blocks [] (blocks b))"

section \<open>The two loops that fill a builder\<close>

text \<open>
  \<^verbatim>\<open>
  let mut buf = VecBuilder::new(len);
  buf = buf.read_exact(reader)?;
  ... buf.into() ...
  \<close>
\<close>

definition read_bytes :: "usize \<Rightarrow> u8 list reader" where
  "read_bytes len =
     rbind (rlift (vb_new 1 len)) (\<lambda>buf.
     rbind (vb_read_exact buf) (\<lambda>buf.
     rret (vb_into buf)))"

text \<open>
  \<^verbatim>\<open>
  let mut res = VecBuilder::new(len);
  for _ in 0..len {
      res.push(T::read(reader)?);
  }
  ... res.into() ...
  \<close>
\<close>

fun push_items :: "nat \<Rightarrow> 'a reader \<Rightarrow> 'a vec_builder \<Rightarrow> 'a vec_builder reader" where
  "push_items 0 rd b = rret b"
| "push_items (Suc n) rd b = rbind rd (\<lambda>x. rbind (rlift (vb_push x b)) (push_items n rd))"

definition read_vec :: "usize \<Rightarrow> usize \<Rightarrow> 'a reader \<Rightarrow> 'a list reader" where
  "read_vec element_size len rd =
     rbind (rlift (vb_new element_size len)) (\<lambda>res.
     rbind (push_items len rd res) (\<lambda>res.
     rret (vb_into res)))"

text \<open>The plain loop, without blocks.\<close>

fun read_items :: "nat \<Rightarrow> 'a reader \<Rightarrow> 'a list reader" where
  "read_items 0 rd = rret []"
| "read_items (Suc n) rd = rbind rd (\<lambda>x. rbind (read_items n rd) (\<lambda>xs. rret (x # xs)))"

section \<open>Abstraction and invariant\<close>

definition vb_list :: "'a vec_builder \<Rightarrow> 'a list" where
  "vb_list b = concat (blocks b)"

definition vb_inv :: "'a vec_builder \<Rightarrow> bool" where
  "vb_inv b \<longleftrightarrow> elements_per_block b > 0 \<and> blocks b \<noteq> [] \<and>
     (\<forall>bl \<in> set (butlast (blocks b)). length bl = elements_per_block b) \<and>
     length (last (blocks b)) \<le> elements_per_block b"

text \<open>What a client of a vector builder relies on.\<close>

locale bounded_builder =
  fixes push :: "'a \<Rightarrow> 'b \<Rightarrow> (read_error, 'b) outcome"
    and into :: "'b \<Rightarrow> 'a list"
    and remaining :: "'b \<Rightarrow> nat"
    and invar :: "'b \<Rightarrow> bool"
  assumes push_full: "remaining b = 0 \<Longrightarrow> is_panic (push x b)"
    and push_ok: "invar b \<Longrightarrow> remaining b > 0 \<Longrightarrow>
      \<exists>b'. push x b = Ok b' \<and> invar b' \<and> into b' = into b @ [x] \<and>
        Suc (remaining b') = remaining b"
begin

primrec push_list :: "'a list \<Rightarrow> 'b \<Rightarrow> (read_error, 'b) outcome" where
  "push_list [] b = Ok b"
| "push_list (x # xs) b = bind_o (push x b) (push_list xs)"

lemma push_list_ok:
  "invar b \<Longrightarrow> length xs \<le> remaining b \<Longrightarrow>
    \<exists>b'. push_list xs b = Ok b' \<and> invar b' \<and> into b' = into b @ xs \<and>
      remaining b' = remaining b - length xs"
proof (induction xs arbitrary: b)
  case Nil
  then show ?case by simp
next
  case (Cons x xs)
  then obtain b1 where b1: "push x b = Ok b1" "invar b1" "into b1 = into b @ [x]"
    "Suc (remaining b1) = remaining b"
    using push_ok [of b x] by auto
  with Cons.prems have "length xs \<le> remaining b1" by simp
  with Cons.IH [OF b1(2)] b1 show ?case by auto
qed

lemma push_list_overfull:
  assumes "invar b" and "remaining b < length xs"
  shows "is_panic (push_list xs b)"
  using assms
proof (induction xs arbitrary: b)
  case Nil
  then show ?case by simp
next
  case (Cons x xs)
  show ?case
  proof (cases "remaining b = 0")
    case True
    with push_full [of b x] show ?thesis by (auto simp: is_panic_iff)
  next
    case False
    with push_ok [OF Cons.prems(1), of x] obtain b1 where
      "push x b = Ok b1" "invar b1" "Suc (remaining b1) = remaining b" by auto
    with Cons.prems Cons.IH [of b1] show ?thesis by simp
  qed
qed

end

lemma append_blocks_concat: "append_blocks out bl = out @ concat bl"
  by (induction out bl rule: append_blocks.induct) auto

lemma vb_into_list: "vb_into b = vb_list b"
  by (cases "blocks b") (auto simp: vb_into_def vb_list_def append_blocks_concat)

lemma open_block_not_Nil: "blocks b \<noteq> [] \<Longrightarrow> open_block b \<noteq> []"
  by (simp add: open_block_def)

lemma concat_open_block: "concat (open_block b) = vb_list b"
  by (simp add: open_block_def vb_list_def)

lemma concat_extend_last:
  "bl \<noteq> [] \<Longrightarrow> concat (butlast bl @ [last bl @ xs]) = concat bl @ xs"
  by (metis append.assoc append_butlast_last_id concat.simps(1,2) concat_append append_Nil2)

lemma open_block_blocks:
  assumes "vb_inv b"
  shows "\<forall>bl \<in> set (butlast (open_block b)). length bl = elements_per_block b"
    and "length (last (open_block b)) < elements_per_block b"
proof -
  have "set (blocks b) = insert (last (blocks b)) (set (butlast (blocks b)))"
    using assms by (metis append_butlast_last_id list.set(2) list.simps(15) rotate1.simps(2)
        set_rotate1 vb_inv_def)
  then show "\<forall>bl \<in> set (butlast (open_block b)). length bl = elements_per_block b"
    using assms by (auto simp: vb_inv_def open_block_def)
  show "length (last (open_block b)) < elements_per_block b"
    using assms by (auto simp: vb_inv_def open_block_def)
qed

text \<open>Writing up to a block's remaining room keeps the invariant.\<close>

lemma vb_inv_extend:
  assumes "vb_inv b" and "length xs \<le> elements_per_block b - length (last (open_block b))"
  shows "vb_inv (b\<lparr>blocks := butlast (open_block b) @ [last (open_block b) @ xs],
      remaining_elements := r\<rparr>)"
  using assms open_block_blocks [OF assms(1)] by (auto simp: vb_inv_def)

lemma vb_list_extend:
  assumes "blocks b \<noteq> []"
  shows "vb_list (b\<lparr>blocks := butlast (open_block b) @ [last (open_block b) @ xs],
      remaining_elements := r\<rparr>) = vb_list b @ xs"
  using concat_extend_last [OF open_block_not_Nil [OF assms]]
  by (simp add: vb_list_def concat_open_block [unfolded vb_list_def] del: concat_append)

lemma vb_push_ok:
  assumes "vb_inv b" and "remaining_elements b > 0"
  shows "\<exists>b'. vb_push x b = Ok b' \<and> vb_inv b' \<and> vb_list b' = vb_list b @ [x] \<and>
    Suc (remaining_elements b') = remaining_elements b"
proof -
  have ne: "blocks b \<noteq> []" using assms(1) by (simp add: vb_inv_def)
  have "length [x] \<le> elements_per_block b - length (last (open_block b))"
    using open_block_blocks(2) [OF assms(1)] by simp
  from vb_inv_extend [OF assms(1) this] vb_list_extend [OF ne, where xs = "[x]"]
  show ?thesis using assms(2) ne by (simp add: vb_push_def Let_def)
qed

interpretation vb: bounded_builder vb_push vb_into remaining_elements vb_inv
proof unfold_locales
  show "is_panic (vb_push x b)" if "remaining_elements b = 0" for x :: 'a and b
    using that by (simp add: vb_push_def)
  show "\<exists>b'. vb_push x b = Ok b' \<and> vb_inv b' \<and> vb_into b' = vb_into b @ [x] \<and>
      Suc (remaining_elements b') = remaining_elements b"
    if "vb_inv b" "0 < remaining_elements b" for x :: 'a and b
    using vb_push_ok [OF that] by (auto simp: vb_into_list)
qed

section \<open>Filling a builder with bytes\<close>

lemma vb_new_inv:
  assumes "vb_new sz n = Ok b"
  shows "vb_inv b" "vb_list b = []" "remaining_elements b = n"
  using assms by (auto simp: vb_new_def new_with_block_size_def Let_def vb_inv_def vb_list_def
      split: if_splits)

lemma vb_new_ok:
  "0 < sz \<Longrightarrow> sz \<le> DEFAULT_BLOCK_SIZE \<Longrightarrow> \<exists>b. vb_new sz n = Ok b"
  by (simp add: vb_new_def new_with_block_size_def Let_def div_greater_zero_iff)

lemma vb_read_loop_eq:
  assumes "vb_inv b" and "remaining_elements b \<le> fuel"
  shows "if remaining_elements b \<le> length bs
    then \<exists>b'. vb_read_loop fuel b (bs, e) = Ok (b', (drop (remaining_elements b) bs, e)) \<and>
      vb_list b' = vb_list b @ take (remaining_elements b) bs
    else vb_read_loop fuel b (bs, e) = Err (IO (eof_kind e))"
  using assms
proof (induction fuel arbitrary: b bs)
  case 0
  then show ?case by simp
next
  case (Suc fuel)
  show ?case
  proof (cases "remaining_elements b = 0")
    case True
    then show ?thesis by simp
  next
    case False
    define buf where "buf = last (open_block b)"
    define m where "m = min (remaining_elements b) (elements_per_block b - length buf)"
    have ne: "blocks b \<noteq> []" using Suc.prems(1) by (simp add: vb_inv_def)
    have m0: "0 < m" "m \<le> remaining_elements b"
      using False open_block_blocks(2) [OF Suc.prems(1)] by (simp_all add: m_def buf_def)
    show ?thesis
    proof (cases "m \<le> length bs")
      case short: False
      then have "vb_read_loop (Suc fuel) b (bs, e) = Err (IO (eof_kind e))"
        using False ne by (simp add: Let_def m_def buf_def)
      with short m0 show ?thesis by simp
    next
      case True
      define b1 where "b1 = b\<lparr>blocks := butlast (open_block b) @ [buf @ take m bs],
        remaining_elements := remaining_elements b - m\<rparr>"
      have step: "vb_read_loop (Suc fuel) b (bs, e) = vb_read_loop fuel b1 (drop m bs, e)"
        using False ne True by (simp add: Let_def m_def buf_def b1_def)
      have "vb_inv b1"
        unfolding b1_def buf_def
        by (rule vb_inv_extend [OF Suc.prems(1)]) (simp add: m_def buf_def)
      moreover have "remaining_elements b1 \<le> fuel"
        using Suc.prems(2) m0 by (simp add: b1_def)
      moreover have "vb_list b1 = vb_list b @ take m bs"
        unfolding b1_def buf_def by (rule vb_list_extend [OF ne])
      moreover have "remaining_elements b1 = remaining_elements b - m"
        by (simp add: b1_def)
      ultimately show ?thesis
        using Suc.IH [of b1 "drop m bs"] m0 True step
        by (auto simp: take_add [symmetric] split: if_splits)
    qed
  qed
qed

text \<open>
  The block-wise read of a byte string is one \<open>read_exact\<close>: the same bytes, the same rest,
  the same error.
\<close>

lemma read_bytes_eq [simp]: "read_bytes n = read_exact n"
proof
  fix s :: stream
  obtain bs e where s: "s = (bs, e)" by (cases s)
  obtain b :: "u8 vec_builder" where b: "vb_new 1 n = Ok b"
    using vb_new_ok [of 1 n] by (auto simp: DEFAULT_BLOCK_SIZE_def)
  note inv = vb_new_inv [OF b]
  from vb_read_loop_eq [OF inv(1), of n bs e] inv b
  show "read_bytes n s = read_exact n s"
    by (auto simp: read_bytes_def vb_read_exact_def vb_into_list s split: if_splits)
qed

section \<open>Filling a builder element by element\<close>

lemma push_items_eq:
  assumes "vb_inv b" and "n \<le> remaining_elements b"
  shows "rbind (push_items n rd b) (\<lambda>res. rret (vb_into res)) s =
    rbind (read_items n rd) (\<lambda>xs. rret (vb_into b @ xs)) s"
  using assms
proof (induction n arbitrary: b s)
  case 0
  then show ?case by simp
next
  case (Suc n)
  show ?case
  proof (cases "rd s")
    case (Ok r)
    obtain x s' where r: "r = (x, s')" by (cases r)
    obtain b1 where b1: "vb_push x b = Ok b1" "vb_inv b1"
      "vb_into b1 = vb_into b @ [x]" "n \<le> remaining_elements b1"
      using vb_push_ok [OF Suc.prems(1), of x] Suc.prems(2) by (auto simp: vb_into_list)
    show ?thesis
      using Suc.IH [OF b1(2,4), of s'] b1 Ok r
      by (simp add: rbind_def split: outcome.splits prod.splits)
  qed (simp_all add: rbind_def)
qed

text \<open>
  Reading \<open>n\<close> elements through a builder is the plain loop, whatever the size of an element,
  as long as one element fits into a block (for a zero-sized element type, as long as at least
  one element is expected).
\<close>

lemma read_vec_eq:
  assumes "sz \<le> DEFAULT_BLOCK_SIZE" and "sz = 0 \<Longrightarrow> 0 < n"
  shows "read_vec sz n (rd :: 'a reader) = read_items n rd"
proof
  fix s :: stream
  obtain b :: "'a vec_builder" where b: "vb_new sz n = Ok b"
    using assms vb_new_ok [of sz n]
    by (cases "sz = 0") (auto simp: vb_new_def new_with_block_size_def)
  note inv = vb_new_inv [OF b]
  have "read_vec sz n rd s = rbind (read_items n rd) (\<lambda>xs. rret (vb_into b @ xs)) s"
    using push_items_eq [OF inv(1), of n rd s] inv(3) b by (simp add: read_vec_def)
  also have "\<dots> = read_items n rd s"
    using inv(2) by (auto simp: vb_into_list rbind_def rret_def split: outcome.splits)
  finally show "read_vec sz n rd s = read_items n rd s" .
qed

subsection \<open>Contracts of the plain loop\<close>

lemma stream_reader_read_items [reader_intros]:
  "stream_reader rd \<Longrightarrow> stream_reader (read_items n rd)"
  by (induction n) (auto intro!: reader_intros)

lemma safe_reader_read_items [reader_intros]:
  "safe_reader rd \<Longrightarrow> safe_reader (read_items n rd)"
  by (induction n) (auto intro!: reader_intros)

lemma read_items_wconcat:
  assumes "\<And>x bs rest. x \<in> set xs \<Longrightarrow> wr x = Ok bs \<Longrightarrow>
      rd (bs @ rest, e) = Ok (norm x, (rest, e))"
    and "wconcat wr xs = Ok bs"
  shows "read_items (length xs) rd (bs @ rest, e) = Ok (map norm xs, (rest, e))"
  using assms
proof (induction xs arbitrary: bs)
  case Nil
  then show ?case by simp
next
  case (Cons x xs)
  from Cons.prems(2) obtain b1 b2 where bs: "wr x = Ok b1" "wconcat wr xs = Ok b2" "bs = b1 @ b2"
    by auto
  have "read_items (length xs) rd (b2 @ rest, e) = Ok (map norm xs, (rest, e))"
    using Cons.IH [OF _ bs(2)] Cons.prems(1) by simp
  with Cons.prems(1) [of x b1 "b2 @ rest"] bs show ?case by simp
qed

lemma read_items_length:
  "read_items n rd s = Ok (xs, s') \<Longrightarrow> length xs = n"
  by (induction n arbitrary: s xs) (auto simp: rbind_Ok_iff)

end
