(* ===== verification/Rust_String.thy ===== *)
theory Rust_String
  imports Kafka_Prelude "HOL-Library.List_Lexorder"
begin

text \<open>
  Rust's \<open>String\<close>: a byte vector that is valid UTF-8.  \<open>utf8_valid\<close> is the check of
  \<open>String::from_utf8\<close> (the well-formed byte sequences of the Unicode standard, table 3-7);
  the type \<open>rstring\<close> carries it as an invariant, as the Rust type does.  Strings are ordered
  by their bytes, the order of the keys of a \<open>BTreeMap<String, _>\<close>.
\<close>

definition byte_between :: "u8 \<Rightarrow> u8 \<Rightarrow> u8 \<Rightarrow> bool" where
  "byte_between lo hi b \<longleftrightarrow> lo \<le> b \<and> b \<le> hi"

definition utf8_two :: "u8 \<Rightarrow> u8 \<Rightarrow> bool" where
  "utf8_two b0 b1 \<longleftrightarrow> byte_between 0xC2 0xDF b0 \<and> byte_between 0x80 0xBF b1"

definition utf8_three :: "u8 \<Rightarrow> u8 \<Rightarrow> u8 \<Rightarrow> bool" where
  "utf8_three b0 b1 b2 \<longleftrightarrow> byte_between 0x80 0xBF b2 \<and>
     (b0 = 0xE0 \<and> byte_between 0xA0 0xBF b1 \<or>
      byte_between 0xE1 0xEC b0 \<and> byte_between 0x80 0xBF b1 \<or>
      b0 = 0xED \<and> byte_between 0x80 0x9F b1 \<or>
      byte_between 0xEE 0xEF b0 \<and> byte_between 0x80 0xBF b1)"

definition utf8_four :: "u8 \<Rightarrow> u8 \<Rightarrow> u8 \<Rightarrow> u8 \<Rightarrow> bool" where
  "utf8_four b0 b1 b2 b3 \<longleftrightarrow> byte_between 0x80 0xBF b2 \<and> byte_between 0x80 0xBF b3 \<and>
     (b0 = 0xF0 \<and> byte_between 0x90 0xBF b1 \<or>
      byte_between 0xF1 0xF3 b0 \<and> byte_between 0x80 0xBF b1 \<or>
      b0 = 0xF4 \<and> byte_between 0x80 0x8F b1)"

fun utf8_valid :: "u8 list \<Rightarrow> bool" where
  "utf8_valid [] = True"
| "utf8_valid (b0 # bs) =
     (if b0 < 0x80 then utf8_valid bs
      else case bs of
        [] \<Rightarrow> False
      | b1 # bs1 \<Rightarrow>
          if utf8_two b0 b1 then utf8_valid bs1
          else (case bs1 of
            [] \<Rightarrow> False
          | b2 # bs2 \<Rightarrow>
              if utf8_three b0 b1 b2 then utf8_valid bs2
              else (case bs2 of
                [] \<Rightarrow> False
              | b3 # bs3 \<Rightarrow> utf8_four b0 b1 b2 b3 \<and> utf8_valid bs3)))"

typedef rstring = "{bs :: u8 list. utf8_valid bs}" morphisms as_bytes Abs_rstring
  by (rule exI [of _ "[]"]) simp

setup_lifting type_definition_rstring

lift_definition rstring_empty :: rstring is "[]"
  by simp

definition from_utf8 :: "u8 list \<Rightarrow> rstring option" where
  "from_utf8 bs = (if utf8_valid bs then Some (Abs_rstring bs) else None)"

text \<open>A string literal of ASCII characters.\<close>

definition ascii_bytes :: "string \<Rightarrow> u8 list" where
  "ascii_bytes cs = map of_char cs"

lemma utf8_valid_ascii: "list_all (\<lambda>b. b < 0x80) bs \<Longrightarrow> utf8_valid bs"
  by (induction bs) auto

lift_definition str :: "string \<Rightarrow> rstring"
  is "\<lambda>cs. if list_all (\<lambda>b. b < 0x80) (ascii_bytes cs) then ascii_bytes cs else []"
  by (simp add: utf8_valid_ascii)

lemma as_bytes_str:
  "list_all (\<lambda>b. b < 0x80) (ascii_bytes cs) \<Longrightarrow> as_bytes (str cs) = ascii_bytes cs"
  by (simp add: str.rep_eq)

text \<open>Concatenation.\<close>

lemma utf8_valid_append: "utf8_valid xs \<Longrightarrow> utf8_valid ys \<Longrightarrow> utf8_valid (xs @ ys)"
proof (induction "length xs" arbitrary: xs rule: less_induct)
  case less
  note [simp del] = utf8_valid.simps(2)
  show ?case
  proof (cases xs)
    case Nil
    with less.prems show ?thesis by simp
  next
    case (Cons b0 bs)
    have IH: "utf8_valid zs \<Longrightarrow> length zs < length xs \<Longrightarrow> utf8_valid (zs @ ys)" for zs
      using less by blast
    from less.prems(1) Cons consider "b0 < 0x80" "utf8_valid bs"
      | b1 bs1 where "\<not> b0 < 0x80" "bs = b1 # bs1" "utf8_two b0 b1" "utf8_valid bs1"
      | b1 b2 bs2 where "\<not> b0 < 0x80" "bs = b1 # b2 # bs2" "\<not> utf8_two b0 b1"
          "utf8_three b0 b1 b2" "utf8_valid bs2"
      | b1 b2 b3 bs3 where "\<not> b0 < 0x80" "bs = b1 # b2 # b3 # bs3" "\<not> utf8_two b0 b1"
          "\<not> utf8_three b0 b1 b2" "utf8_four b0 b1 b2 b3" "utf8_valid bs3"
      by (simp only: utf8_valid.simps(2)) (simp split: list.splits if_splits)
    then show ?thesis
      by cases (use Cons IH in \<open>simp_all add: utf8_valid.simps(2)\<close>)
  qed
qed

lift_definition rstring_append :: "rstring \<Rightarrow> rstring \<Rightarrow> rstring" is "(@)"
  by (rule utf8_valid_append)

lemma as_bytes_append [simp]: "as_bytes (rstring_append s t) = as_bytes s @ as_bytes t"
  by (rule rstring_append.rep_eq)

lemma utf8_valid_as_bytes [simp]: "utf8_valid (as_bytes s)"
  using as_bytes [of s] by simp

lemma as_bytes_empty [simp]: "as_bytes rstring_empty = []"
  by (rule rstring_empty.rep_eq)

lemma from_utf8_as_bytes [simp]: "from_utf8 (as_bytes s) = Some s"
  by (simp add: from_utf8_def as_bytes_inverse)

lemma from_utf8_Some_iff: "from_utf8 bs = Some s \<longleftrightarrow> bs = as_bytes s"
  by (auto simp: from_utf8_def Abs_rstring_inverse as_bytes_inverse split: if_splits)

lemma from_utf8_None_iff: "from_utf8 bs = None \<longleftrightarrow> \<not> utf8_valid bs"
  by (simp add: from_utf8_def)

lemma as_bytes_inject_iff: "as_bytes s = as_bytes t \<longleftrightarrow> s = t"
  by (rule as_bytes_inject)

instantiation rstring :: equal
begin

definition equal_rstring :: "rstring \<Rightarrow> rstring \<Rightarrow> bool" where
  "equal_rstring s t \<longleftrightarrow> as_bytes s = as_bytes t"

instance
  by standard (simp add: equal_rstring_def as_bytes_inject)

end

instantiation rstring :: linorder
begin

definition less_eq_rstring :: "rstring \<Rightarrow> rstring \<Rightarrow> bool" where
  "less_eq_rstring s t \<longleftrightarrow> as_bytes s \<le> as_bytes t"

definition less_rstring :: "rstring \<Rightarrow> rstring \<Rightarrow> bool" where
  "less_rstring s t \<longleftrightarrow> as_bytes s < as_bytes t"

instance
  by standard (auto simp: less_eq_rstring_def less_rstring_def order_less_le as_bytes_inject)

end

end
