(* ===== verification/Primitives.thy ===== *)
theory Primitives
  imports Vec_Builder Rust_String
begin

text \<open>
  \<open>src/src/protocol/primitives.rs\<close>: the primitive types of the wire format, each with the
  reader and the writer of its \<open>ReadType\<close> and \<open>WriteType\<close> implementation, in the order of
  the source.  A Rust newtype such as \<open>Int16(pub i16)\<close> is the type it wraps.

  \<open>Varint\<close> and \<open>Varlong\<close> call the crate \<open>integer_encoding\<close>, which is a parameter
  (\<open>varint_lib\<close>); what its documentation promises is the locale \<open>varint_crate\<close>.
  \<open>Records\<close>, which needs record batches, is in \<open>Record_Format\<close>.
\<close>

section \<open>Fixed-size integers\<close>

type_synonym Int8 = i8
type_synonym Int16 = i16
type_synonym Int32 = i32
type_synonym Int64 = i64

definition read_Boolean :: "bool reader" where
  "read_Boolean = rbind (read_exact 1) (\<lambda>buf. rret (hd buf \<noteq> 0))"

definition write_Boolean :: "bool \<Rightarrow> wres" where
  "write_Boolean b = (if b then Ok [1] else Ok [0])"

definition read_Int8 :: "Int8 reader" where
  "read_Int8 = rbind (read_exact 1) (\<lambda>buf. rret (from_be_bytes 0 buf))"

definition write_Int8 :: "Int8 \<Rightarrow> wres" where
  "write_Int8 x = Ok (to_be_bytes 1 x)"

definition read_Int16 :: "Int16 reader" where
  "read_Int16 = rbind (read_exact 2) (\<lambda>buf. rret (from_be_bytes 0 buf))"

definition write_Int16 :: "Int16 \<Rightarrow> wres" where
  "write_Int16 x = Ok (to_be_bytes 2 x)"

definition read_Int32 :: "Int32 reader" where
  "read_Int32 = rbind (read_exact 4) (\<lambda>buf. rret (from_be_bytes 0 buf))"

definition write_Int32 :: "Int32 \<Rightarrow> wres" where
  "write_Int32 x = Ok (to_be_bytes 4 x)"

definition read_Int64 :: "Int64 reader" where
  "read_Int64 = rbind (read_exact 8) (\<lambda>buf. rret (from_be_bytes 0 buf))"

definition write_Int64 :: "Int64 \<Rightarrow> wres" where
  "write_Int64 x = Ok (to_be_bytes 8 x)"

section \<open>Variable-length integers\<close>

text \<open>
  The functions of the crate \<open>integer_encoding\<close>: \<open>VarIntReader::read_varint::<i64>\<close> and
  \<open>VarIntWriter::write_varint\<close> at both integer types, the latter on an in-memory buffer.
\<close>

record varint_lib =
  read_varint :: "stream \<Rightarrow> (io_error, i64 \<times> stream) outcome"
  write_varint_i32 :: "i32 \<Rightarrow> u8 list"
  write_varint_i64 :: "i64 \<Rightarrow> u8 list"

definition read_Varlong :: "varint_lib \<Rightarrow> i64 reader" where
  "read_Varlong V s = map_err IO (read_varint V s)"

definition write_Varlong :: "varint_lib \<Rightarrow> i64 \<Rightarrow> wres" where
  "write_Varlong V x = Ok (write_varint_i64 V x)"

definition read_Varint :: "varint_lib \<Rightarrow> i32 reader" where
  "read_Varint V =
     rbind (\<lambda>s. map_err IO (read_varint V s)) (\<lambda>i.
     rlift (ok_or Overflow (i32_try_from_i64 i)))"

definition write_Varint :: "varint_lib \<Rightarrow> i32 \<Rightarrow> wres" where
  "write_Varint V x = Ok (write_varint_i32 V x)"

text \<open>
  \<open>UnsignedVarint\<close>: the loop reads groups of seven bits, the lowest first, until a byte
  without the continuation bit.
\<close>

function uvarint_loop :: "u64 \<Rightarrow> nat \<Rightarrow> u64 reader" where
  "uvarint_loop res shift =
     rbind (read_exact 1) (\<lambda>buf.
       let c = (ucast (hd buf) :: u64);
           res' = res OR push_bit shift (c AND 0x7f);
           shift' = shift + 7
       in if c AND 0x80 = 0 then rret res'
          else if shift' > 63 then rlift (Err (Malformed UvarintTooLong))
          else uvarint_loop res' shift')"
  by pat_completeness auto
termination
  by (relation "measure (\<lambda>(res, shift). 70 - shift)") auto

definition read_UnsignedVarint :: "u64 reader" where
  "read_UnsignedVarint = uvarint_loop 0 0"

definition u8_try_from_u64 :: "u64 \<Rightarrow> u8 option" where
  "u8_try_from_u64 w = (if w < 256 then Some (ucast w) else None)"

function write_UnsignedVarint :: "u64 \<Rightarrow> wres" where
  "write_UnsignedVarint cur =
     (case u8_try_from_u64 (cur AND 0x7f) of
        None \<Rightarrow> Err WriteOverflow
      | Some c \<Rightarrow>
          let cur' = drop_bit 7 cur;
              c' = (if cur' > 0 then c OR 0x80 else c)
          in if cur' = 0 then Ok [c'] else wseq (Ok [c']) (write_UnsignedVarint cur'))"
  by pat_completeness auto
termination
proof (relation "measure unat")
  fix cur :: u64 and c cur' c'
  assume "cur' = drop_bit 7 cur" "cur' \<noteq> 0"
  then have "cur \<noteq> 0" "unat cur' = unat cur div 128"
    by (auto simp: drop_bit_eq_div unat_div_distrib)
  then show "(cur', cur) \<in> measure unat"
    by (simp add: unat_gt_0)
qed simp

section \<open>Strings\<close>

text \<open>Subtraction of \<open>usize\<close> values: below zero it panics.\<close>

definition usize_sub :: "usize \<Rightarrow> usize \<Rightarrow> ('e, usize) outcome" where
  "usize_sub a b = (if b \<le> a then Ok (a - b) else Panic ArithmeticOverflow)"

definition read_utf8 :: "usize \<Rightarrow> rstring reader" where
  "read_utf8 len =
     rbind (read_bytes len) (\<lambda>buf.
     rlift (ok_or (Malformed FromUtf8) (from_utf8 buf)))"

definition read_NullableString :: "rstring option reader" where
  "read_NullableString =
     rbind read_Int16 (\<lambda>len.
       if sint len < -1 then rlift (Err (Malformed (NegativeLength (sint len))))
       else if len = -1 then rret None
       else
         rbind (rlift (ok_or Overflow (usize_try_from_signed len))) (\<lambda>len.
         rbind (read_utf8 len) (\<lambda>s.
         rret (Some s))))"

definition write_NullableString :: "rstring option \<Rightarrow> wres" where
  "write_NullableString x =
     (case x of
        Some s \<Rightarrow>
          bind_o (ok_or (WriteMalformed WriteTryFromInt)
            (i16_try_from_usize (length (as_bytes s)))) (\<lambda>l.
          wseq (write_Int16 l) (Ok (as_bytes s)))
      | None \<Rightarrow> write_Int16 (-1))"

definition read_String :: "rstring reader" where
  "read_String =
     rbind read_Int16 (\<lambda>len.
     rbind (rlift (ok_or (Malformed TryFromInt) (usize_try_from_signed len))) (\<lambda>len.
     read_utf8 len))"

definition write_String :: "rstring \<Rightarrow> wres" where
  "write_String s =
     bind_o (ok_or WriteOverflow (i16_try_from_usize (length (as_bytes s)))) (\<lambda>len.
     wseq (write_Int16 len) (Ok (as_bytes s)))"

definition read_CompactString :: "rstring reader" where
  "read_CompactString =
     rbind read_UnsignedVarint (\<lambda>len.
       if len = 0 then rlift (Err (Malformed ZeroCompactString))
       else
         rbind (rlift (ok_or Overflow (usize_try_from_u64 len))) (\<lambda>len.
         rbind (rlift (usize_sub len 1)) (\<lambda>len.
         read_utf8 len)))"

definition write_CompactStringRef :: "rstring \<Rightarrow> wres" where
  "write_CompactStringRef s =
     bind_o (ok_or WriteOverflow (u64_try_from_usize (length (as_bytes s) + 1))) (\<lambda>len.
     wseq (write_UnsignedVarint len) (Ok (as_bytes s)))"

definition write_CompactString :: "rstring \<Rightarrow> wres" where
  "write_CompactString s = write_CompactStringRef s"

definition read_CompactNullableString :: "rstring option reader" where
  "read_CompactNullableString =
     rbind read_UnsignedVarint (\<lambda>len.
       if len = 0 then rret None
       else
         rbind (rlift (ok_or Overflow (usize_try_from_u64 len))) (\<lambda>len.
         rbind (rlift (usize_sub len 1)) (\<lambda>len.
         rbind (read_utf8 len) (\<lambda>s.
         rret (Some s)))))"

definition write_CompactNullableStringRef :: "rstring option \<Rightarrow> wres" where
  "write_CompactNullableStringRef x =
     (case x of
        Some s \<Rightarrow>
          bind_o (ok_or WriteOverflow (u64_try_from_usize (length (as_bytes s) + 1))) (\<lambda>len.
          wseq (write_UnsignedVarint len) (Ok (as_bytes s)))
      | None \<Rightarrow> write_UnsignedVarint 0)"

definition write_CompactNullableString :: "rstring option \<Rightarrow> wres" where
  "write_CompactNullableString x = write_CompactNullableStringRef x"

section \<open>Byte strings\<close>

definition read_Bytes :: "u8 list reader" where
  "read_Bytes =
     rbind read_Int32 (\<lambda>len.
     rbind (rlift (ok_or Overflow (usize_try_from_signed len))) (\<lambda>len.
     read_bytes len))"

definition write_Bytes :: "u8 list \<Rightarrow> wres" where
  "write_Bytes x =
     bind_o (ok_or (WriteMalformed WriteTryFromInt) (i32_try_from_usize (length x))) (\<lambda>l.
     wseq (write_Int32 l) (Ok x))"

text \<open>Unlike its string counterpart, \<open>CompactBytes::read\<close> does not check for length 0.\<close>

definition read_CompactBytes :: "u8 list reader" where
  "read_CompactBytes =
     rbind read_UnsignedVarint (\<lambda>len.
     rbind (rlift (ok_or Overflow (usize_try_from_u64 len))) (\<lambda>len.
     rbind (rlift (usize_sub len 1)) (\<lambda>len.
     read_bytes len)))"

definition write_CompactBytesRef :: "u8 list \<Rightarrow> wres" where
  "write_CompactBytesRef x =
     bind_o (ok_or WriteOverflow (u64_try_from_usize (length x + 1))) (\<lambda>len.
     wseq (write_UnsignedVarint len) (Ok x))"

definition write_CompactBytes :: "u8 list \<Rightarrow> wres" where
  "write_CompactBytes x = write_CompactBytesRef x"

definition read_NullableBytes :: "u8 list option reader" where
  "read_NullableBytes =
     rbind read_Int32 (\<lambda>len.
       if sint len < -1 then rlift (Err (Malformed (NegativeLength (sint len))))
       else if len = -1 then rret None
       else
         rbind (rlift (ok_or Overflow (usize_try_from_signed len))) (\<lambda>len.
         rbind (read_bytes len) (\<lambda>buf.
         rret (Some buf))))"

definition write_NullableBytes :: "u8 list option \<Rightarrow> wres" where
  "write_NullableBytes x =
     (case x of
        Some s \<Rightarrow>
          bind_o (ok_or (WriteMalformed WriteTryFromInt) (i32_try_from_usize (length s))) (\<lambda>l.
          wseq (write_Int32 l) (Ok s))
      | None \<Rightarrow> write_Int32 (-1))"

section \<open>Tagged fields and arrays\<close>

type_synonym TaggedFields = "(u64 \<times> u8 list) list"

definition read_TaggedField :: "(u64 \<times> u8 list) reader" where
  "read_TaggedField =
     rbind read_UnsignedVarint (\<lambda>tag.
     rbind read_UnsignedVarint (\<lambda>data_len.
     rbind (rlift (ok_or Overflow (usize_try_from_u64 data_len))) (\<lambda>data_len.
     rbind (read_bytes data_len) (\<lambda>data.
     rret (tag, data)))))"

definition read_TaggedFields :: "TaggedFields reader" where
  "read_TaggedFields =
     rbind read_UnsignedVarint (\<lambda>len.
     rbind (rlift (ok_or Overflow (usize_try_from_u64 len))) (\<lambda>len.
     read_items len read_TaggedField))"

definition write_TaggedField :: "u64 \<times> u8 list \<Rightarrow> wres" where
  "write_TaggedField f =
     (case f of (tag, data) \<Rightarrow>
        wseq (write_UnsignedVarint tag)
          (bind_o (ok_or WriteOverflow (u64_try_from_usize (length data))) (\<lambda>data_len.
           wseq (write_UnsignedVarint data_len) (Ok data))))"

definition write_TaggedFields :: "TaggedFields \<Rightarrow> wres" where
  "write_TaggedFields fs =
     bind_o (ok_or WriteOverflow (u64_try_from_usize (length fs))) (\<lambda>len.
     wseq (write_UnsignedVarint len) (wconcat write_TaggedField fs))"

definition read_Array :: "'a reader \<Rightarrow> 'a list option reader" where
  "read_Array rd =
     rbind read_Int32 (\<lambda>len.
       if len = -1 then rret None
       else
         rbind (rlift (ok_or Overflow (usize_try_from_signed len))) (\<lambda>len.
         rbind (read_items len rd) (\<lambda>res.
         rret (Some res))))"

definition write_ArrayRef :: "('a \<Rightarrow> wres) \<Rightarrow> 'a list option \<Rightarrow> wres" where
  "write_ArrayRef wr x =
     (case x of
        None \<Rightarrow> write_Int32 (-1)
      | Some inner \<Rightarrow>
          bind_o (ok_or WriteOverflow (i32_try_from_usize (length inner))) (\<lambda>len.
          wseq (write_Int32 len) (wconcat wr inner)))"

definition write_Array :: "('a \<Rightarrow> wres) \<Rightarrow> 'a list option \<Rightarrow> wres" where
  "write_Array wr x = write_ArrayRef wr x"

definition read_CompactArray :: "'a reader \<Rightarrow> 'a list option reader" where
  "read_CompactArray rd =
     rbind read_UnsignedVarint (\<lambda>n.
       if n = 0 then rret None
       else
         rbind (rlift (ok_or Overflow (usize_try_from_u64 (n - 1)))) (\<lambda>len.
         rbind (read_items len rd) (\<lambda>res.
         rret (Some res))))"

definition write_CompactArrayRef :: "('a \<Rightarrow> wres) \<Rightarrow> 'a list option \<Rightarrow> wres" where
  "write_CompactArrayRef wr x =
     (case x of
        None \<Rightarrow> write_UnsignedVarint 0
      | Some inner \<Rightarrow>
          bind_o (ok_or WriteOverflow (u64_try_from_usize (length inner + 1))) (\<lambda>len.
          wseq (write_UnsignedVarint len) (wconcat wr inner)))"

definition write_CompactArray :: "('a \<Rightarrow> wres) \<Rightarrow> 'a list option \<Rightarrow> wres" where
  "write_CompactArray wr x = write_CompactArrayRef wr x"

section \<open>Reader contracts of the primitives\<close>

lemma usize_sub_simps [simp]:
  "b \<le> a \<Longrightarrow> usize_sub a b = Ok (a - b)" "a < b \<Longrightarrow> usize_sub a b = Panic ArithmeticOverflow"
  by (simp_all add: usize_sub_def)

lemma safe_fixed_readers [reader_intros]:
  "safe_reader read_Boolean" "safe_reader read_Int8" "safe_reader read_Int16"
  "safe_reader read_Int32" "safe_reader read_Int64"
  unfolding read_Boolean_def read_Int8_def read_Int16_def read_Int32_def read_Int64_def
  by (intro reader_intros)+

declare uvarint_loop.simps [simp del] write_UnsignedVarint.simps [simp del]

lemma safe_uvarint_loop: "safe_reader (uvarint_loop res shift)"
proof (induction res shift rule: uvarint_loop.induct)
  case (1 res shift)
  show ?case
    by (subst uvarint_loop.simps)
      (auto simp: Let_def intro!: reader_intros 1)
qed

lemma safe_read_UnsignedVarint [reader_intros]: "safe_reader read_UnsignedVarint"
  unfolding read_UnsignedVarint_def by (rule safe_uvarint_loop)

lemma safe_read_utf8 [reader_intros]: "safe_reader (read_utf8 n)"
  unfolding read_utf8_def by (auto intro!: reader_intros)

lemma safe_compact_length [reader_intros]:
  assumes "len \<noteq> (0 :: u64)" and "\<And>n. safe_reader (f n)"
  shows "safe_reader (rbind (rlift (ok_or Overflow (usize_try_from_u64 len))) (\<lambda>len.
    rbind (rlift (usize_sub len 1)) f))"
proof -
  have "1 \<le> unat len" using assms(1) by (simp add: Suc_le_eq unat_gt_0)
  then show ?thesis using assms(2) by (simp add: usize_try_from_u64_def)
qed

lemma safe_string_readers [reader_intros]:
  "safe_reader read_NullableString" "safe_reader read_String"
  "safe_reader read_CompactString" "safe_reader read_CompactNullableString"
  unfolding read_NullableString_def read_String_def read_CompactString_def
    read_CompactNullableString_def
  by (auto intro!: reader_intros)

lemma safe_bytes_readers [reader_intros]:
  "safe_reader read_Bytes" "safe_reader read_NullableBytes"
  unfolding read_Bytes_def read_NullableBytes_def
  by (auto intro!: reader_intros)

text \<open>\<open>CompactBytes\<close> is a stream reader, but not a safe one.\<close>

lemma stream_read_CompactBytes [reader_intros]: "stream_reader read_CompactBytes"
proof -
  have "stream_reader read_UnsignedVarint"
    using safe_read_UnsignedVarint by (simp add: safe_reader_def)
  then show ?thesis unfolding read_CompactBytes_def by (auto intro!: reader_intros)
qed

lemma safe_tagged_readers [reader_intros]:
  "safe_reader read_TaggedField" "safe_reader read_TaggedFields"
  unfolding read_TaggedField_def read_TaggedFields_def
  by (auto intro!: reader_intros)

lemma safe_read_Array [reader_intros]: "safe_reader rd \<Longrightarrow> safe_reader (read_Array rd)"
  unfolding read_Array_def by (auto intro!: reader_intros)

lemma safe_read_CompactArray [reader_intros]:
  "safe_reader rd \<Longrightarrow> safe_reader (read_CompactArray rd)"
  unfolding read_CompactArray_def by (auto intro!: reader_intros)

lemma stream_reader_of_safe [reader_intros]: "safe_reader rd \<Longrightarrow> stream_reader rd"
  by (simp add: safe_reader_def)

section \<open>Round trips\<close>

lemma fixed_codecs:
  "codec read_Boolean write_Boolean" "codec read_Int8 write_Int8" "codec read_Int16 write_Int16"
  "codec read_Int32 write_Int32" "codec read_Int64 write_Int64"
  by (auto intro!: codecI split: if_splits
      simp: read_Boolean_def write_Boolean_def read_Int8_def write_Int8_def read_Int16_def
        write_Int16_def read_Int32_def write_Int32_def read_Int64_def write_Int64_def
        from_to_be_bytes)

lemmas fixed_roundtrip [simp] = fixed_codecs [THEN codec_roundtrip]

subsection \<open>Unsigned varints\<close>

text \<open>The seven bits a byte of the encoding carries, and its continuation bit.\<close>

lemma bit_0x7f: "bit (0x7f :: 'a::len word) i \<longleftrightarrow> i < 7 \<and> i < LENGTH('a)"
proof -
  have "(0x7f :: 'a word) = mask 7" by (simp add: mask_eq_exp_minus_1)
  then show ?thesis by (simp only: bit_mask_iff) auto
qed

lemma bit_0x80: "bit (0x80 :: 'a::len word) i \<longleftrightarrow> i = 7 \<and> i < LENGTH('a)"
proof -
  have "(0x80 :: 'a word) = 2 ^ 7" by simp
  then show ?thesis by (simp only: bit_exp_iff possible_bit_word) auto
qed

lemma uvarint_group:
  fixes n :: u64
  shows "(ucast (ucast (n AND 0x7f) :: u8) :: u64) AND 0x7f = n AND 0x7f"
    and "(ucast (ucast (n AND 0x7f) OR 0x80 :: u8) :: u64) AND 0x7f = n AND 0x7f"
    and "(ucast (ucast (n AND 0x7f) :: u8) :: u64) AND 0x80 = 0"
    and "(ucast (ucast (n AND 0x7f) OR 0x80 :: u8) :: u64) AND 0x80 \<noteq> 0"
proof -
  show "(ucast (ucast (n AND 0x7f) :: u8) :: u64) AND 0x7f = n AND 0x7f"
    "(ucast (ucast (n AND 0x7f) OR 0x80 :: u8) :: u64) AND 0x7f = n AND 0x7f"
    "(ucast (ucast (n AND 0x7f) :: u8) :: u64) AND 0x80 = 0"
    by (auto intro!: bit_word_eqI simp: bit_simps bit_0x7f bit_0x80 simp del: bit_numeral_word_iff)
  have "bit ((ucast (ucast (n AND 0x7f) OR 0x80 :: u8) :: u64) AND 0x80) 7"
    by (simp add: bit_simps bit_0x80 del: bit_numeral_word_iff)
  then show "(ucast (ucast (n AND 0x7f) OR 0x80 :: u8) :: u64) AND 0x80 \<noteq> 0"
    by (metis bit_0_eq bot_apply bot_bool_def)
qed

lemma uvarint_join:
  "push_bit shift (n AND 0x7f) OR push_bit (shift + 7) (drop_bit 7 n) = push_bit shift (n :: u64)"
proof (rule bit_word_eqI)
  fix i
  show "bit (push_bit shift (n AND 0x7f) OR push_bit (shift + 7) (drop_bit 7 n)) i =
      bit (push_bit shift n) i"
  proof (cases "shift + 7 \<le> i")
    case True
    then have "7 + (i - (shift + 7)) = i - shift" by simp
    with True show ?thesis by (auto simp: bit_simps bit_0x7f simp del: push_bit_and bit_numeral_word_iff)
  next
    case False
    then show ?thesis by (auto simp: bit_simps bit_0x7f simp del: push_bit_and bit_numeral_word_iff)
  qed
qed

lemma uvarint_last: "drop_bit 7 n = 0 \<Longrightarrow> n AND 0x7f = (n :: u64)"
  using uvarint_join [of 0 n] by simp

lemma u8_try_from_group: "u8_try_from_u64 (n AND 0x7f) = Some (ucast (n AND 0x7f))"
proof -
  have "n AND 0x7f \<le> (0x7f :: u64)" by (rule word_and_le1)
  then have "n AND 0x7f < (256 :: u64)" by (rule le_less_trans) simp
  then show ?thesis by (simp add: u8_try_from_u64_def)
qed

lemma write_uvarint_step:
  "write_UnsignedVarint n =
     (if drop_bit 7 n = 0 then Ok [ucast (n AND 0x7f)]
      else wseq (Ok [ucast (n AND 0x7f) OR 0x80]) (write_UnsignedVarint (drop_bit 7 n)))"
  by (subst write_UnsignedVarint.simps) (simp add: u8_try_from_group Let_def word_neq_0_conv)

lemma uvarint_loop_Cons:
  "uvarint_loop res shift (b # bs, e) =
     (if (ucast b :: u64) AND 0x80 = 0
      then Ok (res OR push_bit shift (ucast b AND 0x7f), (bs, e))
      else if shift + 7 > 63 then Err (Malformed UvarintTooLong)
      else uvarint_loop (res OR push_bit shift (ucast b AND 0x7f)) (shift + 7) (bs, e))"
  by (subst uvarint_loop.simps) (simp add: Let_def)

lemma uvarint_loop_Nil: "uvarint_loop res shift ([], e) = Err (IO (eof_kind e))"
  by (subst uvarint_loop.simps) simp

lemma uvarint_loop_write:
  assumes "drop_bit (64 - shift) n = 0" and "shift \<le> 63" and "write_UnsignedVarint n = Ok bs"
  shows "uvarint_loop res shift (bs @ rest, e) = Ok (res OR push_bit shift n, (rest, e))"
  using assms
proof (induction n arbitrary: res shift bs rule: write_UnsignedVarint.induct)
  case (1 n)
  show ?case
  proof (cases "drop_bit 7 n = 0")
    case True
    with "1.prems"(3) have "bs = [ucast (n AND 0x7f)]" by (simp add: write_uvarint_step)
    moreover from uvarint_group(1,3) [of n] have
      "(ucast (ucast n :: u8) :: u64) AND 0x7f = n" "(ucast (ucast n :: u8) :: u64) AND 0x80 = 0"
      by (simp_all add: uvarint_last [OF True])
    ultimately show ?thesis
      by (simp add: uvarint_loop_Cons uvarint_last [OF True] del: push_bit_and)
  next
    case False
    with "1.prems"(3) obtain cs where
      cs: "write_UnsignedVarint (drop_bit 7 n) = Ok cs" "bs = (ucast (n AND 0x7f) OR 0x80) # cs"
      by (subst (asm) write_uvarint_step) auto
    have shift: "shift + 7 \<le> 63"
    proof (rule ccontr)
      assume "\<not> ?thesis"
      then have "drop_bit 7 n = drop_bit (7 - (64 - shift)) (drop_bit (64 - shift) n)"
        by (simp add: drop_bit_drop_bit)
      with "1.prems"(1) False show False by simp
    qed
    then have "drop_bit (64 - (shift + 7)) (drop_bit 7 n) = 0"
      using "1.prems"(1) by (simp add: drop_bit_drop_bit)
    from "1.IH" [OF u8_try_from_group refl refl False this shift cs(1)]
    have "uvarint_loop (res OR push_bit shift (n AND 0x7f)) (shift + 7) (cs @ rest, e) =
        Ok ((res OR push_bit shift (n AND 0x7f)) OR push_bit (shift + 7) (drop_bit 7 n), (rest, e))" .
    then show ?thesis
      using shift by (simp add: cs(2) uvarint_loop_Cons uvarint_group uvarint_join or.assoc del: push_bit_and)
  qed
qed

lemma codec_UnsignedVarint: "codec read_UnsignedVarint write_UnsignedVarint"
proof (rule codecI)
  fix n :: u64 and bs rest e
  assume "write_UnsignedVarint n = Ok bs"
  moreover have "drop_bit (64 - 0) n = 0"
    by (intro bit_word_eqI) (auto simp: bit_simps dest: bit_imp_le_length)
  ultimately show "read_UnsignedVarint (bs @ rest, e) = Ok (n, (rest, e))"
    using uvarint_loop_write [of 0 n bs 0 rest e] by (simp add: read_UnsignedVarint_def)
qed

lemmas uvarint_roundtrip [simp] = codec_UnsignedVarint [THEN codec_roundtrip]

lemma write_UnsignedVarint_total: "\<exists>bs. write_UnsignedVarint n = Ok bs"
proof (induction n rule: write_UnsignedVarint.induct)
  case (1 n)
  show ?case
    using "1.IH" [OF u8_try_from_group refl refl]
    by (cases "drop_bit 7 n = 0") (subst write_uvarint_step; auto)+
qed

lemma write_uvarint_small: "n < 0x80 \<Longrightarrow> write_UnsignedVarint n = Ok [ucast n]"
proof -
  assume "n < 0x80"
  then have "drop_bit 7 n = 0"
    by (simp add: drop_bit_eq_div word_less_nat_alt unat_div_distrib flip: unat_eq_zero)
  then show ?thesis by (subst write_uvarint_step) (simp add: uvarint_last)
qed

subsection \<open>Strings, byte strings, tagged fields\<close>

text \<open>A length that fits into the signed prefix is neither negative nor the null marker.\<close>

lemma i16_length_nonneg:
  "i16_try_from_usize n = Some w \<Longrightarrow> \<not> sint w < -1 \<and> w \<noteq> -1"
  by (auto simp: i16_try_from_usize_def sint_of_nat_small split: if_splits
      dest!: arg_cong [where f = sint and y = "-1"])

lemma i32_length_nonneg:
  "i32_try_from_usize n = Some w \<Longrightarrow> \<not> sint w < -1 \<and> w \<noteq> -1"
  by (auto simp: i32_try_from_usize_def sint_of_nat_small split: if_splits
      dest!: arg_cong [where f = sint and y = "-1"])

lemma u64_length_unat [simp]: "u64_try_from_usize n = Some w \<Longrightarrow> unat w = n"
  by (auto simp: u64_try_from_usize_def unat_of_nat split: if_splits)

lemma u64_length_nonzero [simp]: "u64_try_from_usize (Suc n) \<noteq> Some 0"
  using u64_length_unat [of "Suc n" 0] by auto

lemma u64_length_minus_one [simp]:
  assumes "u64_try_from_usize (Suc n) = Some w"
  shows "usize_try_from_u64 (w - 1) = Some n"
proof -
  from assms have "w \<noteq> 0" by auto
  then show ?thesis
    using assms by (simp add: usize_try_from_u64_def unat_minus_one)
qed

lemma read_utf8_roundtrip [simp]:
  "n = length (as_bytes s) \<Longrightarrow> read_utf8 n (as_bytes s @ rest, e) = Ok (s, (rest, e))"
  by (simp add: read_utf8_def)

lemma codec_NullableString: "codec read_NullableString write_NullableString"
  by (rule codecI)
    (auto simp: read_NullableString_def write_NullableString_def write_Int16_def
      split: option.splits dest: i16_length_nonneg)

lemma codec_String: "codec read_String write_String"
  by (rule codecI) (auto simp: read_String_def write_String_def)

lemma codec_CompactString: "codec read_CompactString write_CompactString"
  by (rule codecI)
    (auto simp: read_CompactString_def write_CompactString_def write_CompactStringRef_def)

lemma codec_CompactNullableString:
  "codec read_CompactNullableString write_CompactNullableString"
  by (rule codecI)
    (auto simp: read_CompactNullableString_def write_CompactNullableString_def
      write_CompactNullableStringRef_def split: option.splits)

lemma codec_Bytes: "codec read_Bytes write_Bytes"
  by (rule codecI) (auto simp: read_Bytes_def write_Bytes_def)

lemma codec_CompactBytes: "codec read_CompactBytes write_CompactBytes"
  by (rule codecI)
    (auto simp: read_CompactBytes_def write_CompactBytes_def write_CompactBytesRef_def)

lemma codec_NullableBytes: "codec read_NullableBytes write_NullableBytes"
  by (rule codecI)
    (auto simp: read_NullableBytes_def write_NullableBytes_def
      split: option.splits dest: i32_length_nonneg)

lemma codec_TaggedField: "codec read_TaggedField write_TaggedField"
  by (rule codecI) (auto simp: read_TaggedField_def write_TaggedField_def)

lemmas string_roundtrip [simp] =
  codec_NullableString [THEN codec_roundtrip] codec_String [THEN codec_roundtrip]
  codec_CompactString [THEN codec_roundtrip] codec_CompactNullableString [THEN codec_roundtrip]
  codec_Bytes [THEN codec_roundtrip] codec_CompactBytes [THEN codec_roundtrip]
  codec_NullableBytes [THEN codec_roundtrip] codec_TaggedField [THEN codec_roundtrip]

lemma read_items_norm_codec:
  assumes "norm_codec rd wr norm" and "wconcat wr xs = Ok bs" and "n = length xs"
  shows "read_items n rd (bs @ rest, e) = Ok (map norm xs, (rest, e))"
  using read_items_wconcat [of xs wr rd e norm bs rest] norm_codec.roundtrip [OF assms(1)]
    assms(2,3) by simp

lemma codec_is_norm: "codec rd wr \<Longrightarrow> norm_codec rd wr (\<lambda>x. x)"
  by (simp add: codec_def)

lemma codec_TaggedFields: "codec read_TaggedFields write_TaggedFields"
  by (rule codecI)
    (auto simp: read_TaggedFields_def write_TaggedFields_def
      read_items_norm_codec [OF codec_is_norm [OF codec_TaggedField]])

lemmas tagged_roundtrip [simp] = codec_TaggedFields [THEN codec_roundtrip]

text \<open>An array of encoded elements round-trips when its elements do.\<close>

lemma norm_codec_Array:
  assumes "norm_codec rd wr norm"
  shows "norm_codec (read_Array rd) (write_Array wr) (map_option (map norm))"
  by (rule norm_codecI)
    (auto simp: read_Array_def write_Array_def write_ArrayRef_def
      read_items_norm_codec [OF assms] split: option.splits dest: i32_length_nonneg)

lemma norm_codec_CompactArray:
  assumes "norm_codec rd wr norm"
  shows "norm_codec (read_CompactArray rd) (write_CompactArray wr) (map_option (map norm))"
  by (rule norm_codecI)
    (auto simp: read_CompactArray_def write_CompactArray_def write_CompactArrayRef_def
      read_items_norm_codec [OF assms] split: option.splits)

section \<open>The contracts, interpreted\<close>

interpretation uvarint: codec read_UnsignedVarint write_UnsignedVarint
  by (rule codec_UnsignedVarint)

interpretation uvarint_in: safe_reader read_UnsignedVarint
  by (rule safe_read_UnsignedVarint)

interpretation nullable_string: codec read_NullableString write_NullableString
  by (rule codec_NullableString)

interpretation compact_string: codec read_CompactString write_CompactString
  by (rule codec_CompactString)

interpretation compact_string_in: safe_reader read_CompactString
  by (intro reader_intros)

interpretation tagged: codec read_TaggedFields write_TaggedFields
  by (rule codec_TaggedFields)

interpretation tagged_in: safe_reader read_TaggedFields
  by (intro reader_intros)

interpretation compact_bytes: codec read_CompactBytes write_CompactBytes
  by (rule codec_CompactBytes)

interpretation compact_bytes_in: stream_reader read_CompactBytes
  by (intro reader_intros)

interpretation string_array: norm_codec "read_Array read_String" "write_Array write_String"
    "map_option (map (\<lambda>s. s))"
  by (rule norm_codec_Array [OF codec_is_norm [OF codec_String]])

end
