(* ===== verification/Frame.thy ===== *)
theory Frame
  imports Primitives
begin

text \<open>
  \<open>src/src/protocol/frame.rs\<close>: messages on the transport, each preceded by its length as an
  \<open>Int32\<close>.  Reading returns the message or the error together with the stream that is left,
  since the caller goes on reading after some errors.  The loop that skips a message that is
  too large need not end, so \<open>read_message\<close> is an option: \<open>None\<close> is not returning.

  A \<open>sink\<close> is the writing side of the transport: the bytes that have gone out and, when it is
  going to fail, how many more it takes before it does.
\<close>

section \<open>Reading\<close>

datatype frame_read_error =
    FrameIO io_error
  | NegativeMessageSize int
  | MessageTooLarge usize usize

type_synonym frame_result = "(frame_read_error, u8 list) outcome \<times> stream"

text \<open>Reading past the end of the transport has taken all that was left.\<close>

definition exhausted :: "stream \<Rightarrow> stream" where
  "exhausted s = ([], snd s)"

text \<open>\<^verbatim>\<open>while to_read > 0\<close>, for a message beyond the limit.\<close>

partial_function (option) skip_loop :: "usize \<Rightarrow> usize \<Rightarrow> stream \<Rightarrow>
    ((frame_read_error, unit) outcome \<times> stream) option" where
  "skip_loop max_message_size to_read s =
     (if to_read > 0 then
        let step = min max_message_size to_read
        in case io_read_exact step s of
             Ok (buf, s') \<Rightarrow> skip_loop max_message_size (to_read - step) s'
           | Err e \<Rightarrow> Some (Err (FrameIO e), exhausted s)
           | Panic p \<Rightarrow> Some (Panic p, s)
      else Some (Ok (), s))"

definition read_message :: "usize \<Rightarrow> stream \<Rightarrow> frame_result option" where
  "read_message max_message_size s =
     (case io_read_exact 4 s of
        Err e \<Rightarrow> Some (Err (FrameIO e), exhausted s)
      | Panic p \<Rightarrow> Some (Panic p, s)
      | Ok (len_buf, s1) \<Rightarrow>
          (case read_Int32 (len_buf, None) of
             Err _ \<Rightarrow> Some (Panic ExpectFailed, s1)
           | Panic p \<Rightarrow> Some (Panic p, s1)
           | Ok (len, _) \<Rightarrow>
               (case usize_try_from_signed len of
                  None \<Rightarrow> Some (Err (NegativeMessageSize (sint len)), s1)
                | Some n \<Rightarrow>
                    if n > max_message_size then
                      (case skip_loop max_message_size n s1 of
                         None \<Rightarrow> None
                       | Some (Ok _, s2) \<Rightarrow> Some (Err (MessageTooLarge max_message_size n), s2)
                       | Some (Err e, s2) \<Rightarrow> Some (Err e, s2)
                       | Some (Panic p, s2) \<Rightarrow> Some (Panic p, s2))
                    else
                      (case io_read_exact n s1 of
                         Ok (buf, s2) \<Rightarrow> Some (Ok buf, s2)
                       | Err e \<Rightarrow> Some (Err (FrameIO e), exhausted s1)
                       | Panic p \<Rightarrow> Some (Panic p, s1)))))"

section \<open>Writing\<close>

datatype frame_write_error = FrameWriteIO io_error | TooLarge usize

record sink =
  written :: "u8 list"
  capacity :: "usize option"

definition write_all :: "u8 list \<Rightarrow> sink \<Rightarrow> (io_error, unit) outcome \<times> sink" where
  "write_all bs w =
     (case capacity w of
        None \<Rightarrow> (Ok (), w\<lparr>written := written w @ bs\<rparr>)
      | Some n \<Rightarrow>
          if length bs \<le> n
          then (Ok (), w\<lparr>written := written w @ bs, capacity := Some (n - length bs)\<rparr>)
          else (Err OtherIo, w\<lparr>written := written w @ take n bs, capacity := Some 0\<rparr>))"

definition write_message :: "u8 list \<Rightarrow> sink \<Rightarrow> (frame_write_error, unit) outcome \<times> sink" where
  "write_message msg w =
     (case i32_try_from_usize (length msg) of
        None \<Rightarrow> (Err (TooLarge (length msg)), w)
      | Some len \<Rightarrow>
          (case write_Int32 len of
             Err _ \<Rightarrow> (Panic ExpectFailed, w)
           | Panic p \<Rightarrow> (Panic p, w)
           | Ok len_buf \<Rightarrow>
               (case write_all len_buf w of
                  (Err e, w1) \<Rightarrow> (Err (FrameWriteIO e), w1)
                | (Panic p, w1) \<Rightarrow> (Panic p, w1)
                | (Ok _, w1) \<Rightarrow>
                    if msg \<noteq> [] then
                      (case write_all msg w1 of
                         (Err e, w2) \<Rightarrow> (Err (FrameWriteIO e), w2)
                       | (Panic p, w2) \<Rightarrow> (Panic p, w2)
                       | (Ok _, w2) \<Rightarrow> (Ok (), w2))
                    else (Ok (), w1))))"

text \<open>The bytes of one frame.\<close>

definition frame_bytes :: "u8 list \<Rightarrow> u8 list" where
  "frame_bytes msg = to_be_bytes 4 (of_nat (length msg) :: i32) @ msg"

section \<open>The skip loop\<close>

lemma skip_loop_0 [simp]: "skip_loop m 0 s = Some (Ok (), s)"
  by (subst skip_loop.simps) simp

text \<open>With a positive limit every round makes progress, and the loop ends.\<close>

lemma skip_loop_progress:
  assumes "0 < m"
  shows "skip_loop m n (bs, e) =
    (if n \<le> length bs then Some (Ok (), (drop n bs, e))
     else Some (Err (FrameIO (eof_kind e)), ([], e)))"
proof (induction n arbitrary: bs rule: less_induct)
  case (less n)
  show ?case
  proof (cases "n = 0")
    case False
    define step where "step = min m n"
    have step: "0 < step" "step \<le> n" using False assms by (simp_all add: step_def)
    show ?thesis
    proof (cases "step \<le> length bs")
      case True
      then have "skip_loop m n (bs, e) = skip_loop m (n - step) (drop step bs, e)"
        using False by (subst skip_loop.simps) (simp add: Let_def step_def)
      with less.IH [of "n - step" "drop step bs"] step True show ?thesis by auto
    next
      case short: False
      then have "skip_loop m n (bs, e) = Some (Err (FrameIO (eof_kind e)), ([], e))"
        using False by (subst skip_loop.simps) (simp add: Let_def step_def exhausted_def)
      with short step show ?thesis by simp
    qed
  qed simp
qed

text \<open>With limit 0 every round reads nothing, and the loop does not end.\<close>

lemma skip_loop_zero_Some:
  assumes "skip_loop m n s = Some r"
  shows "m = 0 \<longrightarrow> n = 0"
proof (rule skip_loop.raw_induct [where P = "\<lambda>m n s r. m = 0 \<longrightarrow> n = 0", OF _ assms])
  fix skip m n s r
  assume IH: "\<And>m n s r. skip m n s = Some r \<Longrightarrow> m = 0 \<longrightarrow> n = 0"
    and body: "(if n > 0 then let step = min m n in case io_read_exact step s of
        Ok (buf, s') \<Rightarrow> skip m (n - step) s'
      | Err e \<Rightarrow> Some (Err (FrameIO e), exhausted s)
      | Panic p \<Rightarrow> Some (Panic p, s) else Some (Ok (), s)) = Some r"
  then show "m = 0 \<longrightarrow> n = 0"
    using IH [of 0 n s r] by (cases s; cases "m = 0") (auto simp: Let_def split: if_splits)
qed

lemma skip_loop_zero: "0 < n \<Longrightarrow> skip_loop 0 n s = None"
  using skip_loop_zero_Some [of 0 n s] by (cases "skip_loop 0 n s") auto

section \<open>Frames\<close>

lemma read_Int32_be [simp]:
  "read_Int32 (to_be_bytes 4 x, None) = Ok (x, ([], None))"
  using fixed_roundtrip(4) [of x "to_be_bytes 4 x" "[]" None] by (simp add: write_Int32_def)

lemma read_message_frame:
  assumes "length body < 2 ^ 31"
  shows "read_message m (frame_bytes body @ rest, e) =
    (if length body \<le> m then Some (Ok body, (rest, e))
     else if m = 0 then None
     else Some (Err (MessageTooLarge m (length body)), (rest, e)))"
proof -
  have "usize_try_from_signed (of_nat (length body) :: i32) = Some (length body)"
    using assms by (simp add: usize_try_from_signed_def sint_of_nat_small)
  then show ?thesis
    by (cases "m = 0")
      (auto simp: read_message_def frame_bytes_def skip_loop_progress skip_loop_zero)
qed

lemma read_message_total:
  assumes "0 < m"
  shows "\<exists>r. read_message m s = Some r \<and> \<not> is_panic (fst r)"
proof (cases s)
  case (Pair bs e)
  show ?thesis
  proof (cases "4 \<le> length bs")
    case True
    obtain len s' where "read_Int32 (take 4 bs, None) = Ok (len, s')"
      using True by (simp add: read_Int32_def)
    with True Pair assms show ?thesis
      by (auto simp: read_message_def skip_loop_progress split: option.splits)
  qed (simp add: Pair read_message_def)
qed

text \<open>What the writer puts on an unlimited sink is the frame.\<close>

lemma write_message_ok:
  assumes "write_message msg w = (Ok (), w')"
  shows "length msg < 2 ^ 31" "written w' = written w @ frame_bytes msg"
  using assms
  by (auto simp: write_message_def write_all_def write_Int32_def frame_bytes_def
      i32_try_from_usize_def split: option.splits if_splits)

lemma write_message_unlimited:
  assumes "length msg < 2 ^ 31" and "capacity w = None"
  shows "write_message msg w = (Ok (), w\<lparr>written := written w @ frame_bytes msg\<rparr>)"
  using assms
  by (simp add: write_message_def write_all_def write_Int32_def frame_bytes_def
      i32_try_from_usize_def)

text \<open>A failed write leaves a proper prefix of the frame behind.\<close>

lemma write_message_failed:
  assumes "write_message msg w = (Err (FrameWriteIO x), w')"
  shows "\<exists>n < length (frame_bytes msg). written w' = written w @ take n (frame_bytes msg)"
proof -
  from assms obtain n where n: "capacity w = Some n" "length msg < 2 ^ 31"
    by (auto simp: write_message_def write_all_def write_Int32_def i32_try_from_usize_def
        split: option.splits if_splits)
  with assms have "n < length (frame_bytes msg)" "written w' = written w @ take n (frame_bytes msg)"
    by (auto simp: write_message_def write_all_def write_Int32_def frame_bytes_def
        i32_try_from_usize_def split: if_splits)
  then show ?thesis by blast
qed

text \<open>A write that is not successful leaves the sink alone, or it uses the sink up.\<close>

lemma write_message_not_ok:
  assumes "write_message msg w = (res, w')" and "res \<noteq> Ok ()"
  shows "w' = w \<or> capacity w' = Some 0 \<and> (\<exists>n. written w' = written w @ take n (frame_bytes msg))"
proof (cases res)
  case (Err e)
  show ?thesis
  proof (cases e)
    case (FrameWriteIO x)
    with assms(1) Err have "capacity w' = Some 0"
      by (auto simp: write_message_def write_all_def write_Int32_def
          split: option.splits if_splits)
    with write_message_failed [of msg w x w'] assms(1) Err FrameWriteIO show ?thesis by auto
  next
    case (TooLarge n)
    with assms(1) Err show ?thesis
      by (auto simp: write_message_def write_all_def write_Int32_def
          split: option.splits if_splits)
  qed
qed (use assms in \<open>auto simp: write_message_def write_all_def write_Int32_def
      split: option.splits if_splits\<close>)

lemma write_message_full:
  assumes "write_message msg w = (res, w')" and "capacity w = Some 0"
  shows "res \<noteq> Ok () \<and> w' = w"
  using assms
  by (auto simp: write_message_def write_all_def write_Int32_def split: option.splits if_splits)

lemma write_message_capacity:
  assumes "write_message msg w = (res, w')" and "capacity w = None"
  shows "capacity w' = None"
  using assms
  by (auto simp: write_message_def write_all_def write_Int32_def split: option.splits if_splits)

section \<open>A channel of messages\<close>

text \<open>
  What the two ends of a transport rely on: what one writes as a frame, the other reads as the
  same message, and the stream is left at the next frame, also when the message is refused
  for its size.
\<close>

locale message_channel =
  fixes recv :: "stream \<Rightarrow> frame_result option"
    and frame :: "u8 list \<Rightarrow> u8 list"
    and fits :: "u8 list \<Rightarrow> bool"
    and sendable :: "u8 list \<Rightarrow> bool"
  assumes recv_fits: "sendable msg \<Longrightarrow> fits msg \<Longrightarrow>
      recv (frame msg @ rest, e) = Some (Ok msg, (rest, e))"
    and recv_refused: "sendable msg \<Longrightarrow> \<not> fits msg \<Longrightarrow>
      \<exists>x. recv (frame msg @ rest, e) = Some (Err x, (rest, e))"
begin

text \<open>The messages that arrive, in order, when the reader takes \<open>n\<close> frames.\<close>

primrec recv_n :: "nat \<Rightarrow> stream \<Rightarrow> u8 list list \<times> stream" where
  "recv_n 0 s = ([], s)"
| "recv_n (Suc n) s =
     (case recv s of
        Some (Ok msg, s') \<Rightarrow> (case recv_n n s' of (msgs, s'') \<Rightarrow> (msg # msgs, s''))
      | Some (_, s') \<Rightarrow> recv_n n s'
      | None \<Rightarrow> ([], s))"

lemma recv_n_frames:
  "\<forall>msg \<in> set msgs. sendable msg \<Longrightarrow>
    recv_n (length msgs) (concat (map frame msgs) @ rest, e) = (filter fits msgs, (rest, e))"
proof (induction msgs)
  case Nil
  then show ?case by simp
next
  case (Cons msg msgs)
  then have IH: "recv_n (length msgs) (concat (map frame msgs) @ rest, e) =
      (filter fits msgs, (rest, e))" by simp
  show ?case
    using recv_fits [of msg "concat (map frame msgs) @ rest" e]
      recv_refused [of msg "concat (map frame msgs) @ rest" e] Cons.prems IH
    by (cases "fits msg") auto
qed

end

definition recv_frame :: "nat \<Rightarrow> stream \<Rightarrow> frame_result option" where
  "recv_frame m = read_message (Suc m)"

interpretation frames: message_channel "recv_frame m" frame_bytes
    "\<lambda>msg. length msg \<le> Suc m" "\<lambda>msg. length msg < 2 ^ 31" for m
  by unfold_locales (simp_all add: recv_frame_def read_message_frame)

end
