(* ===== verification/Api_Keys.thy ===== *)
theory Api_Keys
  imports Primitives
begin

text \<open>
  \<open>src/src/protocol/api_key.rs\<close> and \<open>src/src/protocol/api_version.rs\<close>: the request types
  with their codes on the wire, and API versions with their (signed) order.
\<close>

section \<open>API keys\<close>

datatype (plugins only:) ApiKey =
    Produce
  | Fetch
  | ListOffsets
  | Metadata
  | LeaderAndIsr
  | StopReplica
  | UpdateMetadata
  | ControlledShutdown
  | OffsetCommit
  | OffsetFetch
  | FindCoordinator
  | JoinGroup
  | Heartbeat
  | LeaveGroup
  | SyncGroup
  | DescribeGroups
  | ListGroups
  | SaslHandshake
  | ApiVersions
  | CreateTopics
  | DeleteTopics
  | DeleteRecords
  | InitProducerId
  | OffsetForLeaderEpoch
  | AddPartitionsToTxn
  | AddOffsetsToTxn
  | EndTxn
  | WriteTxnMarkers
  | TxnOffsetCommit
  | DescribeAcls
  | CreateAcls
  | DeleteAcls
  | DescribeConfigs
  | AlterConfigs
  | AlterReplicaLogDirs
  | DescribeLogDirs
  | SaslAuthenticate
  | CreatePartitions
  | CreateDelegationToken
  | RenewDelegationToken
  | ExpireDelegationToken
  | DescribeDelegationToken
  | DeleteGroups
  | ElectLeaders
  | IncrementalAlterConfigs
  | AlterPartitionReassignments
  | ListPartitionReassignments
  | OffsetDelete
  | DescribeClientQuotas
  | AlterClientQuotas
  | DescribeUserScramCredentials
  | AlterUserScramCredentials
  | AlterIsr
  | UpdateFeatures
  | DescribeCluster
  | DescribeProducers
  | DescribeTransactions
  | ListTransactions
  | AllocateProducerIds
  | UnknownKey i16

definition ApiKey_from_Int16 :: "i16 \<Rightarrow> ApiKey" where
  "ApiKey_from_Int16 key = (
     if key = 0 then Produce
     else if key = 1 then Fetch
     else if key = 2 then ListOffsets
     else if key = 3 then Metadata
     else if key = 4 then LeaderAndIsr
     else if key = 5 then StopReplica
     else if key = 6 then UpdateMetadata
     else if key = 7 then ControlledShutdown
     else if key = 8 then OffsetCommit
     else if key = 9 then OffsetFetch
     else if key = 10 then FindCoordinator
     else if key = 11 then JoinGroup
     else if key = 12 then Heartbeat
     else if key = 13 then LeaveGroup
     else if key = 14 then SyncGroup
     else if key = 15 then DescribeGroups
     else if key = 16 then ListGroups
     else if key = 17 then SaslHandshake
     else if key = 18 then ApiVersions
     else if key = 19 then CreateTopics
     else if key = 20 then DeleteTopics
     else if key = 21 then DeleteRecords
     else if key = 22 then InitProducerId
     else if key = 23 then OffsetForLeaderEpoch
     else if key = 24 then AddPartitionsToTxn
     else if key = 25 then AddOffsetsToTxn
     else if key = 26 then EndTxn
     else if key = 27 then WriteTxnMarkers
     else if key = 28 then TxnOffsetCommit
     else if key = 29 then DescribeAcls
     else if key = 30 then CreateAcls
     else if key = 31 then DeleteAcls
     else if key = 32 then DescribeConfigs
     else if key = 33 then AlterConfigs
     else if key = 34 then AlterReplicaLogDirs
     else if key = 35 then DescribeLogDirs
     else if key = 36 then SaslAuthenticate
     else if key = 37 then CreatePartitions
     else if key = 38 then CreateDelegationToken
     else if key = 39 then RenewDelegationToken
     else if key = 40 then ExpireDelegationToken
     else if key = 41 then DescribeDelegationToken
     else if key = 42 then DeleteGroups
     else if key = 43 then ElectLeaders
     else if key = 44 then IncrementalAlterConfigs
     else if key = 45 then AlterPartitionReassignments
     else if key = 46 then ListPartitionReassignments
     else if key = 47 then OffsetDelete
     else if key = 48 then DescribeClientQuotas
     else if key = 49 then AlterClientQuotas
     else if key = 50 then DescribeUserScramCredentials
     else if key = 51 then AlterUserScramCredentials
     else if key = 56 then AlterIsr
     else if key = 57 then UpdateFeatures
     else if key = 60 then DescribeCluster
     else if key = 61 then DescribeProducers
     else if key = 65 then DescribeTransactions
     else if key = 66 then ListTransactions
     else if key = 67 then AllocateProducerIds
     else UnknownKey key)"

primrec Int16_from_ApiKey :: "ApiKey \<Rightarrow> i16" where
  "Int16_from_ApiKey Produce = 0"
| "Int16_from_ApiKey Fetch = 1"
| "Int16_from_ApiKey ListOffsets = 2"
| "Int16_from_ApiKey Metadata = 3"
| "Int16_from_ApiKey LeaderAndIsr = 4"
| "Int16_from_ApiKey StopReplica = 5"
| "Int16_from_ApiKey UpdateMetadata = 6"
| "Int16_from_ApiKey ControlledShutdown = 7"
| "Int16_from_ApiKey OffsetCommit = 8"
| "Int16_from_ApiKey OffsetFetch = 9"
| "Int16_from_ApiKey FindCoordinator = 10"
| "Int16_from_ApiKey JoinGroup = 11"
| "Int16_from_ApiKey Heartbeat = 12"
| "Int16_from_ApiKey LeaveGroup = 13"
| "Int16_from_ApiKey SyncGroup = 14"
| "Int16_from_ApiKey DescribeGroups = 15"
| "Int16_from_ApiKey ListGroups = 16"
| "Int16_from_ApiKey SaslHandshake = 17"
| "Int16_from_ApiKey ApiVersions = 18"
| "Int16_from_ApiKey CreateTopics = 19"
| "Int16_from_ApiKey DeleteTopics = 20"
| "Int16_from_ApiKey DeleteRecords = 21"
| "Int16_from_ApiKey InitProducerId = 22"
| "Int16_from_ApiKey OffsetForLeaderEpoch = 23"
| "Int16_from_ApiKey AddPartitionsToTxn = 24"
| "Int16_from_ApiKey AddOffsetsToTxn = 25"
| "Int16_from_ApiKey EndTxn = 26"
| "Int16_from_ApiKey WriteTxnMarkers = 27"
| "Int16_from_ApiKey TxnOffsetCommit = 28"
| "Int16_from_ApiKey DescribeAcls = 29"
| "Int16_from_ApiKey CreateAcls = 30"
| "Int16_from_ApiKey DeleteAcls = 31"
| "Int16_from_ApiKey DescribeConfigs = 32"
| "Int16_from_ApiKey AlterConfigs = 33"
| "Int16_from_ApiKey AlterReplicaLogDirs = 34"
| "Int16_from_ApiKey DescribeLogDirs = 35"
| "Int16_from_ApiKey SaslAuthenticate = 36"
| "Int16_from_ApiKey CreatePartitions = 37"
| "Int16_from_ApiKey CreateDelegationToken = 38"
| "Int16_from_ApiKey RenewDelegationToken = 39"
| "Int16_from_ApiKey ExpireDelegationToken = 40"
| "Int16_from_ApiKey DescribeDelegationToken = 41"
| "Int16_from_ApiKey DeleteGroups = 42"
| "Int16_from_ApiKey ElectLeaders = 43"
| "Int16_from_ApiKey IncrementalAlterConfigs = 44"
| "Int16_from_ApiKey AlterPartitionReassignments = 45"
| "Int16_from_ApiKey ListPartitionReassignments = 46"
| "Int16_from_ApiKey OffsetDelete = 47"
| "Int16_from_ApiKey DescribeClientQuotas = 48"
| "Int16_from_ApiKey AlterClientQuotas = 49"
| "Int16_from_ApiKey DescribeUserScramCredentials = 50"
| "Int16_from_ApiKey AlterUserScramCredentials = 51"
| "Int16_from_ApiKey AlterIsr = 56"
| "Int16_from_ApiKey UpdateFeatures = 57"
| "Int16_from_ApiKey DescribeCluster = 60"
| "Int16_from_ApiKey DescribeProducers = 61"
| "Int16_from_ApiKey DescribeTransactions = 65"
| "Int16_from_ApiKey ListTransactions = 66"
| "Int16_from_ApiKey AllocateProducerIds = 67"
| "Int16_from_ApiKey (UnknownKey code) = code"

text \<open>
  The code of a key determines the key; a key determines its code, except that
  \<open>Unknown\<close> may carry a code that has a name, and such a key comes back under its name.
\<close>

definition canonical_key :: "ApiKey \<Rightarrow> bool" where
  "canonical_key key =
     (case key of UnknownKey code \<Rightarrow> ApiKey_from_Int16 code = UnknownKey code | _ \<Rightarrow> True)"

lemma code_of_from_code [simp]: "Int16_from_ApiKey (ApiKey_from_Int16 code) = code"
  by (simp add: ApiKey_from_Int16_def)

lemma canonical_from_code: "canonical_key (ApiKey_from_Int16 code)"
  by (simp add: ApiKey_from_Int16_def canonical_key_def)

lemma from_code_of [simp]:
  "canonical_key key \<Longrightarrow> ApiKey_from_Int16 (Int16_from_ApiKey key) = key"
  by (cases key) (simp_all add: ApiKey_from_Int16_def canonical_key_def)

lemma canonical_iff: "canonical_key key \<longleftrightarrow> ApiKey_from_Int16 (Int16_from_ApiKey key) = key"
  by (metis canonical_from_code from_code_of)

section \<open>API versions\<close>

datatype ApiVersion = ApiVersion i16

primrec version_number :: "ApiVersion \<Rightarrow> int" where
  "version_number (ApiVersion w) = sint w"

lemma version_number_inj [simp]: "version_number a = version_number b \<longleftrightarrow> a = b"
  by (cases a; cases b) (auto intro: signed_word_eqI)

text \<open>The derived order of \<open>ApiVersion\<close> is the signed order of its \<open>i16\<close>.\<close>

instantiation ApiVersion :: linorder
begin

definition less_eq_ApiVersion :: "ApiVersion \<Rightarrow> ApiVersion \<Rightarrow> bool" where
  "a \<le> b \<longleftrightarrow> version_number a \<le> version_number b"

definition less_ApiVersion :: "ApiVersion \<Rightarrow> ApiVersion \<Rightarrow> bool" where
  "a < b \<longleftrightarrow> version_number a < version_number b"

instance
  by intro_classes (auto simp: less_eq_ApiVersion_def less_ApiVersion_def)

end

record ApiVersionRange =
  vr_min :: ApiVersion
  vr_max :: ApiVersion

definition ApiVersionRange_new :: "ApiVersion \<Rightarrow> ApiVersion \<Rightarrow> ('e, ApiVersionRange) outcome" where
  "ApiVersionRange_new mn mx =
     bind_o (assert_that (version_number mn \<le> version_number mx)) (\<lambda>_.
     Ok \<lparr>vr_min = mn, vr_max = mx\<rparr>)"

definition in_range :: "ApiVersion \<Rightarrow> ApiVersionRange \<Rightarrow> bool" where
  "in_range v r \<longleftrightarrow> vr_min r \<le> v \<and> v \<le> vr_max r"

text \<open>A range that \<open>new\<close> accepts is not empty.\<close>

lemma range_new_nonempty:
  "ApiVersionRange_new mn mx = (Ok r :: ('e, ApiVersionRange) outcome) \<Longrightarrow>
    in_range mn r \<and> in_range mx r"
  by (auto simp: ApiVersionRange_new_def assert_that_def in_range_def less_eq_ApiVersion_def
      split: if_splits)

end
