(* ===== verification/Api_Errors.thy ===== *)
theory Api_Errors
  imports Kafka_Prelude
begin

text \<open>
  \<open>src/src/protocol/error.rs\<close>: the error codes of the protocol.  Code 0 is the absence of an
  error, so a code is an \<open>Error option\<close>.
\<close>

datatype (plugins only:) Error =
    UnknownServerError
  | OffsetOutOfRange
  | CorruptMessage
  | UnknownTopicOrPartition
  | InvalidFetchSize
  | LeaderNotAvailable
  | NotLeaderOrFollower
  | RequestTimedOut
  | BrokerNotAvailable
  | ReplicaNotAvailable
  | MessageTooLarge
  | StaleControllerEpoch
  | OffsetMetadataTooLarge
  | NetworkException
  | CoordinatorLoadInProgress
  | CoordinatorNotAvailable
  | NotCoordinator
  | InvalidTopicException
  | RecordListTooLarge
  | NotEnoughReplicas
  | NotEnoughReplicasAfterAppend
  | InvalidRequiredAcks
  | IllegalGeneration
  | InconsistentGroupProtocol
  | InvalidGroupId
  | UnknownMemberId
  | InvalidSessionTimeout
  | RebalanceInProgress
  | InvalidCommitOffsetSize
  | TopicAuthorizationFailed
  | GroupAuthorizationFailed
  | ClusterAuthorizationFailed
  | InvalidTimestamp
  | UnsupportedSaslMechanism
  | IllegalSaslState
  | UnsupportedVersion
  | TopicAlreadyExists
  | InvalidPartitions
  | InvalidReplicationFactor
  | InvalidReplicaAssignment
  | InvalidConfig
  | NotController
  | InvalidRequest
  | UnsupportedForMessageFormat
  | PolicyViolation
  | OutOfOrderSequenceNumber
  | DuplicateSequenceNumber
  | InvalidProducerEpoch
  | InvalidTxnState
  | InvalidProducerIdMapping
  | InvalidTransactionTimeout
  | ConcurrentTransactions
  | TransactionCoordinatorFenced
  | TransactionalIdAuthorizationFailed
  | SecurityDisabled
  | OperationNotAttempted
  | KafkaStorageError
  | LogDirNotFound
  | SaslAuthenticationFailed
  | UnknownProducerId
  | ReassignmentInProgress
  | DelegationTokenAuthDisabled
  | DelegationTokenNotFound
  | DelegationTokenOwnerMismatch
  | DelegationTokenRequestNotAllowed
  | DelegationTokenAuthorizationFailed
  | DelegationTokenExpired
  | InvalidPrincipalType
  | NonEmptyGroup
  | GroupIdNotFound
  | FetchSessionIdNotFound
  | InvalidFetchSessionEpoch
  | ListenerNotFound
  | TopicDeletionDisabled
  | FencedLeaderEpoch
  | UnknownLeaderEpoch
  | UnsupportedCompressionType
  | StaleBrokerEpoch
  | OffsetNotAvailable
  | MemberIdRequired
  | PreferredLeaderNotAvailable
  | GroupMaxSizeReached
  | FencedInstanceId
  | EligibleLeadersNotAvailable
  | ElectionNotNeeded
  | NoReassignmentInProgress
  | GroupSubscribedToTopic
  | InvalidRecord
  | UnstableOffsetCommit
  | ThrottlingQuotaExceeded
  | ProducerFenced
  | ResourceNotFound
  | DuplicateResource
  | UnacceptableCredential
  | InconsistentVoterSet
  | InvalidUpdateVersion
  | FeatureUpdateFailed
  | PrincipalDeserializationFailure
  | SnapshotNotFound
  | PositionOutOfRange
  | UnknownTopicId
  | DuplicateBrokerRegistration
  | BrokerIdNotRegistered
  | InconsistentTopicId
  | InconsistentClusterId
  | TransactionalIdNotFound
  | Unknown i16

definition Error_new :: "i16 \<Rightarrow> Error option" where
  "Error_new code = (
     if code = -1 then Some UnknownServerError
     else if code = 0 then None
     else if code = 1 then Some OffsetOutOfRange
     else if code = 2 then Some CorruptMessage
     else if code = 3 then Some UnknownTopicOrPartition
     else if code = 4 then Some InvalidFetchSize
     else if code = 5 then Some LeaderNotAvailable
     else if code = 6 then Some NotLeaderOrFollower
     else if code = 7 then Some RequestTimedOut
     else if code = 8 then Some BrokerNotAvailable
     else if code = 9 then Some ReplicaNotAvailable
     else if code = 10 then Some MessageTooLarge
     else if code = 11 then Some StaleControllerEpoch
     else if code = 12 then Some OffsetMetadataTooLarge
     else if code = 13 then Some NetworkException
     else if code = 14 then Some CoordinatorLoadInProgress
     else if code = 15 then Some CoordinatorNotAvailable
     else if code = 16 then Some NotCoordinator
     else if code = 17 then Some InvalidTopicException
     else if code = 18 then Some RecordListTooLarge
     else if code = 19 then Some NotEnoughReplicas
     else if code = 20 then Some NotEnoughReplicasAfterAppend
     else if code = 21 then Some InvalidRequiredAcks
     else if code = 22 then Some IllegalGeneration
     else if code = 23 then Some InconsistentGroupProtocol
     else if code = 24 then Some InvalidGroupId
     else if code = 25 then Some UnknownMemberId
     else if code = 26 then Some InvalidSessionTimeout
     else if code = 27 then Some RebalanceInProgress
     else if code = 28 then Some InvalidCommitOffsetSize
     else if code = 29 then Some TopicAuthorizationFailed
     else if code = 30 then Some GroupAuthorizationFailed
     else if code = 31 then Some ClusterAuthorizationFailed
     else if code = 32 then Some InvalidTimestamp
     else if code = 33 then Some UnsupportedSaslMechanism
     else if code = 34 then Some IllegalSaslState
     else if code = 35 then Some UnsupportedVersion
     else if code = 36 then Some TopicAlreadyExists
     else if code = 37 then Some InvalidPartitions
     else if code = 38 then Some InvalidReplicationFactor
     else if code = 39 then Some InvalidReplicaAssignment
     else if code = 40 then Some InvalidConfig
     else if code = 41 then Some NotController
     else if code = 42 then Some InvalidRequest
     else if code = 43 then Some UnsupportedForMessageFormat
     else if code = 44 then Some PolicyViolation
     else if code = 45 then Some OutOfOrderSequenceNumber
     else if code = 46 then Some DuplicateSequenceNumber
     else if code = 47 then Some InvalidProducerEpoch
     else if code = 48 then Some InvalidTxnState
     else if code = 49 then Some InvalidProducerIdMapping
     else if code = 50 then Some InvalidTransactionTimeout
     else if code = 51 then Some ConcurrentTransactions
     else if code = 52 then Some TransactionCoordinatorFenced
     else if code = 53 then Some TransactionalIdAuthorizationFailed
     else if code = 54 then Some SecurityDisabled
     else if code = 55 then Some OperationNotAttempted
     else if code = 56 then Some KafkaStorageError
     else if code = 57 then Some LogDirNotFound
     else if code = 58 then Some SaslAuthenticationFailed
     else if code = 59 then Some UnknownProducerId
     else if code = 60 then Some ReassignmentInProgress
     else if code = 61 then Some DelegationTokenAuthDisabled
     else if code = 62 then Some DelegationTokenNotFound
     else if code = 63 then Some DelegationTokenOwnerMismatch
     else if code = 64 then Some DelegationTokenRequestNotAllowed
     else if code = 65 then Some DelegationTokenAuthorizationFailed
     else if code = 66 then Some DelegationTokenExpired
     else if code = 67 then Some InvalidPrincipalType
     else if code = 68 then Some NonEmptyGroup
     else if code = 69 then Some GroupIdNotFound
     else if code = 70 then Some FetchSessionIdNotFound
     else if code = 71 then Some InvalidFetchSessionEpoch
     else if code = 72 then Some ListenerNotFound
     else if code = 73 then Some TopicDeletionDisabled
     else if code = 74 then Some FencedLeaderEpoch
     else if code = 75 then Some UnknownLeaderEpoch
     else if code = 76 then Some UnsupportedCompressionType
     else if code = 77 then Some StaleBrokerEpoch
     else if code = 78 then Some OffsetNotAvailable
     else if code = 79 then Some MemberIdRequired
     else if code = 80 then Some PreferredLeaderNotAvailable
     else if code = 81 then Some GroupMaxSizeReached
     else if code = 82 then Some FencedInstanceId
     else if code = 83 then Some EligibleLeadersNotAvailable
     else if code = 84 then Some ElectionNotNeeded
     else if code = 85 then Some NoReassignmentInProgress
     else if code = 86 then Some GroupSubscribedToTopic
     else if code = 87 then Some InvalidRecord
     else if code = 88 then Some UnstableOffsetCommit
     else if code = 89 then Some ThrottlingQuotaExceeded
     else if code = 90 then Some ProducerFenced
     else if code = 91 then Some ResourceNotFound
     else if code = 92 then Some DuplicateResource
     else if code = 93 then Some UnacceptableCredential
     else if code = 94 then Some InconsistentVoterSet
     else if code = 95 then Some InvalidUpdateVersion
     else if code = 96 then Some FeatureUpdateFailed
     else if code = 97 then Some PrincipalDeserializationFailure
     else if code = 98 then Some SnapshotNotFound
     else if code = 99 then Some PositionOutOfRange
     else if code = 100 then Some UnknownTopicId
     else if code = 101 then Some DuplicateBrokerRegistration
     else if code = 102 then Some BrokerIdNotRegistered
     else if code = 103 then Some InconsistentTopicId
     else if code = 104 then Some InconsistentClusterId
     else if code = 105 then Some TransactionalIdNotFound
     else Some (Unknown code))"

primrec error_code :: "Error \<Rightarrow> i16" where
  "error_code UnknownServerError = -1"
| "error_code OffsetOutOfRange = 1"
| "error_code CorruptMessage = 2"
| "error_code UnknownTopicOrPartition = 3"
| "error_code InvalidFetchSize = 4"
| "error_code LeaderNotAvailable = 5"
| "error_code NotLeaderOrFollower = 6"
| "error_code RequestTimedOut = 7"
| "error_code BrokerNotAvailable = 8"
| "error_code ReplicaNotAvailable = 9"
| "error_code MessageTooLarge = 10"
| "error_code StaleControllerEpoch = 11"
| "error_code OffsetMetadataTooLarge = 12"
| "error_code NetworkException = 13"
| "error_code CoordinatorLoadInProgress = 14"
| "error_code CoordinatorNotAvailable = 15"
| "error_code NotCoordinator = 16"
| "error_code InvalidTopicException = 17"
| "error_code RecordListTooLarge = 18"
| "error_code NotEnoughReplicas = 19"
| "error_code NotEnoughReplicasAfterAppend = 20"
| "error_code InvalidRequiredAcks = 21"
| "error_code IllegalGeneration = 22"
| "error_code InconsistentGroupProtocol = 23"
| "error_code InvalidGroupId = 24"
| "error_code UnknownMemberId = 25"
| "error_code InvalidSessionTimeout = 26"
| "error_code RebalanceInProgress = 27"
| "error_code InvalidCommitOffsetSize = 28"
| "error_code TopicAuthorizationFailed = 29"
| "error_code GroupAuthorizationFailed = 30"
| "error_code ClusterAuthorizationFailed = 31"
| "error_code InvalidTimestamp = 32"
| "error_code UnsupportedSaslMechanism = 33"
| "error_code IllegalSaslState = 34"
| "error_code UnsupportedVersion = 35"
| "error_code TopicAlreadyExists = 36"
| "error_code InvalidPartitions = 37"
| "error_code InvalidReplicationFactor = 38"
| "error_code InvalidReplicaAssignment = 39"
| "error_code InvalidConfig = 40"
| "error_code NotController = 41"
| "error_code InvalidRequest = 42"
| "error_code UnsupportedForMessageFormat = 43"
| "error_code PolicyViolation = 44"
| "error_code OutOfOrderSequenceNumber = 45"
| "error_code DuplicateSequenceNumber = 46"
| "error_code InvalidProducerEpoch = 47"
| "error_code InvalidTxnState = 48"
| "error_code InvalidProducerIdMapping = 49"
| "error_code InvalidTransactionTimeout = 50"
| "error_code ConcurrentTransactions = 51"
| "error_code TransactionCoordinatorFenced = 52"
| "error_code TransactionalIdAuthorizationFailed = 53"
| "error_code SecurityDisabled = 54"
| "error_code OperationNotAttempted = 55"
| "error_code KafkaStorageError = 56"
| "error_code LogDirNotFound = 57"
| "error_code SaslAuthenticationFailed = 58"
| "error_code UnknownProducerId = 59"
| "error_code ReassignmentInProgress = 60"
| "error_code DelegationTokenAuthDisabled = 61"
| "error_code DelegationTokenNotFound = 62"
| "error_code DelegationTokenOwnerMismatch = 63"
| "error_code DelegationTokenRequestNotAllowed = 64"
| "error_code DelegationTokenAuthorizationFailed = 65"
| "error_code DelegationTokenExpired = 66"
| "error_code InvalidPrincipalType = 67"
| "error_code NonEmptyGroup = 68"
| "error_code GroupIdNotFound = 69"
| "error_code FetchSessionIdNotFound = 70"
| "error_code InvalidFetchSessionEpoch = 71"
| "error_code ListenerNotFound = 72"
| "error_code TopicDeletionDisabled = 73"
| "error_code FencedLeaderEpoch = 74"
| "error_code UnknownLeaderEpoch = 75"
| "error_code UnsupportedCompressionType = 76"
| "error_code StaleBrokerEpoch = 77"
| "error_code OffsetNotAvailable = 78"
| "error_code MemberIdRequired = 79"
| "error_code PreferredLeaderNotAvailable = 80"
| "error_code GroupMaxSizeReached = 81"
| "error_code FencedInstanceId = 82"
| "error_code EligibleLeadersNotAvailable = 83"
| "error_code ElectionNotNeeded = 84"
| "error_code NoReassignmentInProgress = 85"
| "error_code GroupSubscribedToTopic = 86"
| "error_code InvalidRecord = 87"
| "error_code UnstableOffsetCommit = 88"
| "error_code ThrottlingQuotaExceeded = 89"
| "error_code ProducerFenced = 90"
| "error_code ResourceNotFound = 91"
| "error_code DuplicateResource = 92"
| "error_code UnacceptableCredential = 93"
| "error_code InconsistentVoterSet = 94"
| "error_code InvalidUpdateVersion = 95"
| "error_code FeatureUpdateFailed = 96"
| "error_code PrincipalDeserializationFailure = 97"
| "error_code SnapshotNotFound = 98"
| "error_code PositionOutOfRange = 99"
| "error_code UnknownTopicId = 100"
| "error_code DuplicateBrokerRegistration = 101"
| "error_code BrokerIdNotRegistered = 102"
| "error_code InconsistentTopicId = 103"
| "error_code InconsistentClusterId = 104"
| "error_code TransactionalIdNotFound = 105"
| "error_code (Unknown code) = code"

definition Int16_from_Error :: "Error option \<Rightarrow> i16" where
  "Int16_from_Error error = (case error of None \<Rightarrow> 0 | Some error \<Rightarrow> error_code error)"

text \<open>An \<open>Unknown\<close> that carries the code of a named error, or 0, is not what reading its code
  gives.\<close>

definition canonical_error :: "Error option \<Rightarrow> bool" where
  "canonical_error error =
     (case error of Some (Unknown code) \<Rightarrow> Error_new code = Some (Unknown code) | _ \<Rightarrow> True)"

lemma code_of_Error_new [simp]: "Int16_from_Error (Error_new code) = code"
  by (simp add: Error_new_def Int16_from_Error_def)

lemma canonical_Error_new: "canonical_error (Error_new code)"
  by (simp add: Error_new_def canonical_error_def)

lemma Error_new_error_code:
  "(\<And>code. error \<noteq> Unknown code) \<Longrightarrow> Error_new (error_code error) = Some error"
  by (cases error) (simp_all add: Error_new_def)

lemma Error_new_code_of [simp]:
  "canonical_error error \<Longrightarrow> Error_new (Int16_from_Error error) = error"
proof (cases error)
  case None
  then show ?thesis by (simp add: Int16_from_Error_def Error_new_def)
next
  case (Some e)
  assume canonical: "canonical_error error"
  show ?thesis
  proof (cases "\<exists>code. e = Unknown code")
    case True
    with Some canonical show ?thesis by (auto simp: Int16_from_Error_def canonical_error_def)
  next
    case False
    with Some Error_new_error_code [of e] show ?thesis by (simp add: Int16_from_Error_def)
  qed
qed

lemma canonical_error_iff:
  "canonical_error error \<longleftrightarrow> Error_new (Int16_from_Error error) = error"
  by (metis canonical_Error_new Error_new_code_of)

text \<open>Only code 0 means success.\<close>

lemma Error_new_None_iff: "Error_new code = None \<longleftrightarrow> code = 0"
  by (simp add: Error_new_def)

end
