(* ===== verification/Messages_Common.thy ===== *)
theory Messages_Common
  imports Primitives Api_Keys Api_Errors
begin

text \<open>
  \<open>src/src/protocol/messages/mod.rs\<close>, \<open>constants.rs\<close> and \<open>header.rs\<close>: what the messages of
  the protocol share.  A versioned reader or writer takes the API version as its first
  argument.  \<open>ReadVersionedError\<close> has the single variant \<open>ReadError\<close> and is identified with
  it.

  The reader of a message returns its fields as a record; a field that the version does not
  have is \<open>None\<close>.  Since writers put a default value for a field that the version has and the
  message lacks, a message that was written is read back in the form \<open>norm_...\<close> gives.
\<close>

section \<open>Versioned writers and arrays\<close>

datatype write_versioned_error = WriteError write_error | FieldNotAvailable string ApiVersion

type_synonym vwres = "(write_versioned_error, u8 list) outcome"

text \<open>\<open>?\<close> on an unversioned write.\<close>

definition vw :: "wres \<Rightarrow> vwres" where
  "vw m = map_err WriteError m"

text \<open>\<open>match x { Some(x) => x.write(writer)?, None => T::default().write(writer)? }\<close>.\<close>

definition write_or_default :: "('a \<Rightarrow> wres) \<Rightarrow> 'a \<Rightarrow> 'a option \<Rightarrow> vwres" where
  "write_or_default wr d x = vw (case x of Some y \<Rightarrow> wr y | None \<Rightarrow> wr d)"

text \<open>\<open>if c { ... }\<close> around a write.\<close>

definition wwhen :: "bool \<Rightarrow> ('e, u8 list) outcome \<Rightarrow> ('e, u8 list) outcome" where
  "wwhen c m = (if c then m else Ok [])"

definition read_versioned_array :: "'a reader \<Rightarrow> 'a list option reader" where
  "read_versioned_array rd =
     rbind read_Int32 (\<lambda>len.
       if len = -1 then rret None
       else if sint len < -1 then rlift (Err (Malformed (NegativeLength (sint len))))
       else
         rbind (rlift (ok_or Overflow (usize_try_from_signed len))) (\<lambda>len.
         rbind (read_items len rd) (\<lambda>res.
         rret (Some res))))"

definition write_versioned_array :: "('a \<Rightarrow> vwres) \<Rightarrow> 'a list option \<Rightarrow> vwres" where
  "write_versioned_array wr data =
     (case data of
        None \<Rightarrow> vw (write_Int32 (-1))
      | Some inner \<Rightarrow>
          bind_o (ok_or (WriteError WriteOverflow) (i32_try_from_usize (length inner))) (\<lambda>len.
          wseq (vw (write_Int32 len)) (wconcat wr inner)))"

definition read_compact_versioned_array :: "'a reader \<Rightarrow> 'a list option reader" where
  "read_compact_versioned_array rd =
     rbind read_UnsignedVarint (\<lambda>len.
       if len = 0 then rret None
       else
         rbind (rlift (ok_or Overflow (usize_try_from_u64 (len - 1)))) (\<lambda>len.
         rbind (read_items len rd) (\<lambda>res.
         rret (Some res))))"

definition write_compact_versioned_array :: "('a \<Rightarrow> vwres) \<Rightarrow> 'a list option \<Rightarrow> vwres" where
  "write_compact_versioned_array wr data =
     (case data of
        None \<Rightarrow> vw (write_UnsignedVarint 0)
      | Some inner \<Rightarrow>
          bind_o (ok_or (WriteError WriteOverflow) (u64_try_from_usize (length inner + 1))) (\<lambda>len.
          wseq (vw (write_UnsignedVarint len)) (wconcat wr inner)))"

text \<open>\<open>unwrap_or_default\<close> on an optional vector.\<close>

definition or_empty :: "'a list option \<Rightarrow> 'a list" where
  "or_empty x = (case x of Some xs \<Rightarrow> xs | None \<Rightarrow> [])"

text \<open>\<open>ApiError::new(Int16::read(reader)?.0)\<close>.\<close>

definition read_error_code :: "Error option reader" where
  "read_error_code = rbind read_Int16 (\<lambda>code. rret (Error_new code))"

definition write_error_code :: "Error option \<Rightarrow> vwres" where
  "write_error_code e = vw (write_Int16 (Int16_from_Error e))"

section \<open>Request types\<close>

text \<open>The associated constants of \<open>RequestBody\<close>.\<close>

record request_type =
  API_KEY :: ApiKey
  API_VERSION_RANGE :: ApiVersionRange
  FIRST_TAGGED_FIELD_IN_REQUEST_VERSION :: ApiVersion
  FIRST_TAGGED_FIELD_IN_RESPONSE_VERSION :: ApiVersion

definition version_range :: "i16 \<Rightarrow> i16 \<Rightarrow> ApiVersionRange" where
  "version_range mn mx = \<lparr>vr_min = ApiVersion mn, vr_max = ApiVersion mx\<rparr>"

definition NORMAL_CONSUMER :: Int32 where
  "NORMAL_CONSUMER = -1"

datatype IsolationLevel = ReadCommitted | ReadUncommitted

fun Int8_from_IsolationLevel :: "IsolationLevel \<Rightarrow> Int8" where
  "Int8_from_IsolationLevel ReadCommitted = 1"
| "Int8_from_IsolationLevel ReadUncommitted = 0"

section \<open>Headers\<close>

record RequestHeader =
  request_api_key :: ApiKey
  request_api_version :: ApiVersion
  rqh_correlation_id :: Int32
  client_id :: "rstring option option"
  rqh_tagged_fields :: "TaggedFields option"

definition read_RequestHeader :: "ApiVersion \<Rightarrow> RequestHeader reader" where
  "read_RequestHeader version =
     (let v = version_number version in
     rbind (rlift (assert_that (v \<le> 2))) (\<lambda>_.
     rbind read_Int16 (\<lambda>key.
     rbind read_Int16 (\<lambda>api_version.
     rbind read_Int32 (\<lambda>correlation_id.
     rbind (rwhen (v \<ge> 1) read_NullableString) (\<lambda>client_id.
     rbind (rwhen (v \<ge> 2) read_TaggedFields) (\<lambda>tagged_fields.
     rret \<lparr>request_api_key = ApiKey_from_Int16 key, request_api_version = ApiVersion api_version,
           rqh_correlation_id = correlation_id, client_id = client_id,
           rqh_tagged_fields = tagged_fields\<rparr>)))))))"

primrec version_int :: "ApiVersion \<Rightarrow> i16" where
  "version_int (ApiVersion w) = w"

definition write_RequestHeader :: "ApiVersion \<Rightarrow> RequestHeader \<Rightarrow> vwres" where
  "write_RequestHeader version h =
     (let v = version_number version in
     bind_o (assert_that (v \<le> 2)) (\<lambda>_.
     wseq (vw (write_Int16 (Int16_from_ApiKey (request_api_key h))))
     (wseq (vw (write_Int16 (version_int (request_api_version h))))
     (wseq (vw (write_Int32 (rqh_correlation_id h)))
     (wseq (wwhen (v \<ge> 1) (write_or_default write_NullableString None (client_id h)))
     (wwhen (v \<ge> 2) (write_or_default write_TaggedFields [] (rqh_tagged_fields h))))))))"

record ResponseHeader =
  rsh_correlation_id :: Int32
  rsh_tagged_fields :: "TaggedFields option"

definition read_ResponseHeader :: "ApiVersion \<Rightarrow> ResponseHeader reader" where
  "read_ResponseHeader version =
     (let v = version_number version in
     rbind (rlift (assert_that (v \<le> 1))) (\<lambda>_.
     rbind read_Int32 (\<lambda>correlation_id.
     rbind (rwhen (v \<ge> 1) read_TaggedFields) (\<lambda>tagged_fields.
     rret \<lparr>rsh_correlation_id = correlation_id, rsh_tagged_fields = tagged_fields\<rparr>))))"

definition write_ResponseHeader :: "ApiVersion \<Rightarrow> ResponseHeader \<Rightarrow> vwres" where
  "write_ResponseHeader version h =
     (let v = version_number version in
     bind_o (assert_that (v \<le> 1)) (\<lambda>_.
     wseq (vw (write_Int32 (rsh_correlation_id h)))
     (wwhen (v \<ge> 1) (write_or_default write_TaggedFields [] (rsh_tagged_fields h)))))"

section \<open>Contracts of the shared readers and writers\<close>

lemma vw_Ok_iff [simp]: "vw m = Ok bs \<longleftrightarrow> m = Ok bs"
  by (simp add: vw_def)

lemma vw_Panic_iff [simp]: "is_panic (vw m) = is_panic m"
  by (simp add: vw_def)

lemma wwhen_simps [simp]: "wwhen True m = m" "wwhen False m = Ok []"
  by (simp_all add: wwhen_def)

lemma assert_that_Ok_iff [simp]: "assert_that c = Ok u \<longleftrightarrow> c"
  by (simp add: assert_that_def)

text \<open>The value a field with a default is read back as.\<close>

definition with_default :: "bool \<Rightarrow> 'a \<Rightarrow> 'a option \<Rightarrow> 'a option" where
  "with_default c d x = (if c then Some (case x of Some y \<Rightarrow> y | None \<Rightarrow> d) else None)"

lemma rwhen_default:
  assumes "codec rd wr" and "wwhen c (write_or_default wr d x) = Ok bs"
  shows "rwhen c rd (bs @ rest, e) = Ok (with_default c d x, (rest, e))"
  using assms(2) codec_roundtrip [OF assms(1), of _ bs rest e]
  by (cases c) (auto simp: write_or_default_def with_default_def split: option.splits)

lemmas rwhen_defaults [simp] =
  rwhen_default [OF codec_NullableString] rwhen_default [OF codec_TaggedFields]
  rwhen_default [OF codec_CompactString] rwhen_default [OF codec_CompactNullableString]
  rwhen_default [OF fixed_codecs(1)] rwhen_default [OF fixed_codecs(2)]
  rwhen_default [OF fixed_codecs(3)] rwhen_default [OF fixed_codecs(4)]
  rwhen_default [OF fixed_codecs(5)]

lemma with_default_simps [simp]:
  "with_default False d x = None"
  "with_default True d x = Some (case x of Some y \<Rightarrow> y | None \<Rightarrow> d)"
  by (simp_all add: with_default_def)

lemma read_default:
  assumes "codec rd wr" and "write_or_default wr d x = Ok bs"
  shows "rd (bs @ rest, e) = Ok (case x of Some y \<Rightarrow> y | None \<Rightarrow> d, (rest, e))"
  using rwhen_default [of rd wr True d x bs rest e] assms
  by (auto simp: rbind_Ok_iff)

lemmas read_defaults [simp] =
  read_default [OF codec_NullableString] read_default [OF codec_TaggedFields]
  read_default [OF codec_CompactString] read_default [OF fixed_codecs(1)]
  read_default [OF fixed_codecs(4)]

lemma safe_read_versioned_array [reader_intros]:
  "safe_reader rd \<Longrightarrow> safe_reader (read_versioned_array rd)"
  unfolding read_versioned_array_def by (auto intro!: reader_intros)

lemma safe_read_compact_versioned_array [reader_intros]:
  "safe_reader rd \<Longrightarrow> safe_reader (read_compact_versioned_array rd)"
  unfolding read_compact_versioned_array_def by (auto intro!: reader_intros)

lemma safe_read_error_code [reader_intros]: "safe_reader read_error_code"
  unfolding read_error_code_def by (auto intro!: reader_intros)

lemma norm_codec_versioned_array:
  assumes "norm_codec rd wr norm"
  shows "norm_codec (read_versioned_array rd) (write_versioned_array wr) (map_option (map norm))"
  by (rule norm_codecI)
    (auto simp: read_versioned_array_def write_versioned_array_def
      read_items_norm_codec [OF assms] split: option.splits dest: i32_length_nonneg)

lemma norm_codec_compact_versioned_array:
  assumes "norm_codec rd wr norm"
  shows "norm_codec (read_compact_versioned_array rd) (write_compact_versioned_array wr)
    (map_option (map norm))"
  by (rule norm_codecI)
    (auto simp: read_compact_versioned_array_def write_compact_versioned_array_def
      read_items_norm_codec [OF assms] split: option.splits)

definition norm_error :: "Error option \<Rightarrow> Error option" where
  "norm_error e = Error_new (Int16_from_Error e)"

lemma norm_error_canonical [simp]: "canonical_error e \<Longrightarrow> norm_error e = e"
  by (simp add: norm_error_def)

lemma norm_codec_error_code: "norm_codec read_error_code write_error_code norm_error"
  by (rule norm_codecI) (simp add: read_error_code_def write_error_code_def norm_error_def)

lemmas error_code_roundtrip [simp] = norm_codec.roundtrip [OF norm_codec_error_code]

section \<open>Contracts of the headers\<close>

definition norm_RequestHeader :: "ApiVersion \<Rightarrow> RequestHeader \<Rightarrow> RequestHeader" where
  "norm_RequestHeader version h =
     h\<lparr>request_api_key := ApiKey_from_Int16 (Int16_from_ApiKey (request_api_key h)),
       client_id := with_default (version_number version \<ge> 1) None (client_id h),
       rqh_tagged_fields := with_default (version_number version \<ge> 2) [] (rqh_tagged_fields h)\<rparr>"

definition norm_ResponseHeader :: "ApiVersion \<Rightarrow> ResponseHeader \<Rightarrow> ResponseHeader" where
  "norm_ResponseHeader version h =
     h\<lparr>rsh_tagged_fields := with_default (version_number version \<ge> 1) [] (rsh_tagged_fields h)\<rparr>"

lemma ApiVersion_version_int [simp]: "ApiVersion (version_int v) = v"
  by (cases v) simp

lemma norm_codec_RequestHeader:
  "norm_codec (read_RequestHeader v) (write_RequestHeader v) (norm_RequestHeader v)"
  by (rule norm_codecI)
    (auto simp: read_RequestHeader_def write_RequestHeader_def norm_RequestHeader_def Let_def)

lemma norm_codec_ResponseHeader:
  "norm_codec (read_ResponseHeader v) (write_ResponseHeader v) (norm_ResponseHeader v)"
  by (rule norm_codecI)
    (auto simp: read_ResponseHeader_def write_ResponseHeader_def norm_ResponseHeader_def Let_def)

lemma safe_read_RequestHeader:
  "version_number v \<le> 2 \<Longrightarrow> safe_reader (read_RequestHeader v)"
  unfolding read_RequestHeader_def Let_def by (auto intro!: reader_intros)

lemma safe_read_ResponseHeader:
  "version_number v \<le> 1 \<Longrightarrow> safe_reader (read_ResponseHeader v)"
  unfolding read_ResponseHeader_def Let_def by (auto intro!: reader_intros)

interpretation request_header: norm_codec "read_RequestHeader v" "write_RequestHeader v"
    "norm_RequestHeader v" for v
  by (rule norm_codec_RequestHeader)

interpretation response_header: norm_codec "read_ResponseHeader v" "write_ResponseHeader v"
    "norm_ResponseHeader v" for v
  by (rule norm_codec_ResponseHeader)

section \<open>Contracts of requests and responses\<close>

lemma in_version_range [simp]:
  "in_range v (version_range a b) \<longleftrightarrow> sint a \<le> version_number v \<and> version_number v \<le> sint b"
  by (simp add: in_range_def version_range_def less_eq_ApiVersion_def)

lemma beyond_range [simp]:
  "vr_max (version_range a b) < v \<longleftrightarrow> sint b < version_number v"
  by (simp add: version_range_def less_ApiVersion_def)

text \<open>
  A response in a version that the client supports is read from the front of the stream; a
  version that it does not support trips an assertion.
\<close>

locale response_stream =
  fixes rd :: "ApiVersion \<Rightarrow> 'a reader" and rt :: request_type
  assumes streams: "in_range v (API_VERSION_RANGE rt) \<Longrightarrow> stream_reader (rd v)"
    and rejects: "vr_max (API_VERSION_RANGE rt) < v \<Longrightarrow> rd v s = Panic AssertFailed"
begin

lemma cut_off:
  assumes "in_range v (API_VERSION_RANGE rt)"
    and "rd v (p @ rest, e) = Ok (x, (rest, e))" and "k < length p"
  shows "rd v (take k p, None) = Err (IO UnexpectedEof)"
  using stream_reader.truncated [OF streams [OF assms(1)] assms(2,3), of None] by simp

end

text \<open>For most responses, no bytes in a supported version make the reader panic.\<close>

locale response_reader = response_stream rd rt
  for rd :: "ApiVersion \<Rightarrow> 'a reader" and rt :: request_type +
  assumes no_panic: "in_range v (API_VERSION_RANGE rt) \<Longrightarrow> \<not> is_panic (rd v s)"
begin

lemma answers:
  assumes "in_range v (API_VERSION_RANGE rt)"
  shows "(\<exists>x s'. rd v s = Ok (x, s')) \<or> (\<exists>e. rd v s = Err e)"
  using no_panic [OF assms, of s] by (cases "rd v s") auto

end

lemma response_readerI:
  assumes "\<And>v. in_range v (API_VERSION_RANGE rt) \<Longrightarrow> safe_reader (rd v)"
    and "\<And>v s. vr_max (API_VERSION_RANGE rt) < v \<Longrightarrow> rd v s = Panic AssertFailed"
  shows "response_reader rd rt"
  using assms
  by (simp add: response_reader_def response_reader_axioms_def response_stream_def
      stream_reader_of_safe safe_reader.no_panic)

text \<open>A request in a supported version is written without panic: the bytes, or an error.\<close>

locale request_writer =
  fixes wr :: "ApiVersion \<Rightarrow> 'a \<Rightarrow> vwres" and rt :: request_type
  assumes write_no_panic: "in_range v (API_VERSION_RANGE rt) \<Longrightarrow> \<not> is_panic (wr v r)"
    and write_rejects: "vr_max (API_VERSION_RANGE rt) < v \<Longrightarrow> wr v r = Panic AssertFailed"
begin

lemma written_in_range: "wr v r = Ok bs \<Longrightarrow> \<not> vr_max (API_VERSION_RANGE rt) < v"
  using write_rejects [of v r] by auto

end

text \<open>The primitive writers do not panic.\<close>

named_theorems no_panic_intros "writers that do not panic"

lemma no_panic_wseq [no_panic_intros]: "\<not> is_panic a \<Longrightarrow> \<not> is_panic b \<Longrightarrow> \<not> is_panic (wseq a b)"
  by (auto dest: wseq_is_panicD)

lemma no_panic_wconcat [no_panic_intros]: "(\<And>x. \<not> is_panic (wr x)) \<Longrightarrow> \<not> is_panic (wconcat wr xs)"
  by (rule wconcat_is_panic)

lemma no_panic_bind_o [no_panic_intros]:
  "\<not> is_panic m \<Longrightarrow> (\<And>x. \<not> is_panic (f x)) \<Longrightarrow> \<not> is_panic (bind_o m f)"
  by (cases m) auto

lemma no_panic_vw [no_panic_intros]: "\<not> is_panic m \<Longrightarrow> \<not> is_panic (vw m)"
  by simp

lemma no_panic_wwhen [no_panic_intros]: "\<not> is_panic m \<Longrightarrow> \<not> is_panic (wwhen c m)"
  by (cases c) auto

lemma no_panic_assert [no_panic_intros]: "c \<Longrightarrow> \<not> is_panic (assert_that c)"
  by simp

lemma no_panic_if [no_panic_intros]:
  "\<not> is_panic a \<Longrightarrow> \<not> is_panic b \<Longrightarrow> \<not> is_panic (if c then a else b)"
  by simp

lemma no_panic_ok_or [no_panic_intros]: "\<not> is_panic (ok_or e m)" "\<not> is_panic (Ok x)" "\<not> is_panic (Err e)"
  by simp_all

lemma no_panic_cases [no_panic_intros]:
  "\<not> is_panic a \<Longrightarrow> (\<And>y. \<not> is_panic (f y)) \<Longrightarrow>
    \<not> is_panic (case x of None \<Rightarrow> a | Some y \<Rightarrow> f y)"
  "(\<And>a b. \<not> is_panic (g a b)) \<Longrightarrow> \<not> is_panic (case p of (a, b) \<Rightarrow> g a b)"
  by (simp_all split: option.splits prod.splits)

lemma no_panic_fixed [no_panic_intros]:
  "\<not> is_panic (write_Boolean b)" "\<not> is_panic (write_Int8 i8)" "\<not> is_panic (write_Int16 i16)"
  "\<not> is_panic (write_Int32 i32)" "\<not> is_panic (write_Int64 i64)"
  by (simp_all add: write_Boolean_def write_Int8_def write_Int16_def write_Int32_def write_Int64_def)

lemma no_panic_uvarint [no_panic_intros]: "\<not> is_panic (write_UnsignedVarint n)"
  using write_UnsignedVarint_total [of n] by auto

lemma no_panic_strings [no_panic_intros]:
  "\<not> is_panic (write_NullableString x)" "\<not> is_panic (write_String s)"
  "\<not> is_panic (write_CompactStringRef s)" "\<not> is_panic (write_CompactString s)"
  "\<not> is_panic (write_CompactNullableStringRef x)" "\<not> is_panic (write_CompactNullableString x)"
  "\<not> is_panic (write_Bytes b)" "\<not> is_panic (write_CompactBytesRef b)"
  "\<not> is_panic (write_NullableBytes nb)"
  unfolding write_NullableString_def write_String_def write_CompactStringRef_def
    write_CompactString_def write_CompactNullableStringRef_def write_CompactNullableString_def
    write_Bytes_def write_CompactBytesRef_def write_NullableBytes_def
  by (intro no_panic_intros; assumption?)+

lemma no_panic_tagged [no_panic_intros]: "\<not> is_panic (write_TaggedFields fs)"
  unfolding write_TaggedFields_def write_TaggedField_def
  by (intro no_panic_intros)

lemma no_panic_default [no_panic_intros]:
  "(\<And>x. \<not> is_panic (wr x)) \<Longrightarrow> \<not> is_panic (write_or_default wr d x)"
  by (auto simp: write_or_default_def split: option.splits)

lemma no_panic_arrays [no_panic_intros]:
  "(\<And>x. \<not> is_panic (wr x)) \<Longrightarrow> \<not> is_panic (write_ArrayRef wr xs)"
  "(\<And>x. \<not> is_panic (wr x)) \<Longrightarrow> \<not> is_panic (write_Array wr xs)"
  "(\<And>x. \<not> is_panic (wr x)) \<Longrightarrow> \<not> is_panic (write_CompactArrayRef wr xs)"
  unfolding write_Array_def write_ArrayRef_def write_CompactArrayRef_def
  by (intro no_panic_intros; assumption?)+

lemma no_panic_versioned_arrays [no_panic_intros]:
  "(\<And>x. \<not> is_panic (vwr x)) \<Longrightarrow> \<not> is_panic (write_versioned_array vwr xs)"
  "(\<And>x. \<not> is_panic (vwr x)) \<Longrightarrow> \<not> is_panic (write_compact_versioned_array vwr xs)"
  unfolding write_versioned_array_def write_compact_versioned_array_def
  by (intro no_panic_intros; assumption?)+

lemma no_panic_error_code [no_panic_intros]: "\<not> is_panic (write_error_code e)"
  unfolding write_error_code_def by (intro no_panic_intros)

end
