(* ===== verification/Messages_Admin.thy ===== *)
theory Messages_Admin
  imports Messages_Common
begin

text \<open>
  The messages of \<open>src/src/protocol/messages/\<close> for the connection set-up and for
  administration: \<open>api_versions.rs\<close>, \<open>sasl_msg.rs\<close>, \<open>create_topics.rs\<close>, \<open>delete_topics.rs\<close>
  and \<open>delete_records.rs\<close>.  The field names carry a prefix per message.
\<close>

section \<open>ApiVersions\<close>

record ApiVersionsRequest =
  avq_client_software_name :: "rstring option"
  avq_client_software_version :: "rstring option"
  avq_tagged_fields :: "TaggedFields option"

definition read_ApiVersionsRequest :: "ApiVersion \<Rightarrow> ApiVersionsRequest reader" where
  "read_ApiVersionsRequest version =
     (let v = version_number version in
     rbind (rlift (assert_that (v \<le> 3))) (\<lambda>_.
     rbind (rwhen (v \<ge> 3) read_CompactString) (\<lambda>client_software_name.
     rbind (rwhen (v \<ge> 3) read_CompactString) (\<lambda>client_software_version.
     rbind (rwhen (v \<ge> 3) read_TaggedFields) (\<lambda>tagged_fields.
     rret \<lparr>avq_client_software_name = client_software_name,
           avq_client_software_version = client_software_version,
           avq_tagged_fields = tagged_fields\<rparr>)))))"

definition write_ApiVersionsRequest :: "ApiVersion \<Rightarrow> ApiVersionsRequest \<Rightarrow> vwres" where
  "write_ApiVersionsRequest version r =
     (let v = version_number version in
     bind_o (assert_that (v \<le> 3)) (\<lambda>_.
     wseq (wwhen (v \<ge> 3) (write_or_default write_CompactString rstring_empty
             (avq_client_software_name r)))
     (wseq (wwhen (v \<ge> 3) (write_or_default write_CompactString rstring_empty
             (avq_client_software_version r)))
     (wwhen (v \<ge> 3) (write_or_default write_TaggedFields [] (avq_tagged_fields r))))))"

definition ApiVersions_type :: request_type where
  "ApiVersions_type = \<lparr>API_KEY = ApiVersions, API_VERSION_RANGE = version_range 0 3,
     FIRST_TAGGED_FIELD_IN_REQUEST_VERSION = ApiVersion 3,
     FIRST_TAGGED_FIELD_IN_RESPONSE_VERSION = ApiVersion 0x7FFF\<rparr>"

record ApiVersionsResponseApiKey =
  avk_api_key :: ApiKey
  avk_min_version :: ApiVersion
  avk_max_version :: ApiVersion
  avk_tagged_fields :: "TaggedFields option"

definition read_ApiVersionsResponseApiKey :: "ApiVersion \<Rightarrow> ApiVersionsResponseApiKey reader" where
  "read_ApiVersionsResponseApiKey version =
     (let v = version_number version in
     rbind (rlift (assert_that (v \<le> 3))) (\<lambda>_.
     rbind read_Int16 (\<lambda>api_key.
     rbind read_Int16 (\<lambda>min_version.
     rbind read_Int16 (\<lambda>max_version.
     rbind (rwhen (v \<ge> 3) read_TaggedFields) (\<lambda>tagged_fields.
     rret \<lparr>avk_api_key = ApiKey_from_Int16 api_key, avk_min_version = ApiVersion min_version,
           avk_max_version = ApiVersion max_version, avk_tagged_fields = tagged_fields\<rparr>))))))"

definition write_ApiVersionsResponseApiKey :: "ApiVersion \<Rightarrow> ApiVersionsResponseApiKey \<Rightarrow> vwres" where
  "write_ApiVersionsResponseApiKey version r =
     (let v = version_number version in
     bind_o (assert_that (v \<le> 3)) (\<lambda>_.
     wseq (vw (write_Int16 (Int16_from_ApiKey (avk_api_key r))))
     (wseq (vw (write_Int16 (version_int (avk_min_version r))))
     (wseq (vw (write_Int16 (version_int (avk_max_version r))))
     (wwhen (v \<ge> 3) (write_or_default write_TaggedFields [] (avk_tagged_fields r)))))))"

record ApiVersionsResponse =
  avr_error_code :: "Error option"
  avr_api_keys :: "ApiVersionsResponseApiKey list"
  avr_throttle_time_ms :: "Int32 option"
  avr_tagged_fields :: "TaggedFields option"

definition read_ApiVersionsResponse :: "ApiVersion \<Rightarrow> ApiVersionsResponse reader" where
  "read_ApiVersionsResponse version =
     (let v = version_number version in
     rbind (rlift (assert_that (v \<le> 3))) (\<lambda>_.
     rbind read_error_code (\<lambda>error_code.
     rbind (if v \<ge> 3 then read_compact_versioned_array (read_ApiVersionsResponseApiKey version)
            else read_versioned_array (read_ApiVersionsResponseApiKey version)) (\<lambda>api_keys.
     rbind (rwhen (v \<ge> 1) read_Int32) (\<lambda>throttle_time_ms.
     rbind (rwhen (v \<ge> 3) read_TaggedFields) (\<lambda>tagged_fields.
     rret \<lparr>avr_error_code = error_code, avr_api_keys = or_empty api_keys,
           avr_throttle_time_ms = throttle_time_ms, avr_tagged_fields = tagged_fields\<rparr>))))))"

definition write_ApiVersionsResponse :: "ApiVersion \<Rightarrow> ApiVersionsResponse \<Rightarrow> vwres" where
  "write_ApiVersionsResponse version r =
     (let v = version_number version in
     bind_o (assert_that (v \<le> 3)) (\<lambda>_.
     wseq (write_error_code (avr_error_code r))
     (wseq (if v \<ge> 3 then write_compact_versioned_array (write_ApiVersionsResponseApiKey version)
              (Some (avr_api_keys r))
            else write_versioned_array (write_ApiVersionsResponseApiKey version)
              (Some (avr_api_keys r)))
     (wseq (wwhen (v \<ge> 1) (write_or_default write_Int32 0 (avr_throttle_time_ms r)))
     (wwhen (v \<ge> 3) (write_or_default write_TaggedFields [] (avr_tagged_fields r)))))))"

section \<open>Sasl\<close>

record SaslHandshakeRequest =
  shq_mechanism :: rstring

definition read_SaslHandshakeRequest :: "ApiVersion \<Rightarrow> SaslHandshakeRequest reader" where
  "read_SaslHandshakeRequest version =
     (let v = version_number version in
     rbind (rlift (assert_that (v = 1))) (\<lambda>_.
     rbind read_String (\<lambda>mechanism.
     rret \<lparr>shq_mechanism = mechanism\<rparr>)))"

definition write_SaslHandshakeRequest :: "ApiVersion \<Rightarrow> SaslHandshakeRequest \<Rightarrow> vwres" where
  "write_SaslHandshakeRequest version r =
     (let v = version_number version in
     bind_o (assert_that (v = 1)) (\<lambda>_.
     vw (write_String (shq_mechanism r))))"

definition SaslHandshake_type :: request_type where
  "SaslHandshake_type = \<lparr>API_KEY = SaslHandshake, API_VERSION_RANGE = version_range 1 1,
     FIRST_TAGGED_FIELD_IN_REQUEST_VERSION = ApiVersion 3,
     FIRST_TAGGED_FIELD_IN_RESPONSE_VERSION = ApiVersion 3\<rparr>"

record SaslHandshakeResponse =
  shr_error_code :: "Error option"
  shr_mechanisms :: "rstring list option"

definition read_SaslHandshakeResponse :: "ApiVersion \<Rightarrow> SaslHandshakeResponse reader" where
  "read_SaslHandshakeResponse version =
     (let v = version_number version in
     rbind (rlift (assert_that (v = 1))) (\<lambda>_.
     rbind read_error_code (\<lambda>error_code.
     rbind (read_Array read_String) (\<lambda>mechanisms.
     rret \<lparr>shr_error_code = error_code, shr_mechanisms = mechanisms\<rparr>))))"

definition write_SaslHandshakeResponse :: "ApiVersion \<Rightarrow> SaslHandshakeResponse \<Rightarrow> vwres" where
  "write_SaslHandshakeResponse version r = Ok []"

record SaslAuthenticateRequest =
  saq_auth_bytes :: "u8 list"
  saq_tagged_fields :: "TaggedFields option"

definition SaslAuthenticateRequest_new :: "u8 list \<Rightarrow> SaslAuthenticateRequest" where
  "SaslAuthenticateRequest_new auth_bytes =
     \<lparr>saq_auth_bytes = auth_bytes, saq_tagged_fields = Some []\<rparr>"

definition read_SaslAuthenticateRequest :: "ApiVersion \<Rightarrow> SaslAuthenticateRequest reader" where
  "read_SaslAuthenticateRequest version =
     (let v = version_number version in
     rbind (rlift (assert_that (v \<le> 2))) (\<lambda>_.
       if v = 0 \<or> v = 1 then rbind read_Bytes (\<lambda>bytes. rret (SaslAuthenticateRequest_new bytes))
       else
         rbind read_CompactBytes (\<lambda>auth_bytes.
         rbind read_TaggedFields (\<lambda>tagged_fields.
         rret \<lparr>saq_auth_bytes = auth_bytes, saq_tagged_fields = Some tagged_fields\<rparr>))))"

definition write_SaslAuthenticateRequest :: "ApiVersion \<Rightarrow> SaslAuthenticateRequest \<Rightarrow> vwres" where
  "write_SaslAuthenticateRequest version r =
     (let v = version_number version in
     bind_o (assert_that (v \<le> 2)) (\<lambda>_.
       if v = 0 \<or> v = 1 then vw (write_Bytes (saq_auth_bytes r))
       else wseq (vw (write_CompactBytesRef (saq_auth_bytes r)))
              (write_or_default write_TaggedFields [] (saq_tagged_fields r))))"

definition SaslAuthenticate_type :: request_type where
  "SaslAuthenticate_type = \<lparr>API_KEY = SaslAuthenticate, API_VERSION_RANGE = version_range 0 2,
     FIRST_TAGGED_FIELD_IN_REQUEST_VERSION = ApiVersion 2,
     FIRST_TAGGED_FIELD_IN_RESPONSE_VERSION = ApiVersion 2\<rparr>"

record SaslAuthenticateResponse =
  sar_error_code :: "Error option"
  sar_error_message :: "rstring option"
  sar_auth_bytes :: "u8 list"
  sar_session_lifetime_ms :: "Int64 option"
  sar_tagged_fields :: "TaggedFields option"

definition read_SaslAuthenticateResponse :: "ApiVersion \<Rightarrow> SaslAuthenticateResponse reader" where
  "read_SaslAuthenticateResponse version =
     (let v = version_number version in
     rbind (rlift (assert_that (v \<le> 2))) (\<lambda>_.
       if v = 0 then
         rbind read_error_code (\<lambda>error_code.
         rbind read_NullableString (\<lambda>error_message.
         rbind read_Bytes (\<lambda>auth_bytes.
         rret \<lparr>sar_error_code = error_code, sar_error_message = error_message,
               sar_auth_bytes = auth_bytes, sar_session_lifetime_ms = None,
               sar_tagged_fields = None\<rparr>)))
       else if v = 1 then
         rbind read_error_code (\<lambda>error_code.
         rbind read_NullableString (\<lambda>error_message.
         rbind read_Bytes (\<lambda>auth_bytes.
         rbind read_Int64 (\<lambda>session_lifetime_ms.
         rret \<lparr>sar_error_code = error_code, sar_error_message = error_message,
               sar_auth_bytes = auth_bytes, sar_session_lifetime_ms = Some session_lifetime_ms,
               sar_tagged_fields = None\<rparr>))))
       else
         rbind read_error_code (\<lambda>error_code.
         rbind read_CompactNullableString (\<lambda>error_message.
         rbind read_CompactBytes (\<lambda>auth_bytes.
         rbind read_Int64 (\<lambda>session_lifetime_ms.
         rbind read_TaggedFields (\<lambda>tagged_fields.
         rret \<lparr>sar_error_code = error_code, sar_error_message = error_message,
               sar_auth_bytes = auth_bytes, sar_session_lifetime_ms = Some session_lifetime_ms,
               sar_tagged_fields = Some tagged_fields\<rparr>)))))))"

definition write_SaslAuthenticateResponse :: "ApiVersion \<Rightarrow> SaslAuthenticateResponse \<Rightarrow> vwres" where
  "write_SaslAuthenticateResponse version r = Ok []"

section \<open>CreateTopics\<close>

record CreateTopicAssignment =
  cta_partition_index :: Int32
  cta_broker_ids :: "Int32 list option"
  cta_tagged_fields :: "TaggedFields option"

record CreateTopicConfig =
  ctc_name :: rstring
  ctc_value :: "rstring option"
  ctc_tagged_fields :: "TaggedFields option"

record CreateTopicRequest =
  ctr_name :: rstring
  ctr_num_partitions :: Int32
  ctr_replication_factor :: Int16
  ctr_assignments :: "CreateTopicAssignment list"
  ctr_configs :: "CreateTopicConfig list"
  ctr_tagged_fields :: "TaggedFields option"

record CreateTopicsRequest =
  ctq_topics :: "CreateTopicRequest list"
  ctq_timeout_ms :: Int32
  ctq_validate_only :: "bool option"
  ctq_tagged_fields :: "TaggedFields option"

definition CreateTopics_type :: request_type where
  "CreateTopics_type = \<lparr>API_KEY = CreateTopics, API_VERSION_RANGE = version_range 0 5,
     FIRST_TAGGED_FIELD_IN_REQUEST_VERSION = ApiVersion 5,
     FIRST_TAGGED_FIELD_IN_RESPONSE_VERSION = ApiVersion 5\<rparr>"

definition write_CreateTopicAssignment :: "ApiVersion \<Rightarrow> CreateTopicAssignment \<Rightarrow> vwres" where
  "write_CreateTopicAssignment version r =
     (let v = version_number version in
     bind_o (assert_that (v \<le> 5)) (\<lambda>_.
     wseq (vw (write_Int32 (cta_partition_index r)))
     (wseq (if v \<ge> 5 then vw (write_CompactArrayRef write_Int32 (cta_broker_ids r))
            else vw (write_Array write_Int32 (cta_broker_ids r)))
     (wwhen (v \<ge> 5) (write_or_default write_TaggedFields [] (cta_tagged_fields r))))))"

definition write_CreateTopicConfig :: "ApiVersion \<Rightarrow> CreateTopicConfig \<Rightarrow> vwres" where
  "write_CreateTopicConfig version r =
     (let v = version_number version in
     bind_o (assert_that (v \<le> 5)) (\<lambda>_.
     wseq (if v \<ge> 5 then vw (write_CompactStringRef (ctc_name r)) else vw (write_String (ctc_name r)))
     (wseq (if v \<ge> 5 then vw (write_CompactNullableStringRef (ctc_value r))
            else vw (write_NullableString (ctc_value r)))
     (wwhen (v \<ge> 5) (write_or_default write_TaggedFields [] (ctc_tagged_fields r))))))"

definition write_CreateTopicRequest :: "ApiVersion \<Rightarrow> CreateTopicRequest \<Rightarrow> vwres" where
  "write_CreateTopicRequest version r =
     (let v = version_number version in
     bind_o (assert_that (v \<le> 5)) (\<lambda>_.
     wseq (if v \<ge> 5 then vw (write_CompactStringRef (ctr_name r)) else vw (write_String (ctr_name r)))
     (wseq (vw (write_Int32 (ctr_num_partitions r)))
     (wseq (vw (write_Int16 (ctr_replication_factor r)))
     (wseq (if v \<ge> 5 then write_compact_versioned_array (write_CreateTopicAssignment version)
              (Some (ctr_assignments r))
            else write_versioned_array (write_CreateTopicAssignment version)
              (Some (ctr_assignments r)))
     (wseq (if v \<ge> 5 then write_compact_versioned_array (write_CreateTopicConfig version)
              (Some (ctr_configs r))
            else write_versioned_array (write_CreateTopicConfig version) (Some (ctr_configs r)))
     (wwhen (v \<ge> 5) (write_or_default write_TaggedFields [] (ctr_tagged_fields r)))))))))"

definition write_CreateTopicsRequest :: "ApiVersion \<Rightarrow> CreateTopicsRequest \<Rightarrow> vwres" where
  "write_CreateTopicsRequest version r =
     (let v = version_number version in
     bind_o (assert_that (v \<le> 5)) (\<lambda>_.
       if ctq_validate_only r \<noteq> None \<and> v < 1
       then Err (FieldNotAvailable ''validate_only'' version)
       else
     wseq (if v \<ge> 5 then write_compact_versioned_array (write_CreateTopicRequest version)
             (Some (ctq_topics r))
           else write_versioned_array (write_CreateTopicRequest version) (Some (ctq_topics r)))
     (wseq (vw (write_Int32 (ctq_timeout_ms r)))
     (wseq (wwhen (v \<ge> 1) (write_or_default write_Boolean False (ctq_validate_only r)))
     (wwhen (v \<ge> 5) (write_or_default write_TaggedFields [] (ctq_tagged_fields r)))))))"

record CreateTopicResponseConfig =
  ctrc_name :: rstring
  ctrc_value :: "rstring option"
  ctrc_read_only :: bool
  ctrc_config_source :: Int8
  ctrc_is_sensitive :: bool
  ctrc_tagged_fields :: TaggedFields

definition read_CreateTopicResponseConfig :: "ApiVersion \<Rightarrow> CreateTopicResponseConfig reader" where
  "read_CreateTopicResponseConfig version =
     (let v = version_number version in
     rbind (rlift (assert_that (v = 5))) (\<lambda>_.
     rbind read_CompactString (\<lambda>name.
     rbind read_CompactNullableString (\<lambda>val.
     rbind read_Boolean (\<lambda>read_only.
     rbind read_Int8 (\<lambda>config_source.
     rbind read_Boolean (\<lambda>is_sensitive.
     rbind read_TaggedFields (\<lambda>tagged_fields.
     rret \<lparr>ctrc_name = name, ctrc_value = val, ctrc_read_only = read_only,
           ctrc_config_source = config_source, ctrc_is_sensitive = is_sensitive,
           ctrc_tagged_fields = tagged_fields\<rparr>))))))))"

record CreateTopicResponse =
  ctp_name :: rstring
  ctp_error :: "Error option"
  ctp_error_message :: "rstring option option"
  ctp_num_partitions :: "Int32 option"
  ctp_replication_factor :: "Int16 option"
  ctp_configs :: "CreateTopicResponseConfig list"
  ctp_tagged_fields :: "TaggedFields option"

definition read_CreateTopicResponse :: "ApiVersion \<Rightarrow> CreateTopicResponse reader" where
  "read_CreateTopicResponse version =
     (let v = version_number version in
     rbind (rlift (assert_that (v \<le> 5))) (\<lambda>_.
     rbind (if v \<ge> 5 then read_CompactString else read_String) (\<lambda>name.
     rbind read_error_code (\<lambda>error.
     rbind (rwhen (v \<ge> 1)
       (if v \<ge> 5 then read_CompactNullableString else read_NullableString)) (\<lambda>error_message.
     rbind (rwhen (v \<ge> 5) read_Int32) (\<lambda>num_partitions.
     rbind (rwhen (v \<ge> 5) read_Int16) (\<lambda>replication_factor.
     rbind (rwhen (v \<ge> 5) (read_compact_versioned_array (read_CreateTopicResponseConfig version)))
       (\<lambda>configs.
     rbind (rwhen (v \<ge> 5) read_TaggedFields) (\<lambda>tagged_fields.
     rret \<lparr>ctp_name = name, ctp_error = error, ctp_error_message = error_message,
           ctp_num_partitions = num_partitions, ctp_replication_factor = replication_factor,
           ctp_configs = or_empty (Option.bind configs id), ctp_tagged_fields = tagged_fields\<rparr>)))))))))"

record CreateTopicsResponse =
  cts_throttle_time_ms :: "Int32 option"
  cts_topics :: "CreateTopicResponse list"
  cts_tagged_fields :: "TaggedFields option"

definition read_CreateTopicsResponse :: "ApiVersion \<Rightarrow> CreateTopicsResponse reader" where
  "read_CreateTopicsResponse version =
     (let v = version_number version in
     rbind (rlift (assert_that (v \<le> 5))) (\<lambda>_.
     rbind (rwhen (v \<ge> 2) read_Int32) (\<lambda>throttle_time_ms.
     rbind (if v \<ge> 5 then read_compact_versioned_array (read_CreateTopicResponse version)
            else read_versioned_array (read_CreateTopicResponse version)) (\<lambda>topics.
     rbind (rwhen (v \<ge> 5) read_TaggedFields) (\<lambda>tagged_fields.
     rret \<lparr>cts_throttle_time_ms = throttle_time_ms, cts_topics = or_empty topics,
           cts_tagged_fields = tagged_fields\<rparr>)))))"

section \<open>DeleteTopics\<close>

record DeleteTopicsRequest =
  dtq_topic_names :: "rstring list option"
  dtq_timeout_ms :: Int32
  dtq_tagged_fields :: "TaggedFields option"

definition DeleteTopics_type :: request_type where
  "DeleteTopics_type = \<lparr>API_KEY = DeleteTopics, API_VERSION_RANGE = version_range 0 5,
     FIRST_TAGGED_FIELD_IN_REQUEST_VERSION = ApiVersion 4,
     FIRST_TAGGED_FIELD_IN_RESPONSE_VERSION = ApiVersion 4\<rparr>"

definition write_DeleteTopicsRequest :: "ApiVersion \<Rightarrow> DeleteTopicsRequest \<Rightarrow> vwres" where
  "write_DeleteTopicsRequest version r =
     (let v = version_number version in
     bind_o (assert_that (v \<le> 5)) (\<lambda>_.
     wseq (if v \<ge> 4 then
             (case dtq_topic_names r of
                Some topic_names \<Rightarrow> vw (write_CompactArrayRef write_CompactStringRef (Some topic_names))
              | None \<Rightarrow> vw (write_CompactArrayRef write_CompactStringRef None))
           else vw (write_Array write_String (dtq_topic_names r)))
     (wseq (vw (write_Int32 (dtq_timeout_ms r)))
     (wwhen (v \<ge> 4) (write_or_default write_TaggedFields [] (dtq_tagged_fields r))))))"

record DeleteTopicsResponseTopic =
  dtt_name :: rstring
  dtt_error :: "Error option"
  dtt_error_message :: "rstring option option"
  dtt_tagged_fields :: "TaggedFields option"

definition read_DeleteTopicsResponseTopic :: "ApiVersion \<Rightarrow> DeleteTopicsResponseTopic reader" where
  "read_DeleteTopicsResponseTopic version =
     (let v = version_number version in
     rbind (rlift (assert_that (v \<le> 5))) (\<lambda>_.
     rbind (if v \<ge> 4 then read_CompactString else read_String) (\<lambda>name.
     rbind read_error_code (\<lambda>error.
     rbind (rwhen (v \<ge> 5) read_CompactNullableString) (\<lambda>error_message.
     rbind (rwhen (v \<ge> 4) read_TaggedFields) (\<lambda>tagged_fields.
     rret \<lparr>dtt_name = name, dtt_error = error, dtt_error_message = error_message,
           dtt_tagged_fields = tagged_fields\<rparr>))))))"

record DeleteTopicsResponse =
  dtr_throttle_time_ms :: "Int32 option"
  dtr_responses :: "DeleteTopicsResponseTopic list"
  dtr_tagged_fields :: "TaggedFields option"

definition read_DeleteTopicsResponse :: "ApiVersion \<Rightarrow> DeleteTopicsResponse reader" where
  "read_DeleteTopicsResponse version =
     (let v = version_number version in
     rbind (rlift (assert_that (v \<le> 5))) (\<lambda>_.
     rbind (rwhen (v \<ge> 1) read_Int32) (\<lambda>throttle_time_ms.
     rbind (if v \<ge> 4 then read_compact_versioned_array (read_DeleteTopicsResponseTopic version)
            else read_versioned_array (read_DeleteTopicsResponseTopic version)) (\<lambda>responses.
     rbind (rwhen (v \<ge> 4) read_TaggedFields) (\<lambda>tagged_fields.
     rret \<lparr>dtr_throttle_time_ms = throttle_time_ms, dtr_responses = or_empty responses,
           dtr_tagged_fields = tagged_fields\<rparr>)))))"

section \<open>DeleteRecords\<close>

record DeleteRequestPartition =
  drp_partition_index :: Int32
  drp_offset :: Int64
  drp_tagged_fields :: "TaggedFields option"

definition write_DeleteRequestPartition :: "ApiVersion \<Rightarrow> DeleteRequestPartition \<Rightarrow> vwres" where
  "write_DeleteRequestPartition version r =
     (let v = version_number version in
     bind_o (assert_that (v \<le> 2)) (\<lambda>_.
     wseq (vw (write_Int32 (drp_partition_index r)))
     (wseq (vw (write_Int64 (drp_offset r)))
     (wwhen (v \<ge> 2) (write_or_default write_TaggedFields [] (drp_tagged_fields r))))))"

record DeleteRequestTopic =
  drt_name :: rstring
  drt_partitions :: "DeleteRequestPartition list"
  drt_tagged_fields :: "TaggedFields option"

definition write_DeleteRequestTopic :: "ApiVersion \<Rightarrow> DeleteRequestTopic \<Rightarrow> vwres" where
  "write_DeleteRequestTopic version r =
     (let v = version_number version in
     bind_o (assert_that (v \<le> 2)) (\<lambda>_.
     wseq (if v \<ge> 2 then vw (write_CompactStringRef (drt_name r)) else vw (write_String (drt_name r)))
     (wseq (if v \<ge> 2 then write_compact_versioned_array (write_DeleteRequestPartition version)
              (Some (drt_partitions r))
            else write_versioned_array (write_DeleteRequestPartition version)
              (Some (drt_partitions r)))
     (wwhen (v \<ge> 2) (write_or_default write_TaggedFields [] (drt_tagged_fields r))))))"

record DeleteRecordsRequest =
  drq_topics :: "DeleteRequestTopic list"
  drq_timeout_ms :: Int32
  drq_tagged_fields :: "TaggedFields option"

definition write_DeleteRecordsRequest :: "ApiVersion \<Rightarrow> DeleteRecordsRequest \<Rightarrow> vwres" where
  "write_DeleteRecordsRequest version r =
     (let v = version_number version in
     bind_o (assert_that (v \<le> 2)) (\<lambda>_.
     wseq (if v \<ge> 2 then write_compact_versioned_array (write_DeleteRequestTopic version)
             (Some (drq_topics r))
           else write_versioned_array (write_DeleteRequestTopic version) (Some (drq_topics r)))
     (wseq (vw (write_Int32 (drq_timeout_ms r)))
     (wwhen (v \<ge> 2) (write_or_default write_TaggedFields [] (drq_tagged_fields r))))))"

definition DeleteRecords_type :: request_type where
  "DeleteRecords_type = \<lparr>API_KEY = DeleteRecords, API_VERSION_RANGE = version_range 0 2,
     FIRST_TAGGED_FIELD_IN_REQUEST_VERSION = ApiVersion 2,
     FIRST_TAGGED_FIELD_IN_RESPONSE_VERSION = ApiVersion 2\<rparr>"

record DeleteResponsePartition =
  dsp_partition_index :: Int32
  dsp_low_watermark :: Int64
  dsp_error :: "Error option"
  dsp_tagged_fields :: "TaggedFields option"

definition read_DeleteResponsePartition :: "ApiVersion \<Rightarrow> DeleteResponsePartition reader" where
  "read_DeleteResponsePartition version =
     (let v = version_number version in
     rbind (rlift (assert_that (v \<le> 2))) (\<lambda>_.
     rbind read_Int32 (\<lambda>partition_index.
     rbind read_Int64 (\<lambda>low_watermark.
     rbind read_error_code (\<lambda>error.
     rbind (rwhen (v \<ge> 2) read_TaggedFields) (\<lambda>tagged_fields.
     rret \<lparr>dsp_partition_index = partition_index, dsp_low_watermark = low_watermark,
           dsp_error = error, dsp_tagged_fields = tagged_fields\<rparr>))))))"

record DeleteResponseTopic =
  dst_name :: rstring
  dst_partitions :: "DeleteResponsePartition list"
  dst_tagged_fields :: "TaggedFields option"

definition read_DeleteResponseTopic :: "ApiVersion \<Rightarrow> DeleteResponseTopic reader" where
  "read_DeleteResponseTopic version =
     (let v = version_number version in
     rbind (rlift (assert_that (v \<le> 2))) (\<lambda>_.
     rbind (if v \<ge> 2 then read_CompactString else read_String) (\<lambda>name.
     rbind (if v \<ge> 2 then read_compact_versioned_array (read_DeleteResponsePartition version)
            else read_versioned_array (read_DeleteResponsePartition version)) (\<lambda>partitions.
     rbind (rwhen (v \<ge> 2) read_TaggedFields) (\<lambda>tagged_fields.
     rret \<lparr>dst_name = name, dst_partitions = or_empty partitions,
           dst_tagged_fields = tagged_fields\<rparr>)))))"

record DeleteRecordsResponse =
  dsr_throttle_time_ms :: Int32
  dsr_topics :: "DeleteResponseTopic list"
  dsr_tagged_fields :: "TaggedFields option"

definition read_DeleteRecordsResponse :: "ApiVersion \<Rightarrow> DeleteRecordsResponse reader" where
  "read_DeleteRecordsResponse version =
     (let v = version_number version in
     rbind (rlift (assert_that (v \<le> 2))) (\<lambda>_.
     rbind read_Int32 (\<lambda>throttle_time_ms.
     rbind (if v \<ge> 2 then read_compact_versioned_array (read_DeleteResponseTopic version)
            else read_versioned_array (read_DeleteResponseTopic version)) (\<lambda>topics.
     rbind (rwhen (v \<ge> 2) read_TaggedFields) (\<lambda>tagged_fields.
     rret \<lparr>dsr_throttle_time_ms = throttle_time_ms, dsr_topics = or_empty topics,
           dsr_tagged_fields = tagged_fields\<rparr>)))))"

section \<open>Contracts of the responses\<close>

lemma safe_ApiVersionsResponseApiKey [reader_intros]:
  "version_number v \<le> 3 \<Longrightarrow> safe_reader (read_ApiVersionsResponseApiKey v)"
  unfolding read_ApiVersionsResponseApiKey_def Let_def by (auto intro!: reader_intros)

lemma safe_ApiVersionsResponse:
  "version_number v \<le> 3 \<Longrightarrow> safe_reader (read_ApiVersionsResponse v)"
  unfolding read_ApiVersionsResponse_def Let_def by (auto intro!: reader_intros)

lemma safe_CreateTopicResponseConfig [reader_intros]:
  "version_number v = 5 \<Longrightarrow> safe_reader (read_CreateTopicResponseConfig v)"
  unfolding read_CreateTopicResponseConfig_def Let_def by (auto intro!: reader_intros)

lemma safe_CreateTopicResponse [reader_intros]:
  "version_number v \<le> 5 \<Longrightarrow> safe_reader (read_CreateTopicResponse v)"
  unfolding read_CreateTopicResponse_def Let_def by (auto intro!: reader_intros)

lemma safe_CreateTopicsResponse:
  "version_number v \<le> 5 \<Longrightarrow> safe_reader (read_CreateTopicsResponse v)"
  unfolding read_CreateTopicsResponse_def Let_def by (auto intro!: reader_intros)

lemma safe_DeleteTopicsResponseTopic [reader_intros]:
  "version_number v \<le> 5 \<Longrightarrow> safe_reader (read_DeleteTopicsResponseTopic v)"
  unfolding read_DeleteTopicsResponseTopic_def Let_def by (auto intro!: reader_intros)

lemma safe_DeleteTopicsResponse:
  "version_number v \<le> 5 \<Longrightarrow> safe_reader (read_DeleteTopicsResponse v)"
  unfolding read_DeleteTopicsResponse_def Let_def by (auto intro!: reader_intros)

lemma safe_DeleteResponsePartition [reader_intros]:
  "version_number v \<le> 2 \<Longrightarrow> safe_reader (read_DeleteResponsePartition v)"
  unfolding read_DeleteResponsePartition_def Let_def by (auto intro!: reader_intros)

lemma safe_DeleteResponseTopic [reader_intros]:
  "version_number v \<le> 2 \<Longrightarrow> safe_reader (read_DeleteResponseTopic v)"
  unfolding read_DeleteResponseTopic_def Let_def by (auto intro!: reader_intros)

lemma safe_DeleteRecordsResponse:
  "version_number v \<le> 2 \<Longrightarrow> safe_reader (read_DeleteRecordsResponse v)"
  unfolding read_DeleteRecordsResponse_def Let_def by (auto intro!: reader_intros)

lemma safe_SaslHandshakeResponse:
  "version_number v = 1 \<Longrightarrow> safe_reader (read_SaslHandshakeResponse v)"
  unfolding read_SaslHandshakeResponse_def Let_def by (auto intro!: reader_intros)

lemma stream_SaslAuthenticateResponse:
  "stream_reader (read_SaslAuthenticateResponse v)"
  unfolding read_SaslAuthenticateResponse_def Let_def
  by (intro stream_reader_rbind stream_reader_if stream_reader_rlift stream_reader_rret
      stream_read_CompactBytes)
    (rule stream_reader_of_safe, intro reader_intros)+

lemma safe_SaslAuthenticateResponse:
  "version_number v = 0 \<or> version_number v = 1 \<Longrightarrow> safe_reader (read_SaslAuthenticateResponse v)"
  unfolding read_SaslAuthenticateResponse_def Let_def by (auto intro!: reader_intros)

lemmas type_defs = ApiVersions_type_def SaslHandshake_type_def SaslAuthenticate_type_def
  CreateTopics_type_def DeleteTopics_type_def DeleteRecords_type_def

interpretation api_versions: response_reader read_ApiVersionsResponse ApiVersions_type
  by (rule response_readerI, rule safe_ApiVersionsResponse, simp add: type_defs)
    (simp add: type_defs beyond_range read_ApiVersionsResponse_def)

interpretation create_topics: response_reader read_CreateTopicsResponse CreateTopics_type
  by (rule response_readerI, rule safe_CreateTopicsResponse, simp add: type_defs)
    (simp add: type_defs beyond_range read_CreateTopicsResponse_def)

interpretation delete_topics: response_reader read_DeleteTopicsResponse DeleteTopics_type
  by (rule response_readerI, rule safe_DeleteTopicsResponse, simp add: type_defs)
    (simp add: type_defs beyond_range read_DeleteTopicsResponse_def)

interpretation delete_records: response_reader read_DeleteRecordsResponse DeleteRecords_type
  by (rule response_readerI, rule safe_DeleteRecordsResponse, simp add: type_defs)
    (simp add: type_defs beyond_range read_DeleteRecordsResponse_def)

interpretation sasl_handshake: response_reader read_SaslHandshakeResponse SaslHandshake_type
  by (rule response_readerI, rule safe_SaslHandshakeResponse, simp add: type_defs)
    (simp add: type_defs beyond_range read_SaslHandshakeResponse_def)

interpretation sasl_authenticate: response_stream read_SaslAuthenticateResponse SaslAuthenticate_type
  by (rule response_stream.intro, rule stream_SaslAuthenticateResponse)
    (simp add: type_defs beyond_range read_SaslAuthenticateResponse_def)

section \<open>Contracts of the requests\<close>

lemma no_panic_CreateTopicAssignment [no_panic_intros]:
  "version_number v \<le> 5 \<Longrightarrow> \<not> is_panic (write_CreateTopicAssignment v r)"
  unfolding write_CreateTopicAssignment_def Let_def by (intro no_panic_intros; assumption?)

lemma no_panic_CreateTopicConfig [no_panic_intros]:
  "version_number v \<le> 5 \<Longrightarrow> \<not> is_panic (write_CreateTopicConfig v r)"
  unfolding write_CreateTopicConfig_def Let_def by (intro no_panic_intros; assumption?)

lemma no_panic_CreateTopicRequest [no_panic_intros]:
  "version_number v \<le> 5 \<Longrightarrow> \<not> is_panic (write_CreateTopicRequest v r)"
  unfolding write_CreateTopicRequest_def Let_def by (intro no_panic_intros; assumption?)

lemma no_panic_CreateTopicsRequest:
  "version_number v \<le> 5 \<Longrightarrow> \<not> is_panic (write_CreateTopicsRequest v r)"
  unfolding write_CreateTopicsRequest_def Let_def by (intro no_panic_intros; assumption?)

lemma no_panic_DeleteTopicsRequest:
  "version_number v \<le> 5 \<Longrightarrow> \<not> is_panic (write_DeleteTopicsRequest v r)"
  unfolding write_DeleteTopicsRequest_def Let_def by (intro no_panic_intros; assumption?)

lemma no_panic_DeleteRequestPartition [no_panic_intros]:
  "version_number v \<le> 2 \<Longrightarrow> \<not> is_panic (write_DeleteRequestPartition v r)"
  unfolding write_DeleteRequestPartition_def Let_def by (intro no_panic_intros; assumption?)

lemma no_panic_DeleteRequestTopic [no_panic_intros]:
  "version_number v \<le> 2 \<Longrightarrow> \<not> is_panic (write_DeleteRequestTopic v r)"
  unfolding write_DeleteRequestTopic_def Let_def by (intro no_panic_intros; assumption?)

lemma no_panic_DeleteRecordsRequest:
  "version_number v \<le> 2 \<Longrightarrow> \<not> is_panic (write_DeleteRecordsRequest v r)"
  unfolding write_DeleteRecordsRequest_def Let_def by (intro no_panic_intros; assumption?)

lemma no_panic_ApiVersionsRequest:
  "version_number v \<le> 3 \<Longrightarrow> \<not> is_panic (write_ApiVersionsRequest v r)"
  unfolding write_ApiVersionsRequest_def Let_def by (intro no_panic_intros; assumption?)

lemma no_panic_SaslAuthenticateRequest:
  "version_number v \<le> 2 \<Longrightarrow> \<not> is_panic (write_SaslAuthenticateRequest v r)"
  unfolding write_SaslAuthenticateRequest_def Let_def by (intro no_panic_intros; assumption?)

lemma no_panic_SaslHandshakeRequest:
  "version_number v = 1 \<Longrightarrow> \<not> is_panic (write_SaslHandshakeRequest v r)"
  unfolding write_SaslHandshakeRequest_def Let_def by (intro no_panic_intros; assumption?)

interpretation api_versions_out: request_writer write_ApiVersionsRequest ApiVersions_type
  by (rule request_writer.intro, rule no_panic_ApiVersionsRequest, simp add: type_defs)
    (simp add: type_defs write_ApiVersionsRequest_def)

interpretation sasl_handshake_out: request_writer write_SaslHandshakeRequest SaslHandshake_type
  by (rule request_writer.intro, rule no_panic_SaslHandshakeRequest, simp add: type_defs)
    (simp add: type_defs write_SaslHandshakeRequest_def)

interpretation sasl_authenticate_out: request_writer write_SaslAuthenticateRequest
    SaslAuthenticate_type
  by (rule request_writer.intro, rule no_panic_SaslAuthenticateRequest, simp add: type_defs)
    (simp add: type_defs write_SaslAuthenticateRequest_def)

interpretation create_topics_out: request_writer write_CreateTopicsRequest CreateTopics_type
  by (rule request_writer.intro, rule no_panic_CreateTopicsRequest, simp add: type_defs)
    (simp add: type_defs write_CreateTopicsRequest_def)

interpretation delete_topics_out: request_writer write_DeleteTopicsRequest DeleteTopics_type
  by (rule request_writer.intro, rule no_panic_DeleteTopicsRequest, simp add: type_defs)
    (simp add: type_defs write_DeleteTopicsRequest_def)

interpretation delete_records_out: request_writer write_DeleteRecordsRequest DeleteRecords_type
  by (rule request_writer.intro, rule no_panic_DeleteRecordsRequest, simp add: type_defs)
    (simp add: type_defs write_DeleteRecordsRequest_def)

section \<open>Round trips\<close>

definition norm_ApiVersionsRequest :: "ApiVersion \<Rightarrow> ApiVersionsRequest \<Rightarrow> ApiVersionsRequest" where
  "norm_ApiVersionsRequest version r =
     (let has = (version_number version \<ge> 3) in
      r\<lparr>avq_client_software_name := with_default has rstring_empty (avq_client_software_name r),
        avq_client_software_version := with_default has rstring_empty (avq_client_software_version r),
        avq_tagged_fields := with_default has [] (avq_tagged_fields r)\<rparr>)"

definition norm_ApiVersionsResponseApiKey ::
    "ApiVersion \<Rightarrow> ApiVersionsResponseApiKey \<Rightarrow> ApiVersionsResponseApiKey" where
  "norm_ApiVersionsResponseApiKey version r =
     r\<lparr>avk_api_key := ApiKey_from_Int16 (Int16_from_ApiKey (avk_api_key r)),
       avk_tagged_fields := with_default (version_number version \<ge> 3) [] (avk_tagged_fields r)\<rparr>"

definition norm_ApiVersionsResponse :: "ApiVersion \<Rightarrow> ApiVersionsResponse \<Rightarrow> ApiVersionsResponse" where
  "norm_ApiVersionsResponse version r =
     (let v = version_number version in
      r\<lparr>avr_error_code := norm_error (avr_error_code r),
        avr_api_keys := map (norm_ApiVersionsResponseApiKey version) (avr_api_keys r),
        avr_throttle_time_ms := with_default (v \<ge> 1) 0 (avr_throttle_time_ms r),
        avr_tagged_fields := with_default (v \<ge> 3) [] (avr_tagged_fields r)\<rparr>)"

lemma norm_codec_ApiVersionsRequest:
  "norm_codec (read_ApiVersionsRequest v) (write_ApiVersionsRequest v) (norm_ApiVersionsRequest v)"
  by (rule norm_codecI)
    (auto simp: read_ApiVersionsRequest_def write_ApiVersionsRequest_def
      norm_ApiVersionsRequest_def Let_def)

lemma norm_codec_ApiVersionsResponseApiKey:
  "norm_codec (read_ApiVersionsResponseApiKey v) (write_ApiVersionsResponseApiKey v)
    (norm_ApiVersionsResponseApiKey v)"
  by (rule norm_codecI)
    (auto simp: read_ApiVersionsResponseApiKey_def write_ApiVersionsResponseApiKey_def
      norm_ApiVersionsResponseApiKey_def Let_def)

lemmas api_key_arrays [simp] =
  norm_codec.roundtrip [OF norm_codec_versioned_array [OF norm_codec_ApiVersionsResponseApiKey]]
  norm_codec.roundtrip
    [OF norm_codec_compact_versioned_array [OF norm_codec_ApiVersionsResponseApiKey]]

lemma norm_codec_ApiVersionsResponse:
  "norm_codec (read_ApiVersionsResponse v) (write_ApiVersionsResponse v)
    (norm_ApiVersionsResponse v)"
  by (rule norm_codecI)
    (auto simp: read_ApiVersionsResponse_def write_ApiVersionsResponse_def
      norm_ApiVersionsResponse_def Let_def or_empty_def)

interpretation api_versions_codec: norm_codec "read_ApiVersionsResponse v"
    "write_ApiVersionsResponse v" "norm_ApiVersionsResponse v" for v
  by (rule norm_codec_ApiVersionsResponse)

text \<open>The two Sasl requests; version 0 and 1 of the second always read tagged fields as empty.\<close>

lemma codec_SaslHandshakeRequest:
  "codec (read_SaslHandshakeRequest v) (write_SaslHandshakeRequest v)"
  by (rule codecI)
    (auto simp: read_SaslHandshakeRequest_def write_SaslHandshakeRequest_def Let_def)

definition norm_SaslAuthenticateRequest ::
    "ApiVersion \<Rightarrow> SaslAuthenticateRequest \<Rightarrow> SaslAuthenticateRequest" where
  "norm_SaslAuthenticateRequest version r =
     r\<lparr>saq_tagged_fields :=
         (if version_number version = 0 \<or> version_number version = 1 then Some []
          else with_default True [] (saq_tagged_fields r))\<rparr>"

lemma norm_codec_SaslAuthenticateRequest:
  "norm_codec (read_SaslAuthenticateRequest v) (write_SaslAuthenticateRequest v)
    (norm_SaslAuthenticateRequest v)"
proof (rule norm_codecI)
  fix r bs rest e
  assume w: "write_SaslAuthenticateRequest v r = Ok bs"
  have "read_CompactBytes (b @ s, e) = Ok (x, (s, e))" if "write_CompactBytesRef x = Ok b" for x b s
    using that codec_roundtrip [OF codec_CompactBytes, of x b s e] by (simp add: write_CompactBytes_def)
  with w show "read_SaslAuthenticateRequest v (bs @ rest, e) =
      Ok (norm_SaslAuthenticateRequest v r, (rest, e))"
    by (auto simp: read_SaslAuthenticateRequest_def write_SaslAuthenticateRequest_def Let_def
        norm_SaslAuthenticateRequest_def SaslAuthenticateRequest_new_def write_or_default_def
        with_default_def split: if_splits option.splits)
qed

end
