(* ===== verification/Throttle.thy ===== *)
theory Throttle
  imports Primitives
begin

text \<open>
  \<open>src/src/throttle.rs\<close>, \<open>src/src/validation.rs\<close> and the error type of \<open>src/src/backoff.rs\<close>
  that they use.  A \<open>Duration\<close> made from milliseconds is that number of milliseconds.
\<close>

datatype 'e ErrorOrThrottle = Error 'e | Throttle usize

definition u64_try_from_i32 :: "i32 \<Rightarrow> u64 option" where
  "u64_try_from_i32 w = (if 0 \<le> sint w then Some (word_of_int (sint w)) else None)"

definition maybe_throttle :: "Int32 option \<Rightarrow> ('e ErrorOrThrottle, unit) outcome" where
  "maybe_throttle throttle_time_ms =
     (let t = (case throttle_time_ms of Some t \<Rightarrow> t | None \<Rightarrow> 0)
      in case u64_try_from_i32 t of
           None \<Rightarrow> Ok ()
         | Some t \<Rightarrow> if t = 0 then Ok () else Err (Throttle (unat t)))"

text \<open>\<open>Vec::exactly_one\<close>: the error is the number of items.\<close>

definition exactly_one :: "'a list \<Rightarrow> usize + 'a" where
  "exactly_one xs =
     (case rev xs of
        [] \<Rightarrow> Inl 0
      | v # rest \<Rightarrow> if rest = [] then Inr v else Inl (length rest + 1))"

lemma maybe_throttle_cases:
  "maybe_throttle t =
    (case t of
       Some w \<Rightarrow> if 0 < sint w then Err (Throttle (nat (sint w))) else Ok ()
     | None \<Rightarrow> Ok ())"
proof (cases t)
  case None
  then show ?thesis by (simp add: maybe_throttle_def u64_try_from_i32_def)
next
  case (Some w)
  have "uint (word_of_int (sint w) :: u64) = sint w" if "0 \<le> sint w"
    unfolding uint_word_of_int using that sint_less [of w] by (simp add: mod_pos_pos_trivial)
  then have nat: "unat (word_of_int (sint w) :: u64) = nat (sint w)" if "0 \<le> sint w"
    using that by (metis unat_eq_nat_uint)
  have zero: "(word_of_int (sint w) :: u64) = 0 \<longleftrightarrow> sint w = 0" if "0 \<le> sint w"
    using nat [OF that] that by (metis nat_0_iff nle_le unat_eq_zero)
  show ?thesis
    unfolding maybe_throttle_def u64_try_from_i32_def Let_def
    by (cases "0 \<le> sint w") (simp_all add: Some nat [simplified] zero [simplified])
qed

lemma maybe_throttle_result:
  "maybe_throttle t = Ok () \<or> (\<exists>d. maybe_throttle t = Err (Throttle d))"
  by (cases t) (simp_all add: maybe_throttle_cases)

lemma exactly_one_Inr [simp]: "exactly_one xs = Inr x \<longleftrightarrow> xs = [x]"
  by (cases xs rule: rev_cases) (auto simp: exactly_one_def)

lemma exactly_one_Inl: "exactly_one xs = Inl n \<longleftrightarrow> n = length xs \<and> n \<noteq> 1"
  by (cases xs rule: rev_cases) (auto simp: exactly_one_def length_greater_0_conv [symmetric]
      simp del: length_greater_0_conv)

end
