(* ===== verification/Messenger.thy ===== *)
theory Messenger
  imports Frame Messages_Admin Throttle
begin

text \<open>
  \<open>src/src/messenger.rs\<close>: the connection to one broker.  Here are its sequential functions: the
  choice of a version, the encoding of a request, the decoding of its response, and the version
  negotiation over the answers that its requests get.  What happens concurrently is in theory
  \<open>Messenger_Steps\<close>, and both are put together in theory \<open>Wire\<close>.
\<close>

section \<open>Errors and versions\<close>

datatype request_error =
    NoVersionMatch ApiKey
  | WriteVersionedError write_versioned_error
  | WriteMessageError frame_write_error
  | ReadError read_error
  | ReadVersionedError read_error
  | RequestIO io_error
  | TooMuchData usize usize ApiKey ApiVersion
  | ReadFramedMessageError frame_read_error
  | Poisoned request_error

definition match_versions :: "ApiVersionRange \<Rightarrow> ApiVersionRange \<Rightarrow> ApiVersion option" where
  "match_versions range_a range_b =
     (if vr_min range_a \<le> vr_max range_b \<and> vr_min range_b \<le> vr_max range_a
      then Some (min (vr_max range_a) (vr_max range_b))
      else None)"

type_synonym version_ranges = "ApiKey \<rightharpoonup> ApiVersionRange"

definition choose_version :: "request_type \<Rightarrow> version_ranges \<Rightarrow> (request_error, ApiVersion) outcome" where
  "choose_version rt ranges =
     ok_or (NoVersionMatch (API_KEY rt))
       (Option.bind (ranges (API_KEY rt)) (\<lambda>range_server.
          match_versions range_server (API_VERSION_RANGE rt)))"

section \<open>One request\<close>

definition use_tagged_fields_in_request :: "request_type \<Rightarrow> ApiVersion \<Rightarrow> bool" where
  "use_tagged_fields_in_request rt v \<longleftrightarrow> v \<ge> FIRST_TAGGED_FIELD_IN_REQUEST_VERSION rt"

definition use_tagged_fields_in_response :: "request_type \<Rightarrow> ApiVersion \<Rightarrow> bool" where
  "use_tagged_fields_in_response rt v \<longleftrightarrow> v \<ge> FIRST_TAGGED_FIELD_IN_RESPONSE_VERSION rt"

definition request_header_of :: "rstring \<Rightarrow> request_type \<Rightarrow> ApiVersion \<Rightarrow> i32 \<Rightarrow> RequestHeader" where
  "request_header_of client rt body_api_version cid =
     \<lparr>request_api_key = API_KEY rt, request_api_version = body_api_version,
      rqh_correlation_id = cid, client_id = Some (Some client), rqh_tagged_fields = Some []\<rparr>"

definition header_version_of :: "request_type \<Rightarrow> ApiVersion \<Rightarrow> ApiVersion" where
  "header_version_of rt v = (if use_tagged_fields_in_request rt v then ApiVersion 2 else ApiVersion 1)"

text \<open>The buffer of a request: header (with \<open>expect\<close>) and body.\<close>

definition encode_request :: "rstring \<Rightarrow> request_type \<Rightarrow> (ApiVersion \<Rightarrow> vwres) \<Rightarrow> ApiVersion \<Rightarrow> i32 \<Rightarrow>
    (request_error, u8 list) outcome" where
  "encode_request client rt msg v cid =
     (case write_RequestHeader (header_version_of rt v) (request_header_of client rt v cid) of
        Ok header \<Rightarrow>
          bind_o (map_err WriteVersionedError (msg v)) (\<lambda>body.
          Ok (header @ body))
      | Err _ \<Rightarrow> Panic ExpectFailed
      | Panic p \<Rightarrow> Panic p)"

text \<open>A response: its header, and the cursor over its message behind the header.\<close>

record response =
  resp_header :: ResponseHeader
  resp_data :: "u8 list"
  resp_size :: usize

definition decode_response :: "request_type \<Rightarrow> (ApiVersion \<Rightarrow> 'a reader) \<Rightarrow> ApiVersion \<Rightarrow> response \<Rightarrow>
    (request_error, 'a) outcome" where
  "decode_response rt rd v resp =
     (case rd v (resp_data resp, None) of
        Err e \<Rightarrow> Err (ReadVersionedError e)
      | Panic p \<Rightarrow> Panic p
      | Ok (body, (rest, _)) \<Rightarrow>
          let read_bytes = resp_size resp - length rest
          in if read_bytes \<noteq> resp_size resp
             then Err (TooMuchData (resp_size resp) read_bytes (API_KEY rt) v)
             else Ok body)"

section \<open>Version negotiation\<close>

datatype sync_versions_error =
    NoWorkingVersion
  | SyncRequestError request_error
  | FlippedVersionRange ApiKey ApiVersion ApiVersion

text \<open>The ranges of a response, as the \<open>HashMap\<close> they are collected into.\<close>

fun collect_ranges :: "version_ranges \<Rightarrow> ApiVersionsResponseApiKey list \<Rightarrow>
    (sync_versions_error, version_ranges) outcome" where
  "collect_ranges m [] = Ok m"
| "collect_ranges m (x # xs) =
     bind_o (ApiVersionRange_new (avk_min_version x) (avk_max_version x)) (\<lambda>r.
     collect_ranges (m(avk_api_key x \<mapsto> r)) xs)"

definition is_flipped :: "ApiVersionsResponseApiKey \<Rightarrow> bool" where
  "is_flipped x \<longleftrightarrow> avk_min_version x > avk_max_version x"

text \<open>
  The two loops of \<open>sync_versions\<close>: over the upper bounds that are left, and over the answers
  that the requests of the connection get, one after the other.  It returns \<open>None\<close> while it
  waits for an answer that is not there.
\<close>

fun sync_loop :: "i16 list \<Rightarrow> (request_error, ApiVersionsResponse) outcome list \<Rightarrow>
    (sync_versions_error, version_ranges) outcome option" where
  "sync_loop [] answers = Some (Err NoWorkingVersion)"
| "sync_loop (upper_bound # bounds) [] = None"
| "sync_loop (upper_bound # bounds) (answer # answers) =
     (case answer of
        Ok response \<Rightarrow>
          (case (maybe_throttle (avr_throttle_time_ms response) ::
                  (sync_versions_error ErrorOrThrottle, unit) outcome) of
             Err (Throttle t) \<Rightarrow> sync_loop (upper_bound # bounds) answers
           | _ \<Rightarrow>
               if avr_error_code response \<noteq> None then sync_loop bounds answers
               else (case find is_flipped (avr_api_keys response) of
                   Some x \<Rightarrow> Some (Err (FlippedVersionRange (avk_api_key x) (avk_min_version x)
                     (avk_max_version x)))
                 | None \<Rightarrow> Some (collect_ranges Map.empty (avr_api_keys response))))
      | Err (NoVersionMatch _) \<Rightarrow> Some (Panic Unreachable)
      | Err (ReadVersionedError e) \<Rightarrow> sync_loop bounds answers
      | Err (ReadError e) \<Rightarrow> sync_loop bounds answers
      | Err (TooMuchData _ _ _ _) \<Rightarrow> sync_loop bounds answers
      | Err e \<Rightarrow> Some (Err (SyncRequestError e))
      | Panic p \<Rightarrow> Some (Panic p))"

definition sync_bounds :: "i16 list" where
  "sync_bounds =
     (let range = API_VERSION_RANGE ApiVersions_type
      in map word_of_int (rev [version_number (vr_min range)..version_number (vr_max range)]))"

definition sync_versions :: "(request_error, ApiVersionsResponse) outcome list \<Rightarrow>
    (sync_versions_error, version_ranges) outcome option" where
  "sync_versions answers = sync_loop sync_bounds answers"

text \<open>The ranges a version request is made with.\<close>

definition sync_ranges :: "i16 \<Rightarrow> version_ranges" where
  "sync_ranges upper_bound = [ApiVersions \<mapsto> version_range 0 upper_bound]"

lemma match_versions_Some:
  "match_versions a b = Some v \<Longrightarrow> vr_min a \<le> vr_max a \<Longrightarrow> vr_min b \<le> vr_max b \<Longrightarrow>
    in_range v a \<and> in_range v b"
  by (auto simp: match_versions_def in_range_def min_def split: if_splits)

lemma match_versions_highest:
  "match_versions a b = Some v \<Longrightarrow> in_range w a \<Longrightarrow> in_range w b \<Longrightarrow> w \<le> v"
  by (auto simp: match_versions_def in_range_def split: if_splits)

lemma match_versions_None:
  "match_versions a b = None \<longleftrightarrow> \<not> (vr_min a \<le> vr_max b \<and> vr_min b \<le> vr_max a)"
  by (simp add: match_versions_def)

lemma match_versions_complete:
  "in_range w a \<Longrightarrow> in_range w b \<Longrightarrow> \<exists>v. match_versions a b = Some v"
  by (auto simp: match_versions_def in_range_def)

section \<open>Properties of one request\<close>

text \<open>The header can be written exactly when the client ID fits a string of the protocol.\<close>

lemma write_NullableString_ok_iff:
  "(\<exists>bs. write_NullableString (Some s) = Ok bs) \<longleftrightarrow> length (as_bytes s) < 2 ^ 15"
  by (auto simp: write_NullableString_def i16_try_from_usize_def write_Int16_def)

lemma write_TaggedFields_Nil: "\<exists>bs. write_TaggedFields [] = Ok bs"
  using write_UnsignedVarint_total [of 0] by (simp add: write_TaggedFields_def u64_try_from_usize_def)

lemma header_version_le: "version_number (header_version_of rt v) \<le> 2"
  "1 \<le> version_number (header_version_of rt v)"
  by (simp_all add: header_version_of_def)

lemma write_request_header_ok_iff:
  "(\<exists>bs. write_RequestHeader (header_version_of rt v) (request_header_of client rt v cid) = Ok bs) \<longleftrightarrow>
    length (as_bytes client) < 2 ^ 15"
  using write_NullableString_ok_iff [of client] write_TaggedFields_Nil
  by (auto simp: write_RequestHeader_def request_header_of_def header_version_of_def Let_def
      write_Int16_def write_Int32_def write_or_default_def)

lemma write_request_header_no_panic:
  "\<not> is_panic (write_RequestHeader (header_version_of rt v) h)"
  unfolding write_RequestHeader_def Let_def
  by (intro no_panic_intros header_version_le)

lemma encode_request_panics_iff:
  assumes "\<not> is_panic (msg v)"
  shows "is_panic (encode_request client rt msg v cid) \<longleftrightarrow> 2 ^ 15 \<le> length (as_bytes client)"
proof (cases "write_RequestHeader (header_version_of rt v) (request_header_of client rt v cid)")
  case (Ok bs)
  with write_request_header_ok_iff [of rt v client cid] assms show ?thesis
    by (auto simp: encode_request_def no_panic_bind_o)
next
  case (Err e)
  with write_request_header_ok_iff [of rt v client cid] show ?thesis
    by (simp add: encode_request_def)
next
  case (Panic p)
  with write_request_header_no_panic [of rt v "request_header_of client rt v cid"] show ?thesis
    by simp
qed

text \<open>What a broker finds at the front of a request.\<close>

lemma encode_request_header:
  assumes "encode_request client rt msg v cid = Ok bs"
  obtains body where "msg v = Ok body"
    "read_RequestHeader (header_version_of rt v) (bs @ rest, e) =
      Ok (\<lparr>request_api_key = ApiKey_from_Int16 (Int16_from_ApiKey (API_KEY rt)),
           request_api_version = v, rqh_correlation_id = cid, client_id = Some (Some client),
           rqh_tagged_fields = (if use_tagged_fields_in_request rt v then Some [] else None)\<rparr>,
         (body @ rest, e))"
proof -
  from assms obtain h body where h: "bs = h @ body" "msg v = Ok body"
    "write_RequestHeader (header_version_of rt v) (request_header_of client rt v cid) = Ok h"
    by (auto simp: encode_request_def split: outcome.splits)
  from request_header.roundtrip [OF h(3), of "body @ rest" e] h(1,2) show thesis
    by (intro that [of body])
      (simp_all add: norm_RequestHeader_def request_header_of_def header_version_of_def)
qed

text \<open>A version that the request type does not support is never chosen.\<close>

definition wf_type :: "request_type \<Rightarrow> bool" where
  "wf_type rt \<longleftrightarrow> vr_min (API_VERSION_RANGE rt) \<le> vr_max (API_VERSION_RANGE rt)"

definition wf_ranges :: "version_ranges \<Rightarrow> bool" where
  "wf_ranges m \<longleftrightarrow> (\<forall>k r. m k = Some r \<longrightarrow> vr_min r \<le> vr_max r)"

lemma choose_version_in_range:
  assumes "choose_version rt m = Ok v" and "wf_type rt" and "wf_ranges m"
  shows "in_range v (API_VERSION_RANGE rt)" "\<exists>r. m (API_KEY rt) = Some r \<and> in_range v r"
  using assms
  by (auto simp: choose_version_def bind_eq_Some_conv wf_type_def wf_ranges_def
      dest!: match_versions_Some)

lemma decode_response_no_panic:
  assumes "response_reader rd rt" and "in_range v (API_VERSION_RANGE rt)"
  shows "\<not> is_panic (decode_response rt rd v resp)"
  using response_reader.no_panic [OF assms, of "(resp_data resp, None)"]
  by (auto simp: decode_response_def Let_def split: outcome.splits prod.splits)

section \<open>Properties of the version negotiation\<close>

lemma collect_ranges_ok:
  assumes "\<forall>x \<in> set xs. \<not> is_flipped x"
  shows "\<exists>m'. collect_ranges m xs = Ok m' \<and> (wf_ranges m \<longrightarrow> wf_ranges m')"
  using assms
proof (induction xs arbitrary: m)
  case Nil
  show ?case by simp
next
  case (Cons x xs)
  define r where "r = \<lparr>vr_min = avk_min_version x, vr_max = avk_max_version x\<rparr>"
  from Cons.prems have le: "avk_min_version x \<le> avk_max_version x"
    by (simp add: is_flipped_def not_less)
  then have "ApiVersionRange_new (avk_min_version x) (avk_max_version x) =
      (Ok r :: (sync_versions_error, ApiVersionRange) outcome)"
    by (simp add: ApiVersionRange_new_def less_eq_ApiVersion_def r_def)
  moreover from le have "wf_ranges m \<Longrightarrow> wf_ranges (m(avk_api_key x \<mapsto> r))"
    by (auto simp: wf_ranges_def r_def)
  ultimately show ?case
    using Cons.IH [of "m(avk_api_key x \<mapsto> r)"] Cons.prems
    by (auto simp del: fun_upd_apply)
qed

lemma find_flipped_None: "find is_flipped xs = None \<longleftrightarrow> (\<forall>x \<in> set xs. \<not> is_flipped x)"
  by (auto simp: find_None_iff)

lemma wf_ranges_empty [simp]: "wf_ranges Map.empty"
  by (simp add: wf_ranges_def)

text \<open>Answers that the requests of the negotiation can get: they do not panic, and a version is
  always found (\<open>sync_request_matches\<close>).\<close>

definition sync_answer :: "(request_error, ApiVersionsResponse) outcome \<Rightarrow> bool" where
  "sync_answer a \<longleftrightarrow> \<not> is_panic a \<and> (\<forall>k. a \<noteq> Err (NoVersionMatch k))"

lemma sync_request_matches:
  assumes "upper_bound \<in> set sync_bounds"
  shows "choose_version ApiVersions_type (sync_ranges upper_bound) = Ok (ApiVersion upper_bound)"
proof -
  have "upper_bound \<in> {0, 1, 2, 3}"
    using assms by (auto simp: sync_bounds_def ApiVersions_type_def version_range_def upto.simps)
  then show ?thesis
    by (auto simp: choose_version_def sync_ranges_def ApiVersions_type_def match_versions_def
        version_range_def less_eq_ApiVersion_def min_def)
qed

lemma sync_loop_ok:
  assumes "\<forall>a \<in> set answers. sync_answer a" and "sync_loop bounds answers = Some r"
  shows "\<not> is_panic r \<and> (\<forall>m. r = Ok m \<longrightarrow> wf_ranges m)"
  using assms
proof (induction bounds answers rule: sync_loop.induct)
  case (3 upper_bound bounds answer answers)
  show ?case
  proof (cases answer)
    case (Ok response)
    consider t where "maybe_throttle (avr_throttle_time_ms response) =
        (Err (Throttle t) :: (sync_versions_error ErrorOrThrottle, unit) outcome)"
      | "maybe_throttle (avr_throttle_time_ms response) =
        (Ok () :: (sync_versions_error ErrorOrThrottle, unit) outcome)"
      using maybe_throttle_result by metis
    then show ?thesis
    proof cases
      case 1
      with 3 Ok show ?thesis by simp
    next
      case 2
      with 3 Ok collect_ranges_ok [of "avr_api_keys response" Map.empty] show ?thesis
        by (auto simp: find_flipped_None split: if_splits option.splits)
    qed
  next
    case (Err e)
    with 3 show ?thesis by (cases e) (auto simp: sync_answer_def)
  next
    case (Panic p)
    with 3 show ?thesis by (simp add: sync_answer_def)
  qed
qed auto

end
