(* ===== verification/Transport.thy ===== *)
theory Transport
  imports Messenger
begin

text \<open>
  Setting up a connection, up to the first request of a client: \<open>Transport\<close> of
  \<open>src/src/connection/transport.rs\<close>, the settings of \<open>src/src/connection/transport/sasl.rs\<close>, and
  \<open>sync_versions\<close> and \<open>do_sasl\<close> of \<open>src/src/messenger.rs\<close> over a connection.

  What the crates do is in records of functions, which are parameters: \<open>transport_lib\<close> for TCP, SOCKS5
  and TLS, \<open>async_io\<close> for reading and writing, \<open>rsasl\<close> for the sessions of the crate \<open>rsasl\<close>.  They and the requests over the connection
  work on a world \<open>'w\<close>.  A loop that does not end is \<open>None\<close>.  A mechanism name of \<open>rsasl\<close> is its
  bytes.

  What is proved: the URL of a broker is taken apart into its host and port again, the
  negotiation over a connection is that of theory \<open>Messenger\<close>, and \<open>do_sasl\<close> succeeds exactly when the
  broker offers the mechanism and accepts every message of a session that comes to its end.
\<close>

section \<open>Host and port\<close>

text \<open>\<open>split(':')\<close>, \<open>Display\<close> of an \<open>i32\<close> and \<open>parse\<close> to a \<open>u16\<close>.\<close>

fun split_colon :: "u8 list \<Rightarrow> u8 list list" where
  "split_colon [] = [[]]"
| "split_colon (b # bs) =
     (if b = 58 then [] # split_colon bs
      else (case split_colon bs of [] \<Rightarrow> [[b]] | p # ps \<Rightarrow> (b # p) # ps))"

fun decimal :: "nat \<Rightarrow> u8 list" where
  "decimal n = (if n < 10 then [of_nat (48 + n)] else decimal (n div 10) @ [of_nat (48 + n mod 10)])"

definition i32_display :: "i32 \<Rightarrow> u8 list" where
  "i32_display i = (if sint i < 0 then 45 # decimal (nat (- sint i)) else decimal (nat (sint i)))"

datatype parse_int_error = EmptyInput | InvalidDigit | PosOverflow

fun parse_digits :: "nat \<Rightarrow> u8 list \<Rightarrow> parse_int_error + nat" where
  "parse_digits acc [] = Inr acc"
| "parse_digits acc (b # bs) =
     (if \<not> (48 \<le> b \<and> b \<le> 57) then Inl InvalidDigit
      else let next = acc * 10 + unat (b - 48)
        in if next \<ge> 2 ^ 16 then Inl PosOverflow else parse_digits next bs)"

definition parse_u16 :: "u8 list \<Rightarrow> parse_int_error + u16" where
  "parse_u16 bs =
     (if bs = [] then Inl EmptyInput
      else if bs = [43] \<or> bs = [45] then Inl InvalidDigit
      else map_sum id of_nat (parse_digits 0 (if hd bs = 43 then tl bs else bs)))"

section \<open>Transport\<close>

datatype transport_error =
    TransportIO io_error
  | InvalidHostPort rstring
  | InvalidPort parse_int_error
  | BadHostname
  | Socks5 string

text \<open>\<open>rustls::ClientConfig\<close>, of which nothing is looked at.\<close>

typedecl ClientConfig

datatype ('t, 'l) Transport = PlainStream 't | TlsStream 'l

record ('t, 'l, 'n, 'w) transport_lib =
  tl_tcp :: "rstring \<Rightarrow> 'w \<Rightarrow> (io_error + 't) \<times> 'w"
  tl_socks5 :: "'t \<Rightarrow> u8 list \<Rightarrow> u16 \<Rightarrow> 'w \<Rightarrow> (string + 't) \<times> 'w"
  tl_server_name :: "u8 list \<Rightarrow> 'n option"
  tl_tls :: "ClientConfig \<Rightarrow> 'n \<Rightarrow> 't \<Rightarrow> 'w \<Rightarrow> (io_error + 'l) \<times> 'w"

text \<open>The target of the proxy.\<close>

definition host_port :: "rstring \<Rightarrow> (transport_error, u8 list \<times> u16) outcome" where
  "host_port broker =
     (case split_colon (as_bytes broker) of
        host # port # _ \<Rightarrow>
          (case parse_u16 port of Inl e \<Rightarrow> Err (InvalidPort e) | Inr p \<Rightarrow> Ok (host, p))
      | _ \<Rightarrow> Err (InvalidHostPort broker))"

definition connect_tcp :: "('t, 'l, 'n, 'w) transport_lib \<Rightarrow> rstring \<Rightarrow> rstring option \<Rightarrow> 'w \<Rightarrow>
    (transport_error, 't) outcome \<times> 'w" where
  "connect_tcp lib broker socks5_proxy w =
     (case tl_tcp lib (case socks5_proxy of Some proxy \<Rightarrow> proxy | None \<Rightarrow> broker) w of
        (Inl e, w1) \<Rightarrow> (Err (TransportIO e), w1)
      | (Inr stream, w1) \<Rightarrow>
          (case socks5_proxy of
             None \<Rightarrow> (Ok stream, w1)
           | Some _ \<Rightarrow>
               (case host_port broker of
                  Ok (host, port) \<Rightarrow>
                    (case tl_socks5 lib stream host port w1 of
                       (Inl e, w2) \<Rightarrow> (Err (Socks5 e), w2)
                     | (Inr stream1, w2) \<Rightarrow> (Ok stream1, w2))
                | Err e \<Rightarrow> (Err e, w1)
                | Panic p \<Rightarrow> (Panic p, w1))))"

definition wrap_tls :: "('t, 'l, 'n, 'w) transport_lib \<Rightarrow> 't \<Rightarrow> rstring \<Rightarrow> ClientConfig option \<Rightarrow> 'w \<Rightarrow>
    (transport_error, ('t, 'l) Transport) outcome \<times> 'w" where
  "wrap_tls lib tcp_stream broker tls_config w =
     (case tls_config of
        None \<Rightarrow> (Ok (PlainStream tcp_stream), w)
      | Some config \<Rightarrow>
          (case split_colon (as_bytes broker) of
             [] \<Rightarrow> (Err (InvalidHostPort broker), w)
           | host # _ \<Rightarrow>
               (case tl_server_name lib host of
                  None \<Rightarrow> (Err BadHostname, w)
                | Some server_name \<Rightarrow>
                    (case tl_tls lib config server_name tcp_stream w of
                       (Inl e, w1) \<Rightarrow> (Err (TransportIO e), w1)
                     | (Inr stream, w1) \<Rightarrow> (Ok (TlsStream stream), w1)))))"

text \<open>The two without the features \<open>transport-socks5\<close> and \<open>transport-tls\<close>, which do not look at the settings.\<close>

definition connect_tcp_without_socks5 :: "('t, 'l, 'n, 'w) transport_lib \<Rightarrow> rstring \<Rightarrow> rstring option \<Rightarrow> 'w \<Rightarrow>
    (transport_error, 't) outcome \<times> 'w" where
  "connect_tcp_without_socks5 lib broker _ w =
     (case tl_tcp lib broker w of
        (Inl e, w1) \<Rightarrow> (Err (TransportIO e), w1)
      | (Inr stream, w1) \<Rightarrow> (Ok stream, w1))"

definition wrap_tls_without_tls :: "'t \<Rightarrow> rstring \<Rightarrow> 'c \<Rightarrow> 'w \<Rightarrow>
    (transport_error, ('t, 'l) Transport) outcome \<times> 'w" where
  "wrap_tls_without_tls tcp_stream _ _ w = (Ok (PlainStream tcp_stream), w)"

lemma transport_features:
  "connect_tcp_without_socks5 lib broker None = connect_tcp lib broker None"
  "wrap_tls_without_tls tcp_stream broker None = wrap_tls lib tcp_stream broker None"
  by (auto simp: fun_eq_iff connect_tcp_without_socks5_def connect_tcp_def wrap_tls_without_tls_def wrap_tls_def
      split: prod.splits sum.splits)

definition transport_connect :: "('t, 'l, 'n, 'w) transport_lib \<Rightarrow> rstring \<Rightarrow> ClientConfig option \<Rightarrow>
    rstring option \<Rightarrow> 'w \<Rightarrow> (transport_error, ('t, 'l) Transport) outcome \<times> 'w" where
  "transport_connect lib broker tls_config socks5_proxy w =
     (case connect_tcp lib broker socks5_proxy w of
        (Ok tcp_stream, w1) \<Rightarrow> wrap_tls lib tcp_stream broker tls_config w1
      | (Err e, w1) \<Rightarrow> (Err e, w1)
      | (Panic p, w1) \<Rightarrow> (Panic p, w1))"

text \<open>
  \<open>AsyncRead\<close> and \<open>AsyncWrite\<close>: a poll gives \<open>None\<close> while it is pending, a read gets the room in the
  buffer and gives the bytes that it puts there, a write gives how many bytes it took.  The crates
  implement them for the two streams; the impls for \<open>Transport\<close> pass every call on.
\<close>

record 's async_io =
  poll_read :: "usize \<Rightarrow> 's \<Rightarrow> (io_error + u8 list) option \<times> 's"
  poll_write :: "u8 list \<Rightarrow> 's \<Rightarrow> (io_error + usize) option \<times> 's"
  poll_flush :: "'s \<Rightarrow> (io_error + unit) option \<times> 's"
  poll_shutdown :: "'s \<Rightarrow> (io_error + unit) option \<times> 's"

fun delegate :: "('t \<Rightarrow> 'r \<times> 't) \<Rightarrow> ('l \<Rightarrow> 'r \<times> 'l) \<Rightarrow> ('t, 'l) Transport \<Rightarrow> 'r \<times> ('t, 'l) Transport" where
  "delegate f g (PlainStream inner) = map_prod id PlainStream (f inner)"
| "delegate f g (TlsStream inner) = map_prod id TlsStream (g inner)"

definition transport_io :: "'t async_io \<Rightarrow> 'l async_io \<Rightarrow> ('t, 'l) Transport async_io" where
  "transport_io tcp tls =
     \<lparr>poll_read = (\<lambda>room. delegate (poll_read tcp room) (poll_read tls room)),
      poll_write = (\<lambda>buf. delegate (poll_write tcp buf) (poll_write tls buf)),
      poll_flush = delegate (poll_flush tcp) (poll_flush tls),
      poll_shutdown = delegate (poll_shutdown tcp) (poll_shutdown tls)\<rparr>"

section \<open>Version negotiation over a connection\<close>

text \<open>The body of the version requests, with the name and version of the package.\<close>

definition sync_body :: ApiVersionsRequest where
  "sync_body = \<lparr>avq_client_software_name = Some (str ''rskafka''),
     avq_client_software_version = Some (str ''0.5.0''), avq_tagged_fields = Some []\<rparr>"

text \<open>What the loop does with an answer: wait and ask again, try the next bound, or return.\<close>

datatype sync_decision = SyncThrottled usize | SyncNextBound
  | SyncReturn "(sync_versions_error, version_ranges) outcome"

fun sync_decide :: "(request_error, ApiVersionsResponse) outcome \<Rightarrow> sync_decision" where
  "sync_decide (Ok response) =
     (case (maybe_throttle (avr_throttle_time_ms response) ::
             (sync_versions_error ErrorOrThrottle, unit) outcome) of
        Err (Throttle t) \<Rightarrow> SyncThrottled t
      | _ \<Rightarrow>
          if avr_error_code response \<noteq> None then SyncNextBound
          else SyncReturn (case find is_flipped (avr_api_keys response) of
              Some x \<Rightarrow> Err (FlippedVersionRange (avk_api_key x) (avk_min_version x) (avk_max_version x))
            | None \<Rightarrow> collect_ranges Map.empty (avr_api_keys response)))"
| "sync_decide (Err (NoVersionMatch _)) = SyncReturn (Panic Unreachable)"
| "sync_decide (Err (ReadVersionedError _)) = SyncNextBound"
| "sync_decide (Err (ReadError _)) = SyncNextBound"
| "sync_decide (Err (TooMuchData _ _ _ _)) = SyncNextBound"
| "sync_decide (Err e) = SyncReturn (Err (SyncRequestError e))"
| "sync_decide (Panic p) = SyncReturn (Panic p)"

partial_function (option) sync_run ::
    "(ApiVersionsRequest \<Rightarrow> version_ranges \<Rightarrow> 'w \<Rightarrow> (request_error, ApiVersionsResponse) outcome \<times> 'w) \<Rightarrow>
     (usize \<Rightarrow> 'w \<Rightarrow> 'w) \<Rightarrow> i16 list \<Rightarrow> 'w \<Rightarrow> ((sync_versions_error, version_ranges) outcome \<times> 'w) option" where
  "sync_run request sleep bounds w =
     (case bounds of
        [] \<Rightarrow> Some (Err NoWorkingVersion, w)
      | upper_bound # rest \<Rightarrow>
          (case request sync_body (sync_ranges upper_bound) w of
             (answer, w1) \<Rightarrow>
               (case sync_decide answer of
                  SyncThrottled t \<Rightarrow> sync_run request sleep bounds (sleep t w1)
                | SyncNextBound \<Rightarrow> sync_run request sleep rest w1
                | SyncReturn r \<Rightarrow> Some (r, w1))))"

section \<open>Authentication\<close>

record Credentials =
  cr_username :: rstring
  cr_password :: rstring

datatype SaslConfig = SaslPlain Credentials | ScramSha256 Credentials | ScramSha512 Credentials

fun sasl_credentials :: "SaslConfig \<Rightarrow> Credentials" where
  "sasl_credentials (SaslPlain c) = c"
| "sasl_credentials (ScramSha256 c) = c"
| "sasl_credentials (ScramSha512 c) = c"

fun sasl_mechanism :: "SaslConfig \<Rightarrow> rstring" where
  "sasl_mechanism (SaslPlain _) = str ''PLAIN''"
| "sasl_mechanism (ScramSha256 _) = str ''SCRAM-SHA-256''"
| "sasl_mechanism (ScramSha512 _) = str ''SCRAM-SHA-512''"

datatype sasl_error =
    SaslRequestError request_error
  | SaslApiError Error
  | InvalidSaslMechanism "u8 list"
  | SaslSessionError string
  | SaslUnsupported

text \<open>
  The crate \<open>rsasl\<close>: \<open>Mechname::parse\<close>, \<open>SASLConfig::with_credentials\<close>, \<open>SASLClient::start_suggested\<close> for one
  mechanism, and \<open>Session::step\<close>, which returns whether the session is running and what it has
  written.
\<close>

record ('g, 's) rsasl =
  rs_mechname :: "u8 list \<Rightarrow> bool"
  rs_config :: "rstring \<Rightarrow> rstring \<Rightarrow> 'g option"
  rs_start :: "'g \<Rightarrow> u8 list \<Rightarrow> 's option"
  rs_step :: "'s \<Rightarrow> u8 list option \<Rightarrow> string + bool \<times> u8 list \<times> 's"

text \<open>The requests over the connection.\<close>

record 'w sasl_link =
  sl_handshake :: "SaslHandshakeRequest \<Rightarrow> 'w \<Rightarrow> (request_error, SaslHandshakeResponse) outcome \<times> 'w"
  sl_authenticate :: "SaslAuthenticateRequest \<Rightarrow> 'w \<Rightarrow>
    (request_error, SaslAuthenticateResponse) outcome \<times> 'w"

definition sasl_handshake :: "'w sasl_link \<Rightarrow> rstring \<Rightarrow> 'w \<Rightarrow>
    (sasl_error, SaslHandshakeResponse) outcome \<times> 'w" where
  "sasl_handshake lk mechanism w =
     (case sl_handshake lk \<lparr>shq_mechanism = mechanism\<rparr> w of
        (r, w1) \<Rightarrow>
          (bind_o (map_err SaslRequestError r) (\<lambda>resp.
             case shr_error_code resp of Some err \<Rightarrow> Err (SaslApiError err) | None \<Rightarrow> Ok resp), w1))"

definition sasl_authentication :: "'w sasl_link \<Rightarrow> u8 list \<Rightarrow> 'w \<Rightarrow>
    (sasl_error, SaslAuthenticateResponse) outcome \<times> 'w" where
  "sasl_authentication lk auth_bytes w =
     (case sl_authenticate lk (SaslAuthenticateRequest_new auth_bytes) w of
        (r, w1) \<Rightarrow>
          (bind_o (map_err SaslRequestError r) (\<lambda>resp.
             case sar_error_code resp of Some err \<Rightarrow> Err (SaslApiError err) | None \<Rightarrow> Ok resp), w1))"

text \<open>The mechanism, if the broker supports it.\<close>

definition choose_mechanism :: "('g, 's) rsasl \<Rightarrow> u8 list \<Rightarrow> u8 list list \<Rightarrow> sasl_error + u8 list" where
  "choose_mechanism rs prefer mechanisms =
     (case find (\<lambda>m. \<not> rs_mechname rs m) mechanisms of
        Some m \<Rightarrow> Inl (InvalidSaslMechanism m)
      | None \<Rightarrow>
          if \<not> rs_mechname rs prefer then Inl (InvalidSaslMechanism prefer)
          else if prefer \<notin> set mechanisms then Inl SaslUnsupported
          else Inr prefer)"

partial_function (option) sasl_loop ::
    "('g, 's) rsasl \<Rightarrow> 'w sasl_link \<Rightarrow> 's \<Rightarrow> u8 list option \<Rightarrow> 'w \<Rightarrow> ((sasl_error, unit) outcome \<times> 'w) option" where
  "sasl_loop rs lk session data_received w =
     (case rs_step rs session data_received of
        Inl e \<Rightarrow> Some (Err (SaslSessionError e), w)
      | Inr (running, to_sent, session1) \<Rightarrow>
          if \<not> running then Some (Ok (), w)
          else (case sasl_authentication lk to_sent w of
             (Ok response, w1) \<Rightarrow> sasl_loop rs lk session1 (Some (sar_auth_bytes response)) w1
           | (Err e, w1) \<Rightarrow> Some (Err e, w1)
           | (Panic p, w1) \<Rightarrow> Some (Panic p, w1)))"

definition do_sasl :: "('g, 's) rsasl \<Rightarrow> 'w sasl_link \<Rightarrow> SaslConfig \<Rightarrow> 'w \<Rightarrow>
    ((sasl_error, unit) outcome \<times> 'w) option" where
  "do_sasl rs lk config w =
     (case sasl_handshake lk (sasl_mechanism config) w of
        (Err e, w1) \<Rightarrow> Some (Err e, w1)
      | (Panic p, w1) \<Rightarrow> Some (Panic p, w1)
      | (Ok resp, w1) \<Rightarrow>
          (case rs_config rs (cr_username (sasl_credentials config)) (cr_password (sasl_credentials config)) of
             None \<Rightarrow> Some (Panic ExpectFailed, w1)
           | Some cfg \<Rightarrow>
               (case choose_mechanism rs (as_bytes (sasl_mechanism config))
                       (map as_bytes (or_empty (shr_mechanisms resp))) of
                  Inl e \<Rightarrow> Some (Err e, w1)
                | Inr mechanism \<Rightarrow>
                    (case rs_start rs cfg mechanism of
                       None \<Rightarrow> Some (Err SaslUnsupported, w1)
                     | Some session \<Rightarrow> sasl_loop rs lk session None w1))))"

section \<open>The URL of a broker\<close>

lemma split_colon_not_Nil: "split_colon bs \<noteq> []"
  by (induction bs) (auto split: list.split)

lemma split_colon_single: "58 \<notin> set bs \<Longrightarrow> split_colon bs = [bs]"
  by (induction bs) auto

lemma split_colon_append:
  "58 \<notin> set host \<Longrightarrow> split_colon (host @ 58 # rest) = host # split_colon rest"
  by (induction host) auto

declare decimal.simps [simp del]

lemma decimal_digits: "set (decimal n) \<subseteq> of_nat ` {48..57}"
proof (induction n rule: decimal.induct)
  case (1 n)
  have "(of_nat (48 + n mod 10) :: u8) \<in> of_nat ` {48..57}" by (rule imageI) auto
  moreover have "n < 10 \<Longrightarrow> (of_nat (48 + n) :: u8) \<in> of_nat ` {48..57}" by (intro imageI) auto
  ultimately show ?case using 1 by (subst decimal.simps) auto
qed

lemma digit_byte:
  assumes "d < 10"
  shows "(48 :: u8) \<le> of_nat (48 + d)" "(of_nat (48 + d) :: u8) \<le> 57"
    "unat ((of_nat (48 + d) :: u8) - 48) = d" "(of_nat (48 + d) :: u8) < 0x80"
proof -
  have "unat (of_nat (48 + d) :: u8) = 48 + d" using assms by (subst unat_of_nat) simp
  then show "(48 :: u8) \<le> of_nat (48 + d)" "(of_nat (48 + d) :: u8) \<le> 57"
      "(of_nat (48 + d) :: u8) < 0x80"
    using assms by (simp_all only: word_le_nat_alt word_less_nat_alt) simp_all
  have "(of_nat (48 + d) :: u8) - 48 = of_nat d" by simp
  then show "unat ((of_nat (48 + d) :: u8) - 48) = d"
    using assms by (simp only: unat_of_nat) simp
qed

lemma parse_decimal:
  "n < 2 ^ 16 \<Longrightarrow> parse_digits 0 (decimal n @ rest) = parse_digits n rest"
proof (induction n arbitrary: rest rule: decimal.induct)
  case (1 n)
  show ?case
  proof (cases "n < 10")
    case True
    then show ?thesis using digit_byte [of n] 1 by (subst decimal.simps) (simp del: of_nat_add)
  next
    case False
    with 1 have "parse_digits 0 (decimal n @ rest) = parse_digits (n div 10) (of_nat (48 + n mod 10) # rest)"
      by (subst decimal.simps) (simp del: of_nat_add parse_digits.simps)
    then show ?thesis using digit_byte [of "n mod 10"] 1(2) by (simp del: of_nat_add add: Let_def)
  qed
qed

lemma digit_range:
  fixes b :: u8
  assumes "b \<in> of_nat ` {48..57}"
  shows "48 \<le> b \<and> b \<le> 57 \<and> b < 0x80"
proof -
  from assms obtain n where "48 \<le> n" "n \<le> 57" "b = of_nat n" by auto
  then have "n - 48 < 10" "b = of_nat (48 + (n - 48))" by simp_all
  with digit_byte [of "n - 48"] show ?thesis by simp
qed

lemma decimal_bytes:
  assumes "b \<in> set (decimal n)"
  shows "b \<noteq> 43" "b \<noteq> 45" "b \<noteq> 58" "b < 0x80"
  using assms decimal_digits [of n] digit_range [of b] by auto

lemma decimal_not_Nil: "decimal n \<noteq> []"
  by (subst decimal.simps) simp

lemma parse_u16_decimal:
  assumes "n < 2 ^ 16"
  shows "parse_u16 (decimal n) = Inr (of_nat n)"
proof -
  have "hd (decimal n) \<in> set (decimal n)" using decimal_not_Nil by simp
  then have "hd (decimal n) \<noteq> 43" "decimal n \<noteq> [43]" "decimal n \<noteq> [45]"
    using decimal_bytes [of "hd (decimal n)" n] by auto
  with parse_decimal [OF assms, of "[]"] show ?thesis by (simp add: parse_u16_def decimal_not_Nil)
qed

lemma i32_display_ascii: "list_all (\<lambda>b. b < 0x80) (i32_display i)"
  by (auto simp: i32_display_def list_all_iff dest: decimal_bytes(4))

section \<open>The negotiation and its answers\<close>

lemma sync_loop_decide:
  "sync_loop (upper_bound # bounds) (answer # answers) =
     (case sync_decide answer of
        SyncThrottled t \<Rightarrow> sync_loop (upper_bound # bounds) answers
      | SyncNextBound \<Rightarrow> sync_loop bounds answers
      | SyncReturn r \<Rightarrow> Some r)"
  by (cases answer rule: sync_decide.cases) (auto split: outcome.split ErrorOrThrottle.split option.split)

lemma sync_decide_ok:
  assumes "sync_decide answer = SyncReturn (Ok ranges)"
  shows "wf_ranges ranges"
proof -
  from assms obtain response where "answer = Ok response"
    by (cases answer rule: sync_decide.cases) simp_all
  with assms have "find is_flipped (avr_api_keys response) = None"
    and "collect_ranges Map.empty (avr_api_keys response) = Ok ranges"
    by (simp_all split: outcome.splits ErrorOrThrottle.splits option.splits if_splits)
  with collect_ranges_ok [of "avr_api_keys response" Map.empty] show ?thesis
    by (auto simp: find_flipped_None)
qed

text \<open>The requests of the loop get these answers, one after the other.\<close>

lemma sync_run_answers:
  assumes "sync_run request sleep bounds w = Some y"
  shows "\<exists>answers. sync_loop bounds answers = Some (fst y)"
proof (rule sync_run.raw_induct
    [where P = "\<lambda>_ _ bounds _ y. \<exists>answers. sync_loop bounds answers = Some (fst y)", OF _ assms])
  fix run :: "(ApiVersionsRequest \<Rightarrow> version_ranges \<Rightarrow> 'a \<Rightarrow> (request_error, ApiVersionsResponse) outcome \<times> 'a) \<Rightarrow>
     (usize \<Rightarrow> 'a \<Rightarrow> 'a) \<Rightarrow> i16 list \<Rightarrow> 'a \<Rightarrow> ((sync_versions_error, version_ranges) outcome \<times> 'a) option"
  fix request :: "ApiVersionsRequest \<Rightarrow> version_ranges \<Rightarrow> 'a \<Rightarrow> (request_error, ApiVersionsResponse) outcome \<times> 'a"
    and sleep :: "usize \<Rightarrow> 'a \<Rightarrow> 'a" and bounds :: "i16 list" and w :: 'a
    and y :: "(sync_versions_error, version_ranges) outcome \<times> 'a"
  assume IH: "\<And>request sleep bounds w y. run request sleep bounds w = Some y \<Longrightarrow>
      \<exists>answers. sync_loop bounds answers = Some (fst y)"
    and run: "(case bounds of
        [] \<Rightarrow> Some (Err NoWorkingVersion, w)
      | upper_bound # rest \<Rightarrow>
          (case request sync_body (sync_ranges upper_bound) w of
             (answer, w1) \<Rightarrow>
               (case sync_decide answer of
                  SyncThrottled t \<Rightarrow> run request sleep bounds (sleep t w1)
                | SyncNextBound \<Rightarrow> run request sleep rest w1
                | SyncReturn r \<Rightarrow> Some (r, w1)))) = Some y"
  show "\<exists>answers. sync_loop bounds answers = Some (fst y)"
  proof (cases bounds)
    case Nil
    with run show ?thesis by (intro exI [of _ "[]"]) auto
  next
    case (Cons upper_bound rest)
    obtain answer w1 where "request sync_body (sync_ranges upper_bound) w = (answer, w1)" by force
    with run Cons obtain answers where "sync_loop bounds (answer # answers) = Some (fst y)"
      by (simp only: sync_loop_decide) (auto split: sync_decision.splits dest: IH)
    then show ?thesis by blast
  qed
qed

lemma sync_loop_wf: "sync_loop bounds answers = Some (Ok ranges) \<Longrightarrow> wf_ranges ranges"
proof (induction answers arbitrary: bounds)
  case Nil
  then show ?case by (cases bounds) simp_all
next
  case (Cons answer answers)
  then show ?case
    by (cases bounds, simp, simp only: sync_loop_decide)
      (auto split: sync_decision.splits intro: sync_decide_ok)
qed

lemma sync_run_ok: "sync_run request sleep bounds w = Some (Ok ranges, w') \<Longrightarrow> wf_ranges ranges"
  using sync_run_answers [of request sleep bounds w] sync_loop_wf by fastforce

section \<open>When authentication succeeds\<close>

text \<open>The messages of a session that the broker accepts, up to its end.\<close>

inductive sasl_exchange :: "('g, 's) rsasl \<Rightarrow> 'w sasl_link \<Rightarrow> 's \<Rightarrow> u8 list option \<Rightarrow> 'w \<Rightarrow> 'w \<Rightarrow> bool"
  for rs lk where
  finished: "rs_step rs session data = Inr (False, to_sent, session1) \<Longrightarrow>
    sasl_exchange rs lk session data w w"
| accepted: "rs_step rs session data = Inr (True, to_sent, session1) \<Longrightarrow>
    sl_authenticate lk (SaslAuthenticateRequest_new to_sent) w = (Ok response, w1) \<Longrightarrow>
    sar_error_code response = None \<Longrightarrow>
    sasl_exchange rs lk session1 (Some (sar_auth_bytes response)) w1 w2 \<Longrightarrow>
    sasl_exchange rs lk session data w w2"

definition authenticates :: "('g, 's) rsasl \<Rightarrow> 'w sasl_link \<Rightarrow> SaslConfig \<Rightarrow> 'w \<Rightarrow> 'w \<Rightarrow> bool" where
  "authenticates rs lk config w w' \<longleftrightarrow>
     (\<exists>response w1 cfg session.
        sl_handshake lk \<lparr>shq_mechanism = sasl_mechanism config\<rparr> w = (Ok response, w1) \<and>
        shr_error_code response = None \<and>
        sasl_mechanism config \<in> set (or_empty (shr_mechanisms response)) \<and>
        (\<forall>m \<in> set (or_empty (shr_mechanisms response)). rs_mechname rs (as_bytes m)) \<and>
        rs_config rs (cr_username (sasl_credentials config)) (cr_password (sasl_credentials config)) = Some cfg \<and>
        rs_start rs cfg (as_bytes (sasl_mechanism config)) = Some session \<and>
        sasl_exchange rs lk session None w1 w')"

lemma sasl_authentication_Ok_iff:
  "sasl_authentication lk bytes w = (Ok response, w1) \<longleftrightarrow>
     sl_authenticate lk (SaslAuthenticateRequest_new bytes) w = (Ok response, w1) \<and> sar_error_code response = None"
  by (auto simp: sasl_authentication_def split: prod.splits option.splits)

lemma sasl_loop_exchange:
  assumes "sasl_exchange rs lk session data w w'"
  shows "sasl_loop rs lk session data w = Some (Ok (), w')"
  using assms
  by induction (simp_all add: sasl_loop.simps sasl_authentication_Ok_iff [THEN iffD2])

lemma sasl_loop_Ok:
  assumes "sasl_loop rs lk session data w = Some y" and "fst y = Ok ()"
  shows "sasl_exchange rs lk session data w (snd y)"
proof -
  have "fst y = Ok () \<longrightarrow> sasl_exchange rs lk session data w (snd y)"
    using assms(1)
    by (rule sasl_loop.raw_induct
        [where P = "\<lambda>rs lk session data w y. fst y = Ok () \<longrightarrow> sasl_exchange rs lk session data w (snd y)", rotated])
      (auto split: sum.splits prod.splits if_splits outcome.splits simp: sasl_authentication_Ok_iff
        intro: sasl_exchange.intros)
  with assms(2) show ?thesis by simp
qed

lemma choose_mechanism_Inr_iff:
  "choose_mechanism rs prefer mechanisms = Inr m \<longleftrightarrow>
     m = prefer \<and> prefer \<in> set mechanisms \<and> (\<forall>x \<in> set mechanisms. rs_mechname rs x)"
  by (auto simp: choose_mechanism_def find_None_iff find_Some_iff split: option.splits)

lemma sasl_handshake_Ok_iff:
  "sasl_handshake lk mechanism w = (Ok response, w1) \<longleftrightarrow>
     sl_handshake lk \<lparr>shq_mechanism = mechanism\<rparr> w = (Ok response, w1) \<and> shr_error_code response = None"
  by (auto simp: sasl_handshake_def split: prod.splits option.splits)

lemma sasl_loop_Ok_iff:
  "sasl_loop rs lk session data w = Some (Ok (), w') \<longleftrightarrow> sasl_exchange rs lk session data w w'"
  using sasl_loop_exchange sasl_loop_Ok by fastforce

lemma mem_as_bytes: "as_bytes m \<in> as_bytes ` set ms \<longleftrightarrow> m \<in> set ms"
  by (auto simp: as_bytes_inject_iff)

lemma do_sasl_Ok_iff: "do_sasl rs lk config w = Some (Ok (), w') \<longleftrightarrow> authenticates rs lk config w w'"
proof
  assume "do_sasl rs lk config w = Some (Ok (), w')"
  then show "authenticates rs lk config w w'"
    by (auto simp: do_sasl_def authenticates_def choose_mechanism_Inr_iff mem_as_bytes sasl_loop_Ok_iff
        sasl_handshake_Ok_iff split: prod.splits outcome.splits option.splits sum.splits)
next
  assume "authenticates rs lk config w w'"
  then obtain response w1 cfg session where
    "sasl_handshake lk (sasl_mechanism config) w = (Ok response, w1)"
    "choose_mechanism rs (as_bytes (sasl_mechanism config)) (map as_bytes (or_empty (shr_mechanisms response))) =
      Inr (as_bytes (sasl_mechanism config))"
    "rs_config rs (cr_username (sasl_credentials config)) (cr_password (sasl_credentials config)) = Some cfg"
    "rs_start rs cfg (as_bytes (sasl_mechanism config)) = Some session"
    "sasl_loop rs lk session None w1 = Some (Ok (), w')"
    by (auto simp: authenticates_def choose_mechanism_Inr_iff mem_as_bytes sasl_handshake_Ok_iff sasl_loop_Ok_iff)
  then show "do_sasl rs lk config w = Some (Ok (), w')" by (simp add: do_sasl_def)
qed

section \<open>The streams of a transport\<close>

text \<open>What the documentation of the two traits promises, and that a transport keeps it.\<close>

lemma delegate_iff:
  "delegate f g s = (r, s') \<longleftrightarrow> (\<exists>t t'. s = PlainStream t \<and> f t = (r, t') \<and> s' = PlainStream t') \<or>
    (\<exists>t t'. s = TlsStream t \<and> g t = (r, t') \<and> s' = TlsStream t')"
  by (cases s) (auto simp: map_prod_def split: prod.splits)

locale byte_stream =
  fixes io :: "'s async_io"
  assumes read_fits: "poll_read io room s = (Some (Inr bs), s') \<Longrightarrow> length bs \<le> room"
    and write_fits: "poll_write io buf s = (Some (Inr n), s') \<Longrightarrow> n \<le> length buf"

locale two_streams = tcp: byte_stream tcp + tls: byte_stream tls
  for tcp :: "'t async_io" and tls :: "'l async_io"

sublocale two_streams \<subseteq> transport: byte_stream "transport_io tcp tls"
proof
  show "length bs \<le> room" if "poll_read (transport_io tcp tls) room s = (Some (Inr bs), s')" for room s bs s'
    using that by (auto simp: transport_io_def delegate_iff dest: tcp.read_fits tls.read_fits)
  show "n \<le> length buf" if "poll_write (transport_io tcp tls) buf s = (Some (Inr n), s')" for buf s n s'
    using that by (auto simp: transport_io_def delegate_iff dest: tcp.write_fits tls.write_fits)
qed

text \<open>The streams and sinks of the theories below, as the two directions of one stream.\<close>

definition pipe_io :: "(stream \<times> sink) async_io" where
  "pipe_io =
     \<lparr>poll_read = (\<lambda>room ((bs, e), w).
        if bs = [] then (Some (case e of Some x \<Rightarrow> Inl x | None \<Rightarrow> Inr []), (([], e), w))
        else (Some (Inr (take room bs)), ((drop room bs, e), w))),
      poll_write = (\<lambda>buf (s, w). case write_all buf w of
          (Ok _, w') \<Rightarrow> (Some (Inr (length buf)), (s, w'))
        | (Err x, w') \<Rightarrow> (Some (Inl x), (s, w'))
        | (Panic _, w') \<Rightarrow> (None, (s, w'))),
      poll_flush = (\<lambda>x. (Some (Inr ()), x)),
      poll_shutdown = (\<lambda>x. (Some (Inr ()), x))\<rparr>"

interpretation pipes: two_streams pipe_io pipe_io
  by unfold_locales
    (auto simp: pipe_io_def write_all_def split: if_splits option.splits)

end
