(* ===== verification/Client_Errors.thy ===== *)
theory Client_Errors
  imports Transport
begin

text \<open>
  \<open>src/src/client/error.rs\<close>, the errors of \<open>src/src/connection.rs\<close> and \<open>src/src/backoff.rs\<close>, and
  the retry policies: \<open>maybe_retry\<close> of \<open>src/src/client/partition.rs\<close> and
  \<open>src/src/client/controller.rs\<close> decide for the error of an attempt whether the cached broker is
  given up and whether there is another attempt.

  The texts of \<open>InvalidResponse\<close> are reduced to the case and the values in them.
\<close>

section \<open>Errors\<close>

datatype request_context =
    OfTopic rstring
  | OfPartition rstring i32
  | OfFetch rstring i32 i64

datatype server_error_response =
    LeaderForward i32 i32
  | PartitionFetchState i64 "i64 option"

datatype invalid_response =
    NotOneTopic usize
  | NotOnePartition usize
  | OtherTopic rstring rstring
  | OtherPartition i32 i32
  | TimestampOverflow i64 i64
  | InvalidTimestamp i64
  | AmbiguousTimestamp i64
  | NotOneOffset usize
  | NullOffsets
  | NoSuchPartition i32 rstring
  | NoSuchLeader i32
  | NoSuchController i32
  | NullController

text \<open>
  A retry that gave up has the errors of its last attempt; a \<open>RequestError\<close> among them is in
  \<open>ConnMetadata\<close>.
\<close>

datatype connection_error =
    ConnMetadata request_error
  | ConnTransport rstring transport_error
  | ConnSyncVersions sync_versions_error
  | ConnRetryFailed "connection_error list"
  | ConnSaslFailed sasl_error

datatype client_error =
    Connection connection_error
  | Request request_error
  | InvalidResponse invalid_response
  | ServerError Error "rstring option" request_context "server_error_response option" bool
  | RetryFailed client_error
  | Timeout

section \<open>Retry policies\<close>

text \<open>What a policy does with an error: give up the cached broker, and try again or fail.\<close>

record verdict =
  v_invalidate :: bool
  v_retry :: bool

datatype UnknownTopicHandling = HandleError | HandleRetry

text \<open>A request error that means that the connection is broken.\<close>

fun broken_connection :: "client_error \<Rightarrow> bool" where
  "broken_connection (Request (Poisoned _)) = True"
| "broken_connection (Request (RequestIO _)) = True"
| "broken_connection (Connection _) = True"
| "broken_connection _ = False"

text \<open>The \<open>match error\<close> of \<open>maybe_retry\<close> of the partition client.\<close>

definition partition_verdict :: "UnknownTopicHandling \<Rightarrow> client_error \<Rightarrow> verdict" where
  "partition_verdict handling e =
     (if broken_connection e then \<lparr>v_invalidate = True, v_retry = True\<rparr>
      else case e of
        ServerError protocol_error _ _ _ _ \<Rightarrow>
          if protocol_error = InvalidReplicationFactor \<or> protocol_error = LeaderNotAvailable \<or>
             protocol_error = OffsetNotAvailable
          then \<lparr>v_invalidate = False, v_retry = True\<rparr>
          else if protocol_error = NotLeaderOrFollower
          then \<lparr>v_invalidate = True, v_retry = True\<rparr>
          else if protocol_error = UnknownTopicOrPartition
          then \<lparr>v_invalidate = True, v_retry = (handling = HandleRetry)\<rparr>
          else \<lparr>v_invalidate = False, v_retry = False\<rparr>
      | _ \<Rightarrow> \<lparr>v_invalidate = False, v_retry = False\<rparr>)"

text \<open>The same of the controller client.\<close>

definition controller_verdict :: "client_error \<Rightarrow> verdict" where
  "controller_verdict e =
     (if broken_connection e then \<lparr>v_invalidate = True, v_retry = True\<rparr>
      else case e of
        ServerError protocol_error _ _ _ _ \<Rightarrow>
          if protocol_error = NotController
          then \<lparr>v_invalidate = True, v_retry = True\<rparr>
          else \<lparr>v_invalidate = False, v_retry = False\<rparr>
      | _ \<Rightarrow> \<lparr>v_invalidate = False, v_retry = False\<rparr>)"

end
