(* ===== verification/Varint_Crate.thy ===== *)
theory Varint_Crate
  imports Primitives
begin

text \<open>
  What the program relies on of the crate \<open>integer_encoding\<close>: the locale \<open>varint_crate\<close>
  states its documented behaviour (signed integers in the variable-length zig-zag encoding of
  Protocol Buffers, read until a byte without continuation bit, an I/O error otherwise) as laws
  of the parameter \<open>varint_lib\<close>.  The zig-zag encoding over base-128 groups satisfies them
  (\<open>zigzag_varint\<close>), which shows that the laws can hold.
\<close>

locale varint_crate =
  fixes V :: varint_lib
  assumes varlong_reader: "safe_reader (read_Varlong V)"
    and read_write_i64: "read_varint V (write_varint_i64 V x @ rest, e) = Ok (x, (rest, e))"
    and read_write_i32: "read_varint V (write_varint_i32 V y @ rest, e) = Ok (scast y, (rest, e))"
begin

lemma safe_read_Varlong: "safe_reader (read_Varlong V)"
  by (rule varlong_reader)

lemma read_Varint_eq:
  "read_Varint V = rbind (read_Varlong V) (\<lambda>i. rlift (ok_or Overflow (i32_try_from_i64 i)))"
  by (simp add: read_Varint_def read_Varlong_def [abs_def])

lemma safe_read_Varint: "safe_reader (read_Varint V)"
  unfolding read_Varint_eq by (auto intro!: reader_intros varlong_reader)

lemma codec_Varlong: "codec (read_Varlong V) (write_Varlong V)"
  by (rule codecI) (auto simp: read_Varlong_def write_Varlong_def read_write_i64)

lemma codec_Varint: "codec (read_Varint V) (write_Varint V)"
  by (rule codecI) (auto simp: read_Varint_def write_Varint_def read_write_i32)

lemmas varint_roundtrip = codec_roundtrip [OF codec_Varint] codec_roundtrip [OF codec_Varlong]

text \<open>A \<open>Varint\<close> outside the range of \<open>i32\<close> is an error, not a truncated value.\<close>

lemma read_Varint_range:
  assumes "read_Varlong V s = Ok (i, s')"
  shows "read_Varint V s =
    (if - (2 ^ 31) \<le> sint i \<and> sint i < 2 ^ 31 then Ok (scast i, s') else Err Overflow)"
  using assms by (simp add: read_Varint_eq i32_try_from_i64_def)

end

section \<open>Zig-zag encoding\<close>

definition zigzag :: "i64 \<Rightarrow> u64" where
  "zigzag x = push_bit 1 x XOR signed_drop_bit 63 x"

definition unzigzag :: "u64 \<Rightarrow> i64" where
  "unzigzag u = drop_bit 1 u XOR - (u AND 1)"

definition zz_read :: "stream \<Rightarrow> (io_error, i64 \<times> stream) outcome" where
  "zz_read s = (case read_UnsignedVarint s of
      Ok (u, s') \<Rightarrow> Ok (unzigzag u, s')
    | Err (IO k) \<Rightarrow> Err k
    | Err _ \<Rightarrow> Err OtherIo
    | Panic p \<Rightarrow> Panic p)"

definition zz_write :: "i64 \<Rightarrow> u8 list" where
  "zz_write x = (case write_UnsignedVarint (zigzag x) of Ok bs \<Rightarrow> bs | _ \<Rightarrow> [])"

definition zigzag_varint :: varint_lib where
  "zigzag_varint = \<lparr>read_varint = zz_read, write_varint_i32 = (\<lambda>x. zz_write (scast x)),
     write_varint_i64 = zz_write\<rparr>"

lemma signed_drop_63: "signed_drop_bit 63 (x :: i64) = (if bit x 63 then -1 else 0)"
  by (rule bit_word_eqI) (auto simp: bit_simps Suc_le_eq)

lemma and_one_bit0: "(u :: u64) AND 1 = (if bit u 0 then 1 else 0)"
  by (rule bit_word_eqI) (auto simp: bit_simps intro: gr0I)

lemma drop_push_63: "drop_bit 1 (push_bit 1 (x :: i64)) = take_bit 63 x"
  by (rule bit_word_eqI)
    (simp only: bit_drop_bit_eq bit_push_bit_iff bit_take_bit_iff o_apply possible_bit_word,
     auto)

lemma unzigzag_zigzag [simp]: "unzigzag (zigzag x) = x"
proof -
  have bit0: "bit (zigzag x) 0 \<longleftrightarrow> bit x 63"
    by (simp add: zigzag_def signed_drop_63 bit_simps bit_0)
  have half: "drop_bit 1 (zigzag x) = drop_bit 1 (signed_drop_bit 63 x) XOR take_bit 63 x"
    unfolding zigzag_def drop_bit_xor drop_push_63 by (rule xor.commute)
  show ?thesis
  proof (rule bit_word_eqI)
    fix n assume "n < LENGTH(64)"
    then show "bit (unzigzag (zigzag x)) n = bit x n"
      unfolding unzigzag_def half and_one_bit0 bit0 signed_drop_63
      by (cases "n = 63") (auto simp: bit_simps)
  qed
qed

lemma zz_read_write: "zz_read (zz_write x @ rest, e) = Ok (x, (rest, e))"
proof -
  obtain bs where "write_UnsignedVarint (zigzag x) = Ok bs"
    using write_UnsignedVarint_total by blast
  then show ?thesis by (simp add: zz_read_def zz_write_def)
qed

lemma zz_small:
  "zz_write 0 = [0]" "zz_write (-1) = [1]" "zz_write 2 = [4]" "zz_write 8 = [16]"
  by (simp_all add: zz_write_def zigzag_def signed_drop_63 write_uvarint_small)

lemma read_Varlong_zigzag:
  "read_Varlong zigzag_varint s = (case read_UnsignedVarint s of
      Ok (u, s') \<Rightarrow> Ok (unzigzag u, s')
    | Err (IO k) \<Rightarrow> Err (IO k)
    | Err _ \<Rightarrow> Err (IO OtherIo)
    | Panic p \<Rightarrow> Panic p)"
  by (simp add: read_Varlong_def zigzag_varint_def zz_read_def
      split: outcome.splits prod.splits read_error.splits)

lemma read_Varlong_zigzag_Ok:
  "read_Varlong zigzag_varint s = Ok (x, s') \<longleftrightarrow>
     (\<exists>u. read_UnsignedVarint s = Ok (u, s') \<and> x = unzigzag u)"
  by (auto simp: read_Varlong_zigzag split: outcome.splits prod.splits read_error.splits)

lemma safe_Varlong_zigzag: "safe_reader (read_Varlong zigzag_varint)"
proof (rule safe_readerI)
  show "stream_reader (read_Varlong zigzag_varint)"
  proof unfold_locales
    show "\<exists>p rest. bs = p @ rest \<and> s' = (rest, e)"
      if "read_Varlong zigzag_varint (bs, e) = Ok (x, s')" for bs e x s'
    proof -
      from that obtain u where "read_UnsignedVarint (bs, e) = Ok (u, s')"
        by (auto simp: read_Varlong_zigzag_Ok)
      then show ?thesis by (rule uvarint_in.consumes)
    qed
    show "read_Varlong zigzag_varint (p @ rest', e') = Ok (x, (rest', e'))"
      if "read_Varlong zigzag_varint (p @ rest, e) = Ok (x, (rest, e))" for p rest e x rest' e'
    proof -
      from that obtain u where "read_UnsignedVarint (p @ rest, e) = Ok (u, (rest, e))"
        "x = unzigzag u" by (auto simp: read_Varlong_zigzag_Ok)
      with uvarint_in.extends [OF this(1)] show ?thesis by (auto simp: read_Varlong_zigzag_Ok)
    qed
    show "read_Varlong zigzag_varint (take k p, t) = Err (IO (eof_kind t))"
      if ok: "read_Varlong zigzag_varint (p @ rest, e) = Ok (x, (rest, e))"
        and k: "k < length p" for p rest e x k t
    proof -
      from ok obtain u where "read_UnsignedVarint (p @ rest, e) = Ok (u, (rest, e))"
        by (auto simp: read_Varlong_zigzag_Ok)
      from uvarint_in.truncated [OF this k, of t] show ?thesis
        by (simp add: read_Varlong_zigzag)
    qed
  qed
  show "\<not> is_panic (read_Varlong zigzag_varint s)" for s
    using uvarint_in.no_panic [of s]
    by (auto simp: read_Varlong_zigzag split: outcome.splits prod.splits read_error.splits)
qed

interpretation zigzag: varint_crate zigzag_varint
  by (rule varint_crate.intro, rule safe_Varlong_zigzag)
    (simp_all add: zigzag_varint_def zz_read_write)

end
