(* ===== verification/Record_Format.thy ===== *)
theory Record_Format
  imports Varint_Crate
begin

text \<open>
  The records of \<open>src/src/protocol/record.rs\<close> below the level of batches: \<open>RecordHeader\<close>,
  \<open>Record\<close> and \<open>ControlBatchRecord\<close>, with their readers and writers.  Batches are in
  \<open>Record_Batch\<close>.
\<close>

section \<open>Length-delimited readers\<close>

text \<open>
  \<open>reader.take(len)\<close>: reading through a \<open>std::io::Take\<close>, which ends after \<open>len\<close> bytes, and
  the limit it is left with.
\<close>

definition take_reader :: "usize \<Rightarrow> 'a reader \<Rightarrow> ('a \<times> usize) reader" where
  "take_reader len rd s =
     (case s of (bs, e) \<Rightarrow>
        (case rd (take len bs, if len \<le> length bs then None else e) of
           Ok (x, (rest, _)) \<Rightarrow>
             let consumed = length (take len bs) - length rest
             in Ok ((x, len - consumed), (drop consumed bs, e))
         | Err x \<Rightarrow> Err x
         | Panic p \<Rightarrow> Panic p))"

section \<open>Records\<close>

record RecordHeader =
  rh_key :: rstring
  rh_value :: "u8 list"

record Record =
  timestamp_delta :: i64
  offset_delta :: i32
  rec_key :: "u8 list option"
  rec_value :: "u8 list option"
  rec_headers :: "RecordHeader list"

definition read_RecordHeader :: "varint_lib \<Rightarrow> RecordHeader reader" where
  "read_RecordHeader V =
     rbind (read_Varint V) (\<lambda>len.
     rbind (rlift (ok_or (Malformed TryFromInt) (usize_try_from_signed len))) (\<lambda>len.
     rbind (read_bytes len) (\<lambda>buf.
     rbind (rlift (ok_or (Malformed FromUtf8) (from_utf8 buf))) (\<lambda>key.
     rbind (read_Varint V) (\<lambda>len.
     rbind (rlift (ok_or (Malformed TryFromInt) (usize_try_from_signed len))) (\<lambda>len.
     rbind (read_bytes len) (\<lambda>val.
     rret \<lparr>rh_key = key, rh_value = val\<rparr>)))))))"

definition write_RecordHeader :: "varint_lib \<Rightarrow> RecordHeader \<Rightarrow> wres" where
  "write_RecordHeader V h =
     wseq
       (bind_o (ok_or (WriteMalformed WriteTryFromInt)
          (i32_try_from_usize (length (as_bytes (rh_key h))))) (\<lambda>l.
        wseq (write_Varint V l) (Ok (as_bytes (rh_key h)))))
       (bind_o (ok_or (WriteMalformed WriteTryFromInt)
          (i32_try_from_usize (length (rh_value h)))) (\<lambda>l.
        wseq (write_Varint V l) (Ok (rh_value h))))"

text \<open>The key and the value of a record: length -1 stands for none.\<close>

definition read_opt_bytes :: "varint_lib \<Rightarrow> u8 list option reader" where
  "read_opt_bytes V =
     rbind (read_Varint V) (\<lambda>len.
       if len = -1 then rret None
       else
         rbind (rlift (ok_or (Malformed TryFromInt) (usize_try_from_signed len))) (\<lambda>len.
         rbind (read_bytes len) (\<lambda>key.
         rret (Some key))))"

definition write_opt_bytes :: "varint_lib \<Rightarrow> u8 list option \<Rightarrow> wres" where
  "write_opt_bytes V x =
     (case x of
        Some key \<Rightarrow>
          bind_o (ok_or (WriteMalformed WriteTryFromInt) (i32_try_from_usize (length key))) (\<lambda>l.
          wseq (write_Varint V l) (Ok key))
      | None \<Rightarrow> write_Varint V (-1))"

text \<open>The part of \<open>Record::read\<close> that reads from the delimited reader.\<close>

definition read_Record_inner :: "varint_lib \<Rightarrow> Record reader" where
  "read_Record_inner V =
     rbind read_Int8 (\<lambda>attributes.
     rbind (read_Varlong V) (\<lambda>timestamp_delta.
     rbind (read_Varint V) (\<lambda>offset_delta.
     rbind (read_opt_bytes V) (\<lambda>key.
     rbind (read_opt_bytes V) (\<lambda>val.
     rbind (read_Varint V) (\<lambda>n_headers.
     rbind (rlift (ok_or (Malformed TryFromInt) (usize_try_from_signed n_headers))) (\<lambda>n_headers.
     rbind (read_items n_headers (read_RecordHeader V)) (\<lambda>headers.
     rret \<lparr>timestamp_delta = timestamp_delta, offset_delta = offset_delta, rec_key = key,
           rec_value = val, rec_headers = headers\<rparr>))))))))"

definition read_Record :: "varint_lib \<Rightarrow> Record reader" where
  "read_Record V =
     rbind (read_Varint V) (\<lambda>len.
     rbind (rlift (ok_or (Malformed TryFromInt) (usize_try_from_signed len))) (\<lambda>len.
     rbind (take_reader len (read_Record_inner V)) (\<lambda>(record, limit).
       if limit \<noteq> 0 then rlift (Err (Malformed (TrailingBytes limit))) else rret record)))"

text \<open>The accumulated data of \<open>Record::write\<close>, before its length is known.\<close>

definition write_Record_inner :: "varint_lib \<Rightarrow> Record \<Rightarrow> wres" where
  "write_Record_inner V r =
     wseq (write_Int8 0)
     (wseq (write_Varlong V (timestamp_delta r))
     (wseq (write_Varint V (offset_delta r))
     (wseq (write_opt_bytes V (rec_key r))
     (wseq (write_opt_bytes V (rec_value r))
     (bind_o (ok_or (WriteMalformed WriteTryFromInt)
        (i32_try_from_usize (length (rec_headers r)))) (\<lambda>l.
      wseq (write_Varint V l) (wconcat (write_RecordHeader V) (rec_headers r))))))))"

definition write_Record :: "varint_lib \<Rightarrow> Record \<Rightarrow> wres" where
  "write_Record V r =
     bind_o (write_Record_inner V r) (\<lambda>data.
     bind_o (ok_or (WriteMalformed WriteTryFromInt) (i32_try_from_usize (length data))) (\<lambda>l.
     wseq (write_Varint V l) (Ok data)))"

section \<open>Control records\<close>

datatype ControlBatchRecord = Abort | Commit

definition read_ControlBatchRecord :: "ControlBatchRecord reader" where
  "read_ControlBatchRecord =
     rbind read_Int16 (\<lambda>version.
       if version \<noteq> 0 then rlift (Err (Malformed (UnknownControlVersion (sint version))))
       else
         rbind read_Int16 (\<lambda>t.
           if t = 0 then rret Abort
           else if t = 1 then rret Commit
           else rlift (Err (Malformed (UnknownControlType (sint t))))))"

definition write_ControlBatchRecord :: "ControlBatchRecord \<Rightarrow> wres" where
  "write_ControlBatchRecord r =
     wseq (write_Int16 0) (write_Int16 (case r of Abort \<Rightarrow> 0 | Commit \<Rightarrow> 1))"

section \<open>Contracts\<close>

text \<open>
  A delimited reader whose trailing bytes are refused reads exactly the delimited bytes, as if
  they were all there is.
\<close>

definition delimited :: "usize \<Rightarrow> 'a reader \<Rightarrow> 'a reader" where
  "delimited len rd =
     rbind (take_reader len rd) (\<lambda>(x, limit).
       if limit \<noteq> 0 then rlift (Err (Malformed (TrailingBytes limit))) else rret x)"

lemma delimited_Ok_iff:
  assumes "stream_reader rd"
  shows "delimited len rd (bs, e) = Ok (x, s') \<longleftrightarrow>
    (\<exists>p rest. bs = p @ rest \<and> length p = len \<and> s' = (rest, e) \<and>
       rd (p, None) = Ok (x, ([], None)))"
    (is "?lhs \<longleftrightarrow> ?rhs")
proof
  assume ?lhs
  then obtain rest t where rd: "rd (take len bs, if len \<le> length bs then None else e) =
      Ok (x, (rest, t))"
    and lim: "len - (length (take len bs) - length rest) = 0"
    and s': "s' = (drop (length (take len bs) - length rest) bs, e)"
    by (auto simp: delimited_def take_reader_def rbind_def Let_def
        split: outcome.splits prod.splits if_splits)
  from stream_reader.rest_le [OF assms rd] have "length rest \<le> length (take len bs)" by simp
  with lim have "len \<le> length bs \<and> length rest = 0"
    unfolding length_take by linarith
  then have len: "len \<le> length bs" and "rest = []" by auto
  with rd len s' stream_reader.rest_le [OF assms rd]
  have "rd (take len bs, None) = Ok (x, ([], None))" "s' = (drop len bs, e)"
    by auto
  with len show ?rhs
    by (intro exI [of _ "take len bs"] exI [of _ "drop len bs"]) auto
next
  assume ?rhs
  then show ?lhs by (auto simp: delimited_def take_reader_def Let_def)
qed

lemma stream_reader_delimited [reader_intros]:
  assumes rd: "stream_reader rd"
  shows "stream_reader (delimited len rd)"
proof unfold_locales
  show "\<exists>p rest. bs = p @ rest \<and> s' = (rest, e)"
    if "delimited len rd (bs, e) = Ok (x, s')" for bs e x s'
    using that by (auto simp: delimited_Ok_iff [OF rd])
  show "delimited len rd (p @ rest', e') = Ok (x, (rest', e'))"
    if "delimited len rd (p @ rest, e) = Ok (x, (rest, e))" for p rest e x rest' e'
    using that by (auto simp: delimited_Ok_iff [OF rd])
  show "delimited len rd (take k p, t) = Err (IO (eof_kind t))"
    if "delimited len rd (p @ rest, e) = Ok (x, (rest, e))" and k: "k < length p"
    for p rest e x k t
  proof -
    from that have p: "length p = len" "rd (p, None) = Ok (x, ([], None))"
      by (auto simp: delimited_Ok_iff [OF rd])
    with stream_reader.truncated [OF rd, of p "[]" None x k t] k
    have "rd (take k p, t) = Err (IO (eof_kind t))" by simp
    with p k show ?thesis by (simp add: delimited_def take_reader_def)
  qed
qed

lemma safe_reader_delimited [reader_intros]:
  assumes "safe_reader rd"
  shows "safe_reader (delimited len rd)"
proof (rule safe_readerI)
  show "stream_reader (delimited len rd)"
    using assms by (auto intro!: reader_intros)
  show "\<not> is_panic (delimited len rd s)" for s
    using safe_reader.no_panic [OF assms]
    by (cases s)
      (auto simp: delimited_def rbind_def take_reader_def is_panic_iff Let_def rlift_def
        split: outcome.splits if_splits)
qed

lemma read_Record_delimited:
  "read_Record V =
     rbind (read_Varint V) (\<lambda>len.
     rbind (rlift (ok_or (Malformed TryFromInt) (usize_try_from_signed len))) (\<lambda>len.
     delimited len (read_Record_inner V)))"
  by (simp add: read_Record_def delimited_def)

lemma safe_read_ControlBatchRecord [reader_intros]: "safe_reader read_ControlBatchRecord"
  unfolding read_ControlBatchRecord_def by (auto intro!: reader_intros)

lemma codec_ControlBatchRecord: "codec read_ControlBatchRecord write_ControlBatchRecord"
proof (rule codecI)
  fix r bs rest e
  assume "write_ControlBatchRecord r = Ok bs"
  then obtain b1 b2 where "write_Int16 0 = Ok b1"
    "write_Int16 (case r of Abort \<Rightarrow> 0 | Commit \<Rightarrow> 1) = Ok b2" "bs = b1 @ b2"
    by (auto simp: write_ControlBatchRecord_def)
  then show "read_ControlBatchRecord (bs @ rest, e) = Ok (r, (rest, e))"
    by (cases r) (simp_all add: read_ControlBatchRecord_def)
qed

interpretation control_record: codec read_ControlBatchRecord write_ControlBatchRecord
  by (rule codec_ControlBatchRecord)

context varint_crate
begin

lemma safe_read_RecordHeader: "safe_reader (read_RecordHeader V)"
  unfolding read_RecordHeader_def by (auto intro!: reader_intros safe_read_Varint)

lemma safe_read_opt_bytes: "safe_reader (read_opt_bytes V)"
  unfolding read_opt_bytes_def by (auto intro!: reader_intros safe_read_Varint)

lemma safe_read_Record_inner: "safe_reader (read_Record_inner V)"
  unfolding read_Record_inner_def
  by (auto intro!: reader_intros safe_read_Varint varlong_reader safe_read_opt_bytes
      safe_read_RecordHeader)

lemma safe_read_Record: "safe_reader (read_Record V)"
  unfolding read_Record_delimited
  by (auto intro!: reader_intros safe_read_Varint safe_read_Record_inner)

lemma codec_RecordHeader: "codec (read_RecordHeader V) (write_RecordHeader V)"
  by (rule codecI)
    (auto simp: read_RecordHeader_def write_RecordHeader_def varint_roundtrip)

lemma codec_opt_bytes: "codec (read_opt_bytes V) (write_opt_bytes V)"
  by (rule codecI)
    (auto simp: read_opt_bytes_def write_opt_bytes_def varint_roundtrip
      split: option.splits dest: i32_length_nonneg)

lemma codec_Record_inner: "codec (read_Record_inner V) (write_Record_inner V)"
  by (rule codecI)
    (auto simp: read_Record_inner_def write_Record_inner_def varint_roundtrip
      codec_roundtrip [OF codec_opt_bytes]
      read_items_norm_codec [OF codec_is_norm [OF codec_RecordHeader]])

lemma codec_Record: "codec (read_Record V) (write_Record V)"
proof (rule codecI)
  fix r bs rest e
  assume "write_Record V r = Ok bs"
  then obtain data l lbs where data: "write_Record_inner V r = Ok data"
    and l: "i32_try_from_usize (length data) = Some l"
    and lbs: "write_Varint V l = Ok lbs" "bs = lbs @ data"
    by (auto simp: write_Record_def)
  have "stream_reader (read_Record_inner V)"
    using safe_read_Record_inner by (rule stream_reader_of_safe)
  moreover from codec_roundtrip [OF codec_Record_inner data, of "[]" None]
  have "read_Record_inner V (data, None) = Ok (r, ([], None))" by simp
  ultimately have "delimited (length data) (read_Record_inner V) (data @ rest, e) =
      Ok (r, (rest, e))"
    by (simp add: delimited_Ok_iff)
  with l lbs show "read_Record V (bs @ rest, e) = Ok (r, (rest, e))"
    by (simp add: read_Record_delimited varint_roundtrip)
qed

end

end
