(* ===== verification/Snappy.thy ===== *)
theory Snappy
  imports Primitives
begin

text \<open>
  Snappy payloads of \<open>src/src/protocol/record.rs\<close>: \<open>carefully_decompress_snappy\<close>, which
  decompresses with output buffers of growing size because the announced size cannot be
  trusted, and the container format of the Java client.

  The crate \<open>snap\<close> is the parameter \<open>snap_lib\<close>; the locale \<open>snap_crate\<close> states what its
  documentation and the comments of the source promise of it.
\<close>

record snap_lib =
  decompress_len :: "u8 list \<Rightarrow> snap_error + usize"
  snap_decompress :: "u8 list \<Rightarrow> usize \<Rightarrow> snap_error + usize \<times> u8 list"
  snap_compress :: "u8 list \<Rightarrow> snap_error + u8 list"

section \<open>Raw Snappy data\<close>

fun looks_like_dst_too_small :: "snap_error \<Rightarrow> ('e, bool) outcome" where
  "looks_like_dst_too_small SnapCopyWrite = Ok True"
| "looks_like_dst_too_small (SnapLiteral len dst_len src_len) = Ok (dst_len < len \<and> src_len \<ge> len)"
| "looks_like_dst_too_small (SnapHeaderMismatch expected_len got_len) = Ok (expected_len < got_len)"
| "looks_like_dst_too_small SnapBufferTooSmall = Panic Unreachable"
| "looks_like_dst_too_small SnapOffset = Ok False"
| "looks_like_dst_too_small _ = Ok False"

text \<open>An in-memory \<open>UnsignedVarint::write\<close> followed by \<open>expect\<close>.\<close>

definition uvarint_bytes :: "usize \<Rightarrow> ('e, u8 list) outcome" where
  "uvarint_bytes n =
     (case write_UnsignedVarint (of_nat n) of Ok buf \<Rightarrow> Ok buf | _ \<Rightarrow> Panic ExpectFailed)"

text \<open>\<open>&input[n..]\<close>.\<close>

definition slice_from :: "usize \<Rightarrow> u8 list \<Rightarrow> ('e, u8 list) outcome" where
  "slice_from n input = (if n \<le> length input then Ok (drop n input) else Panic IndexOutOfBounds)"

text \<open>
  The loop.  It repeats only while the buffer is smaller than the announced size, which it
  doubles; a start size of 0 could not grow.
\<close>

function snappy_loop :: "snap_lib \<Rightarrow> u8 list \<Rightarrow> usize \<Rightarrow> usize \<Rightarrow> usize \<Rightarrow>
    (read_error, u8 list) outcome" where
  "snappy_loop S input uncompressed_size encoded_length max_uncompressed_size =
     (let try_uncompressed_size = min uncompressed_size max_uncompressed_size
      in case uvarint_bytes try_uncompressed_size of
           Err e \<Rightarrow> Err e
         | Panic p \<Rightarrow> Panic p
         | Ok buf \<Rightarrow>
       case slice_from encoded_length input of
           Err e \<Rightarrow> Err e
         | Panic p \<Rightarrow> Panic p
         | Ok payload \<Rightarrow>
       case snap_decompress S (buf @ payload) try_uncompressed_size of
           Inr (actual_uncompressed_size, output) \<Rightarrow>
             if actual_uncompressed_size \<noteq> uncompressed_size then Err (Malformed BrokenSnappy)
             else Ok output
         | Inl e \<Rightarrow>
       case looks_like_dst_too_small e of
           Err x \<Rightarrow> Err x
         | Panic p \<Rightarrow> Panic p
         | Ok dst_too_small \<Rightarrow>
             if dst_too_small \<and> max_uncompressed_size < uncompressed_size then
               if max_uncompressed_size = 0 then Panic Diverges
               else snappy_loop S input uncompressed_size encoded_length
                      (max_uncompressed_size * 2)
             else Err (Malformed (SnapErr e)))"
  by pat_completeness auto
termination
  by (relation "measure (\<lambda>(S, input, n, l, m). n - m)") auto

definition carefully_decompress_snappy :: "snap_lib \<Rightarrow> u8 list \<Rightarrow> usize \<Rightarrow>
    (read_error, u8 list) outcome" where
  "carefully_decompress_snappy S input start_block_size =
     (if input = [] then Err (Malformed (SnapErr SnapEmpty))
      else case decompress_len S input of
             Inl e \<Rightarrow> Err (Malformed (SnapErr e))
           | Inr uncompressed_size \<Rightarrow>
               bind_o (uvarint_bytes uncompressed_size) (\<lambda>buf.
               snappy_loop S input uncompressed_size (length buf) start_block_size))"

section \<open>The container of the Java client\<close>

definition JAVA_MAGIC :: "u8 list" where
  "JAVA_MAGIC = [0x82, 0x53, 0x4E, 0x41, 0x50, 0x50, 0x59, 0]"

definition starts_with :: "u8 list \<Rightarrow> u8 list \<Rightarrow> bool" where
  "starts_with input magic \<longleftrightarrow> take (length magic) input = magic"

text \<open>The chunks that are left in the cursor, decompressed one after the other.\<close>

function java_chunks :: "snap_lib \<Rightarrow> u8 list \<Rightarrow> u8 list \<Rightarrow> (read_error, u8 list) outcome" where
  "java_chunks S cursor output =
     (if cursor = [] then Ok output
      else case read_exact 4 (cursor, None) of
             Err e \<Rightarrow> Err e
           | Panic p \<Rightarrow> Panic p
           | Ok (buf_chunk_length, (cursor', _)) \<Rightarrow>
               let chunk_length = unat (from_be_bytes 0 buf_chunk_length :: u32);
                   bytes_left = length cursor'
               in if chunk_length > bytes_left then
                    Err (Malformed (SnappyChunk chunk_length bytes_left))
                  else
                    case carefully_decompress_snappy S (take chunk_length cursor') DEFAULT_BLOCK_SIZE of
                      Err e \<Rightarrow> Err e
                    | Panic p \<Rightarrow> Panic p
                    | Ok buf \<Rightarrow> java_chunks S (drop chunk_length cursor') (output @ buf))"
  by pat_completeness auto
termination
  by (relation "measure (\<lambda>(S, cursor, output). length cursor)") (auto split: if_splits)

definition decompress_java :: "snap_lib \<Rightarrow> u8 list \<Rightarrow> (read_error, u8 list) outcome" where
  "decompress_java S input =
     (case read_exact 4 (drop (length JAVA_MAGIC) input, None) of
        Err e \<Rightarrow> Err e
      | Panic p \<Rightarrow> Panic p
      | Ok (buf_version, s) \<Rightarrow>
          if buf_version \<noteq> [0, 0, 0, 1] then Err (Malformed (SnappyVersion buf_version))
          else case read_exact 4 s of
            Err e \<Rightarrow> Err e
          | Panic p \<Rightarrow> Panic p
          | Ok (buf_compatible, s) \<Rightarrow>
              if buf_compatible \<noteq> [0, 0, 0, 1] then Err (Malformed (SnappyCompat buf_compatible))
              else java_chunks S (fst s) [])"

definition decompress_snappy :: "snap_lib \<Rightarrow> u8 list \<Rightarrow> (read_error, u8 list) outcome" where
  "decompress_snappy S input =
     (if starts_with input JAVA_MAGIC then decompress_java S input
      else carefully_decompress_snappy S input DEFAULT_BLOCK_SIZE)"

declare snappy_loop.simps [simp del] java_chunks.simps [simp del]

section \<open>What the program relies on of the crate\<close>

text \<open>
  \<open>len_header\<close>: the announced size is read from a varint at the front of the input, and is
  at most \<open>2 ^ 32 - 1\<close>.  \<open>buffer_fits\<close>: \<open>BufferTooSmall\<close> is about a buffer smaller than the
  size the input announces.  \<open>output_size\<close>: the decoder fills the buffer it is given.
  The other laws are about what the encoder made: it starts with its length, decompresses to
  the input, does not fit a smaller buffer under an announced size to match, which the decoder
  reports as one of the errors the source looks for, and does not look like the Java
  container (the third byte of whose magic would be a copy with nothing to copy from).
\<close>

locale snap_crate =
  fixes S :: snap_lib
  assumes len_header: "decompress_len S input = Inr n \<Longrightarrow> n < 2 ^ 32 \<and>
      (\<exists>hdr. write_UnsignedVarint (of_nat n) = Ok hdr \<and> length hdr \<le> length input)"
    and buffer_fits: "write_UnsignedVarint (of_nat k) = Ok hdr \<Longrightarrow>
      snap_decompress S (hdr @ payload) k \<noteq> Inl SnapBufferTooSmall"
    and output_size: "snap_decompress S input k = Inr (n, out) \<Longrightarrow> n \<le> k \<and> length out = k"
    and compress_header: "snap_compress S xs = Inr out \<Longrightarrow>
      \<exists>hdr payload. write_UnsignedVarint (of_nat (length xs)) = Ok hdr \<and> out = hdr @ payload"
    and compress_len: "snap_compress S xs = Inr out \<Longrightarrow> decompress_len S out = Inr (length xs)"
    and decompress_compress: "snap_compress S xs = Inr out \<Longrightarrow>
      snap_decompress S out (length xs) = Inr (length xs, xs)"
    and small_buffer: "snap_compress S xs = Inr (hdr @ payload) \<Longrightarrow>
      write_UnsignedVarint (of_nat (length xs)) = Ok hdr \<Longrightarrow> k < length xs \<Longrightarrow>
      write_UnsignedVarint (of_nat k) = Ok hdr' \<Longrightarrow>
      \<exists>err. snap_decompress S (hdr' @ payload) k = Inl err \<and>
        (looks_like_dst_too_small err :: (read_error, bool) outcome) = Ok True"
    and no_java_magic: "snap_compress S xs = Inr out \<Longrightarrow> \<not> starts_with out JAVA_MAGIC"
begin

lemma uvarint_bytes_ok: "\<exists>buf. uvarint_bytes n = Ok buf \<and> write_UnsignedVarint (of_nat n) = Ok buf"
  using write_UnsignedVarint_total [of "of_nat n"] by (auto simp: uvarint_bytes_def)

text \<open>The loop on compressed data ends with the data, whatever size it starts from.\<close>

lemma snappy_loop_compressed:
  assumes "snap_compress S xs = Inr (hdr @ payload)"
    and "write_UnsignedVarint (of_nat (length xs)) = Ok hdr" and "0 < m"
  shows "snappy_loop S (hdr @ payload) (length xs) (length hdr) m = Ok xs"
  using assms(3)
proof (induction "length xs - m" arbitrary: m rule: less_induct)
  case less
  obtain buf where buf: "uvarint_bytes (min (length xs) m) = (Ok buf :: (read_error, u8 list) outcome)"
    "write_UnsignedVarint (of_nat (min (length xs) m)) = Ok buf"
    using write_UnsignedVarint_total [of "of_nat (min (length xs) m)"]
    by (auto simp: uvarint_bytes_def)
  show ?case
  proof (cases "length xs \<le> m")
    case True
    with buf assms(2) have "buf = hdr" by (simp add: min_absorb1)
    with True buf decompress_compress [OF assms(1)] show ?thesis
      by (subst snappy_loop.simps) (simp add: Let_def min_absorb1 slice_from_def)
  next
    case False
    with buf obtain err where err: "snap_decompress S (buf @ payload) m = Inl err"
      "looks_like_dst_too_small err = (Ok True :: (read_error, bool) outcome)"
      using small_buffer [OF assms(1,2), of m buf] by (auto simp: min_absorb2)
    have "snappy_loop S (hdr @ payload) (length xs) (length hdr) m =
        snappy_loop S (hdr @ payload) (length xs) (length hdr) (m * 2)"
      using False buf err less.prems
      by (subst snappy_loop.simps) (simp add: Let_def min_absorb2 slice_from_def)
    also have "\<dots> = Ok xs"
      by (rule less.hyps) (use False less.prems in auto)
    finally show ?thesis .
  qed
qed

lemma compressed_not_empty: "snap_compress S xs = Inr out \<Longrightarrow> out \<noteq> []"
  using compress_header [of xs out] write_uvarint_step [of "of_nat (length xs)"]
  by (auto split: if_splits)

lemma carefully_decompress_compressed:
  assumes "snap_compress S xs = Inr out" and "0 < start"
  shows "carefully_decompress_snappy S out start = Ok xs"
proof -
  obtain hdr payload where out: "write_UnsignedVarint (of_nat (length xs)) = Ok hdr"
    "out = hdr @ payload"
    using compress_header [OF assms(1)] by blast
  with assms(1) snappy_loop_compressed [of xs hdr payload start] assms(2)
  have "snappy_loop S out (length xs) (length hdr) start = Ok xs" by simp
  with out compressed_not_empty [OF assms(1)] compress_len [OF assms(1)] show ?thesis
    by (simp add: carefully_decompress_snappy_def uvarint_bytes_def)
qed

lemma decompress_snappy_compressed:
  "snap_compress S xs = Inr out \<Longrightarrow> decompress_snappy S out = Ok xs"
  using carefully_decompress_compressed [of xs out DEFAULT_BLOCK_SIZE] no_java_magic [of xs out]
  by (simp add: decompress_snappy_def DEFAULT_BLOCK_SIZE_def)

text \<open>One round of the loop: a result, an error, or a larger buffer.\<close>

lemma snappy_loop_round:
  assumes "encoded_length \<le> length input" and "0 < m"
  obtains (finished) out where "snappy_loop S input n encoded_length m = Ok out" "length out = n"
  | (failed) e where "snappy_loop S input n encoded_length m = Err e"
  | (larger) "m < n"
      "snappy_loop S input n encoded_length m = snappy_loop S input n encoded_length (m * 2)"
proof -
  define k where "k = min n m"
  obtain buf where buf: "uvarint_bytes k = (Ok buf :: (read_error, u8 list) outcome)"
    "write_UnsignedVarint (of_nat k) = Ok buf"
    using write_UnsignedVarint_total [of "of_nat k"] by (auto simp: uvarint_bytes_def)
  have step: "snappy_loop S input n encoded_length m =
    (case snap_decompress S (buf @ drop encoded_length input) k of
       Inr (a, output) \<Rightarrow> if a \<noteq> n then Err (Malformed BrokenSnappy) else Ok output
     | Inl e \<Rightarrow> (case looks_like_dst_too_small e of
         Err x \<Rightarrow> Err x
       | Panic p \<Rightarrow> Panic p
       | Ok small \<Rightarrow>
           if small \<and> m < n then snappy_loop S input n encoded_length (m * 2)
           else Err (Malformed (SnapErr e))))"
    using buf assms
    by (subst snappy_loop.simps) (simp add: Let_def k_def [symmetric] slice_from_def)
  show thesis
  proof (cases "snap_decompress S (buf @ drop encoded_length input) k")
    case (Inr r)
    obtain a out where r: "r = (a, out)" by (cases r)
    show thesis
    proof (cases "a = n")
      case True
      with output_size [OF Inr [unfolded r]] have "length out = n" by (auto simp: k_def)
      with True Inr r step finished show thesis by simp
    next
      case False
      with Inr r step failed show thesis by simp
    qed
  next
    case (Inl e)
    with buffer_fits [OF buf(2)] have "e \<noteq> SnapBufferTooSmall" by auto
    then obtain small where "looks_like_dst_too_small e = (Ok small :: (read_error, bool) outcome)"
      by (cases e) auto
    with Inl step failed larger show thesis by (cases "small \<and> m < n") auto
  qed
qed

lemma snappy_loop_safe:
  assumes "encoded_length \<le> length input" and "0 < m"
  shows "\<not> is_panic (snappy_loop S input n encoded_length m) \<and>
    (\<forall>out. snappy_loop S input n encoded_length m = Ok out \<longrightarrow> length out = n)"
  using assms(2)
proof (induction "n - m" arbitrary: m rule: less_induct)
  case less
  show ?case
    using assms(1) less.prems
  proof (cases rule: snappy_loop_round [where n = n])
    case larger
    with less.hyps [of "m * 2"] less.prems show ?thesis by simp
  qed simp_all
qed

text \<open>
  No input makes the decompressor panic or run forever, and what it returns has the announced
  size.
\<close>

lemma carefully_decompress_safe:
  assumes "0 < start"
  shows "\<not> is_panic (carefully_decompress_snappy S input start)"
    and "carefully_decompress_snappy S input start = Ok out \<Longrightarrow>
      decompress_len S input = Inr (length out)"
proof -
  have "\<not> is_panic (carefully_decompress_snappy S input start) \<and>
    (carefully_decompress_snappy S input start = Ok out \<longrightarrow>
      decompress_len S input = Inr (length out))"
  proof (cases "decompress_len S input")
    case (Inr n)
    from len_header [OF this] obtain hdr where hdr: "length hdr \<le> length input"
      "uvarint_bytes n = (Ok hdr :: (read_error, u8 list) outcome)"
      by (auto simp: uvarint_bytes_def)
    have "carefully_decompress_snappy S input start =
        (if input = [] then Err (Malformed (SnapErr SnapEmpty))
         else snappy_loop S input n (length hdr) start)"
      by (simp add: carefully_decompress_snappy_def Inr hdr(2))
    with snappy_loop_safe [OF hdr(1) assms, of n] Inr show ?thesis by simp
  qed (simp add: carefully_decompress_snappy_def)
  then show "\<not> is_panic (carefully_decompress_snappy S input start)"
    and "carefully_decompress_snappy S input start = Ok out \<Longrightarrow>
      decompress_len S input = Inr (length out)" by blast+
qed

lemma java_chunks_no_panic: "\<not> is_panic (java_chunks S cursor out)"
proof (induction "length cursor" arbitrary: cursor out rule: less_induct)
  case less
  show ?case
  proof (cases "length cursor < 4")
    case True
    then show ?thesis by (subst java_chunks.simps) simp
  next
    case False
    define c where "c = drop 4 cursor"
    define l where "l = unat (from_be_bytes 0 (take 4 cursor) :: u32)"
    have "\<not> is_panic (carefully_decompress_snappy S (take l c) DEFAULT_BLOCK_SIZE)"
      by (rule carefully_decompress_safe(1)) (simp add: DEFAULT_BLOCK_SIZE_def)
    moreover have "\<not> is_panic (java_chunks S (drop l c) out)" for out
      by (rule less.hyps) (use False in \<open>auto simp: c_def\<close>)
    ultimately show ?thesis
      using False
      by (subst java_chunks.simps)
        (auto simp: Let_def c_def [symmetric] l_def [symmetric] is_panic_iff split: outcome.splits)
  qed
qed

lemma decompress_snappy_no_panic: "\<not> is_panic (decompress_snappy S input)"
  using carefully_decompress_safe(1) [of DEFAULT_BLOCK_SIZE] java_chunks_no_panic
  by (auto simp: decompress_snappy_def decompress_java_def DEFAULT_BLOCK_SIZE_def Let_def
      split: outcome.splits if_splits)

text \<open>The Java container of a list of chunks, and that it decompresses to their concatenation.\<close>

lemma java_chunks_step:
  assumes "snap_compress S xs = Inr z" and "length z < 2 ^ 32"
  shows "java_chunks S (to_be_bytes 4 (of_nat (length z) :: u32) @ z @ rest) out =
    java_chunks S rest (out @ xs)"
proof -
  have "unat (of_nat (length z) :: u32) = length z"
    using assms(2) by (simp add: unat_of_nat)
  moreover have "carefully_decompress_snappy S z DEFAULT_BLOCK_SIZE = Ok xs"
    by (rule carefully_decompress_compressed [OF assms(1)]) (simp add: DEFAULT_BLOCK_SIZE_def)
  moreover have "to_be_bytes 4 (of_nat (length z) :: u32) \<noteq> []"
    by (metis length_to_be_bytes list.size(3) zero_neq_numeral)
  ultimately show ?thesis
    by (subst java_chunks.simps) (simp add: Let_def from_to_be_bytes)
qed

end

section \<open>The laws can hold\<close>

text \<open>
  A Snappy codec that writes its input as literals of up to 60 bytes, and reads what it writes.
\<close>

function lit_encode :: "u8 list \<Rightarrow> u8 list" where
  "lit_encode xs =
     (if xs = [] then []
      else of_nat (4 * (min 60 (length xs) - 1)) # take 60 xs @ lit_encode (drop 60 xs))"
  by pat_completeness auto
termination
  by (relation "measure length") auto

function lit_decode :: "usize \<Rightarrow> u8 list \<Rightarrow> u8 list \<Rightarrow> snap_error + u8 list" where
  "lit_decode dst out [] = Inr out"
| "lit_decode dst out (tag # src) =
     (if unat tag mod 4 \<noteq> 0 \<or> unat tag \<ge> 240 then Inl SnapOther
      else
        let len = unat tag div 4 + 1
        in if dst - length out < len \<or> length src < len
           then Inl (SnapLiteral len (dst - length out) (length src))
           else lit_decode dst (out @ take len src) (drop len src))"
  by pat_completeness auto
termination
  by (relation "measure (\<lambda>(dst, out, src). length src)") auto

definition lit_len :: "u8 list \<Rightarrow> snap_error + usize" where
  "lit_len input =
     (case read_UnsignedVarint (input, None) of
        Ok (n, _) \<Rightarrow>
          (case write_UnsignedVarint n of
             Ok hdr \<Rightarrow> if unat n < 2 ^ 32 \<and> length hdr \<le> length input then Inr (unat n) else Inl SnapOther
           | _ \<Rightarrow> Inl SnapOther)
      | _ \<Rightarrow> Inl SnapOther)"

definition lit_decompress :: "u8 list \<Rightarrow> usize \<Rightarrow> snap_error + usize \<times> u8 list" where
  "lit_decompress input k =
     (case read_UnsignedVarint (input, None) of
        Ok (w, (src, _)) \<Rightarrow>
          let n = unat w
          in if k < n then Inl SnapBufferTooSmall
             else (case lit_decode n [] src of
                 Inl e \<Rightarrow> Inl e
               | Inr out \<Rightarrow>
                   if length out \<noteq> n then Inl (SnapHeaderMismatch n (length out))
                   else Inr (n, out @ replicate (k - n) 0))
      | _ \<Rightarrow> Inl SnapOther)"

definition lit_compress :: "u8 list \<Rightarrow> snap_error + u8 list" where
  "lit_compress xs =
     (if length xs < 2 ^ 32 then
        case write_UnsignedVarint (of_nat (length xs)) of
          Ok hdr \<Rightarrow> Inr (hdr @ lit_encode xs)
        | _ \<Rightarrow> Inl SnapOther
      else Inl SnapOther)"

definition literal_snap :: snap_lib where
  "literal_snap = \<lparr>decompress_len = lit_len, snap_decompress = lit_decompress,
     snap_compress = lit_compress\<rparr>"

declare lit_encode.simps [simp del]

lemma lit_encode_Nil [simp]: "lit_encode [] = []"
  by (subst lit_encode.simps) simp

lemma lit_decode_tag:
  assumes "0 < n" "n \<le> 60" "length ys = n"
  shows "lit_decode dst out (of_nat (4 * (n - 1)) # ys @ src) =
    (if dst - length out < n then Inl (SnapLiteral n (dst - length out) (n + length src))
     else lit_decode dst (out @ ys) src)"
proof -
  have "unat (of_nat (4 * (n - 1)) :: u8) = 4 * (n - 1)"
    using assms by (subst unat_of_nat) simp
  with assms show ?thesis by (simp add: Let_def)
qed

lemma lit_decode_encode:
  assumes "length out \<le> dst"
  shows "if length out + length xs \<le> dst then lit_decode dst out (lit_encode xs) = Inr (out @ xs)
    else \<exists>len d s. lit_decode dst out (lit_encode xs) = Inl (SnapLiteral len d s) \<and> d < len \<and> len \<le> s"
  using assms
proof (induction xs arbitrary: out rule: lit_encode.induct)
  case (1 xs)
  show ?case
  proof (cases "xs = []")
    case False
    define n where "n = min 60 (length xs)"
    have n: "0 < n" "n \<le> 60" "length (take 60 xs) = n" using False by (auto simp: n_def)
    have enc: "lit_encode xs = of_nat (4 * (n - 1)) # take 60 xs @ lit_encode (drop 60 xs)"
      using False by (subst lit_encode.simps) (simp add: n_def)
    show ?thesis
    proof (cases "dst - length out < n")
      case True
      with n "1.prems" show ?thesis
        unfolding enc lit_decode_tag [OF n] by (auto simp: n_def)
    next
      case fits: False
      with "1.prems" n have "length (out @ take 60 xs) \<le> dst" by simp
      from "1.IH" [OF False this] fits n show ?thesis
        unfolding enc lit_decode_tag [OF n] by (auto simp: n_def split: if_splits)
    qed
  qed (use "1.prems" in simp)
qed

lemma lit_compress_iff:
  "lit_compress xs = Inr out \<longleftrightarrow> length xs < 2 ^ 32 \<and>
     (\<exists>hdr. write_UnsignedVarint (of_nat (length xs)) = Ok hdr \<and> out = hdr @ lit_encode xs)"
  using write_UnsignedVarint_total [of "of_nat (length xs)"] by (auto simp: lit_compress_def)

lemma unat_u64_of_nat: "k < 2 ^ 32 \<Longrightarrow> unat (of_nat k :: u64) = k"
  by (simp add: unat_of_nat)

lemma lit_encode_no_N: "lit_encode xs \<noteq> 0x4E # src"
proof (cases "xs = []")
  case False
  have "unat (of_nat (4 * (min 60 (length xs) - 1)) :: u8) = 4 * (min 60 (length xs) - 1)"
    by (subst unat_of_nat) simp
  then have "(of_nat (4 * (min 60 (length xs) - 1)) :: u8) \<noteq> 0x4E"
    by (auto dest!: arg_cong [where f = "\<lambda>w. unat w mod 4"])
  with False show ?thesis by (subst lit_encode.simps) simp
qed simp

lemma lit_decode_error: "lit_decode dst out src \<noteq> Inl SnapBufferTooSmall"
  by (induction dst out src rule: lit_decode.induct) (auto simp: Let_def)

lemma java_magic_varint:
  assumes "starts_with input JAVA_MAGIC"
  shows "\<exists>v src. read_UnsignedVarint (input, None) = Ok (v, (0x4E # src, None))"
proof -
  from assms obtain more where "input = JAVA_MAGIC @ more"
    unfolding starts_with_def by (metis append_take_drop_id)
  then show ?thesis
    by (simp add: JAVA_MAGIC_def read_UnsignedVarint_def uvarint_loop_Cons)
qed

interpretation literal: snap_crate literal_snap
proof (unfold_locales, unfold literal_snap_def snap_lib.simps)
  show "n < 2 ^ 32 \<and> (\<exists>hdr. write_UnsignedVarint (of_nat n) = Ok hdr \<and> length hdr \<le> length input)"
    if "lit_len input = Inr n" for input n
    using that by (auto simp: lit_len_def split: outcome.splits if_splits)
  show "lit_decompress (hdr @ payload) k \<noteq> Inl SnapBufferTooSmall"
    if "write_UnsignedVarint (of_nat k) = Ok hdr" for k hdr payload
  proof -
    have "unat (of_nat k :: u64) \<le> k" by (simp add: unat_of_nat)
    with that lit_decode_error show ?thesis
      by (auto simp: lit_decompress_def Let_def split: sum.splits)
  qed
  show "n \<le> k \<and> length out = k" if "lit_decompress input k = Inr (n, out)" for input k n out
    using that
    by (auto simp: lit_decompress_def Let_def split: sum.splits outcome.splits if_splits)
  show "\<exists>hdr payload. write_UnsignedVarint (of_nat (length xs)) = Ok hdr \<and> out = hdr @ payload"
    if "lit_compress xs = Inr out" for xs out
    using that by (auto simp: lit_compress_iff)
  show "lit_len out = Inr (length xs)" if "lit_compress xs = Inr out" for xs out
    using that by (auto simp: lit_compress_iff lit_len_def unat_u64_of_nat)
  show "lit_decompress out (length xs) = Inr (length xs, xs)"
    if "lit_compress xs = Inr out" for xs out
    using that lit_decode_encode [of "[]" "length xs" xs]
    by (auto simp: lit_compress_iff lit_decompress_def Let_def unat_u64_of_nat)
  show "\<exists>err. lit_decompress (hdr' @ payload) k = Inl err \<and>
      looks_like_dst_too_small err = (Ok True :: (read_error, bool) outcome)"
    if "lit_compress xs = Inr (hdr @ payload)" "write_UnsignedVarint (of_nat (length xs)) = Ok hdr"
      "k < length xs" "write_UnsignedVarint (of_nat k) = Ok hdr'" for xs hdr payload k hdr'
    using that lit_decode_encode [of "[]" k xs]
    by (auto simp: lit_compress_iff lit_decompress_def Let_def unat_u64_of_nat)
  show "\<not> starts_with out JAVA_MAGIC" if "lit_compress xs = Inr out" for xs out
  proof
    assume "starts_with out JAVA_MAGIC"
    from java_magic_varint [OF this] that lit_encode_no_N show False
      by (auto simp: lit_compress_iff)
  qed
qed

end
