(* ===== verification/Record_Batch.thy ===== *)
theory Record_Batch
  imports Record_Format Snappy
begin

text \<open>
  Record batches of \<open>src/src/protocol/record.rs\<close>, with their compression and their checksum,
  and \<open>Records\<close> of \<open>src/src/protocol/primitives.rs\<close>, the sequence of batches in a produce
  request or a fetch response.

  The third-party code is the parameter \<open>crates\<close>: varints, CRC-32C, Snappy, and for each of
  the streaming compressors what its decoder makes of the reader it is given: the stream of
  decompressed bytes, and what is left of the reader once that stream has been read to its end.
  All compression features are enabled.
\<close>

section \<open>Third-party code\<close>

record crates =
  varints :: varint_lib
  crc32c :: "u8 list \<Rightarrow> u32"
  snap :: snap_lib
  gz_decoder :: "stream \<Rightarrow> stream"
  gz_left :: "stream \<Rightarrow> stream"
  gz_encode :: "u8 list \<Rightarrow> io_error + u8 list"
  lz4_decoder :: "stream \<Rightarrow> io_error + stream"
  lz4_finish :: "stream \<Rightarrow> io_error + stream"
  lz4_encode :: "u8 list \<Rightarrow> io_error + u8 list"
  zstd_decoder :: "stream \<Rightarrow> io_error + stream"
  zstd_left :: "stream \<Rightarrow> stream"
  zstd_encode :: "u8 list \<Rightarrow> io_error + u8 list"

fun io_try :: "(io_error \<Rightarrow> 'e) \<Rightarrow> io_error + 'a \<Rightarrow> ('e, 'a) outcome" where
  "io_try f (Inl e) = Err (f e)"
| "io_try f (Inr x) = Ok x"

section \<open>Data\<close>

datatype ControlBatchOrRecords = ControlBatch ControlBatchRecord | Records "Record list"

datatype RecordBatchCompression = NoCompression | Gzip | Snappy | Lz4 | Zstd

datatype RecordBatchTimestampType = CreateTime | LogAppendTime

record RecordBatchBody =
  bb_last_offset_delta :: i32
  bb_first_timestamp :: i64
  bb_max_timestamp :: i64
  bb_producer_id :: i64
  bb_producer_epoch :: i16
  bb_base_sequence :: i32
  bb_records :: ControlBatchOrRecords
  bb_compression :: RecordBatchCompression
  bb_is_transactional :: bool
  bb_timestamp_type :: RecordBatchTimestampType

record RecordBatch =
  base_offset :: i64
  partition_leader_epoch :: i32
  last_offset_delta :: i32
  first_timestamp :: i64
  max_timestamp :: i64
  producer_id :: i64
  producer_epoch :: i16
  base_sequence :: i32
  records :: ControlBatchOrRecords
  compression :: RecordBatchCompression
  is_transactional :: bool
  timestamp_type :: RecordBatchTimestampType

section \<open>The body of a batch\<close>

definition ensure_eof :: "string \<Rightarrow> stream \<Rightarrow> (read_error, unit) outcome" where
  "ensure_eof msg s =
     (case s of
        (b # bs, e) \<Rightarrow> Err (Malformed (DataLeft msg))
      | ([], None) \<Rightarrow> Ok ()
      | ([], Some UnexpectedEof) \<Rightarrow> Ok ()
      | ([], Some e) \<Rightarrow> Err (IO e))"

definition read_records :: "varint_lib \<Rightarrow> bool \<Rightarrow> usize \<Rightarrow> ControlBatchOrRecords reader" where
  "read_records V is_control n_records =
     (if is_control then
        if n_records \<noteq> 1 then rlift (Err (Malformed (NotOneControlRecord n_records)))
        else rbind read_ControlBatchRecord (\<lambda>record. rret (ControlBatch record))
      else rbind (read_items n_records (read_Record V)) (\<lambda>records. rret (Records records)))"

text \<open>Reading the records from a decoder, and checking that nothing is left in it.\<close>

definition read_decoded :: "stream \<Rightarrow> string \<Rightarrow> varint_lib \<Rightarrow> bool \<Rightarrow> usize \<Rightarrow>
    (read_error, ControlBatchOrRecords) outcome" where
  "read_decoded decoder msg V is_control n_records =
     bind_o (read_records V is_control n_records decoder) (\<lambda>(records, decoder').
     bind_o (ensure_eof msg decoder') (\<lambda>_.
     Ok records))"

definition read_compressed :: "crates \<Rightarrow> RecordBatchCompression \<Rightarrow> bool \<Rightarrow> usize \<Rightarrow>
    ControlBatchOrRecords reader" where
  "read_compressed K compr is_control n_records s =
     (case compr of
        NoCompression \<Rightarrow> read_records (varints K) is_control n_records s
      | Gzip \<Rightarrow>
          bind_o (read_decoded (gz_decoder K s) ''Data left in gzip block'' (varints K)
                    is_control n_records) (\<lambda>records.
          Ok (records, gz_left K s))
      | Lz4 \<Rightarrow>
          bind_o (io_try IO (lz4_decoder K s)) (\<lambda>decoder.
          bind_o (read_decoded decoder ''Data left in LZ4 block'' (varints K)
                    is_control n_records) (\<lambda>records.
          bind_o (io_try IO (lz4_finish K s)) (\<lambda>reader.
          Ok (records, reader))))
      | Snappy \<Rightarrow>
          (case s of
             (input, Some e) \<Rightarrow> Err (IO e)
           | (input, None) \<Rightarrow>
               bind_o (decompress_snappy (snap K) input) (\<lambda>output.
               bind_o (read_decoded (output, None) ''Data left in Snappy block'' (varints K)
                         is_control n_records) (\<lambda>records.
               Ok (records, ([], None)))))
      | Zstd \<Rightarrow>
          bind_o (io_try IO (zstd_decoder K s)) (\<lambda>decoder.
          bind_o (read_decoded decoder ''Data left in zstd block'' (varints K)
                    is_control n_records) (\<lambda>records.
          Ok (records, zstd_left K s))))"

definition compression_of :: "i16 \<Rightarrow> (read_error, RecordBatchCompression) outcome" where
  "compression_of attributes =
     (let c = attributes AND 0x7
      in if c = 0 then Ok NoCompression
         else if c = 1 then Ok Gzip
         else if c = 2 then Ok Snappy
         else if c = 3 then Ok Lz4
         else if c = 4 then Ok Zstd
         else Err (Malformed (InvalidCompressionType (sint c))))"

definition read_RecordBatchBody :: "crates \<Rightarrow> RecordBatchBody reader" where
  "read_RecordBatchBody K =
     rbind read_Int16 (\<lambda>attributes.
     rbind (rlift (compression_of attributes)) (\<lambda>compression.
       let timestamp_type = (if signed_drop_bit 3 attributes AND 1 = 0 then CreateTime
                             else LogAppendTime);
           is_transactional = (signed_drop_bit 4 attributes AND 1 = 1);
           is_control = (signed_drop_bit 5 attributes AND 1 = 1)
       in
     rbind read_Int32 (\<lambda>last_offset_delta.
     rbind read_Int64 (\<lambda>first_timestamp.
     rbind read_Int64 (\<lambda>max_timestamp.
     rbind read_Int64 (\<lambda>producer_id.
     rbind read_Int16 (\<lambda>producer_epoch.
     rbind read_Int32 (\<lambda>base_sequence.
     rbind read_Int32 (\<lambda>n.
     rbind (rlift (if n = -1 then Ok 0 else ok_or Overflow (usize_try_from_signed n))) (\<lambda>n_records.
     rbind (read_compressed K compression is_control n_records) (\<lambda>records.
     rret \<lparr>bb_last_offset_delta = last_offset_delta, bb_first_timestamp = first_timestamp,
           bb_max_timestamp = max_timestamp, bb_producer_id = producer_id,
           bb_producer_epoch = producer_epoch, bb_base_sequence = base_sequence,
           bb_records = records, bb_compression = compression,
           bb_is_transactional = is_transactional, bb_timestamp_type = timestamp_type\<rparr>)))))))))))"

definition write_records :: "varint_lib \<Rightarrow> ControlBatchOrRecords \<Rightarrow> wres" where
  "write_records V recs =
     (case recs of
        ControlBatch control_batch \<Rightarrow> write_ControlBatchRecord control_batch
      | Records rs \<Rightarrow> wconcat (write_Record V) rs)"

definition write_compressed :: "crates \<Rightarrow> RecordBatchCompression \<Rightarrow> ControlBatchOrRecords \<Rightarrow> wres" where
  "write_compressed K compr recs =
     bind_o (write_records (varints K) recs) (\<lambda>input.
       case compr of
         NoCompression \<Rightarrow> Ok input
       | Gzip \<Rightarrow> io_try WriteIO (gz_encode K input)
       | Lz4 \<Rightarrow> io_try WriteIO (lz4_encode K input)
       | Snappy \<Rightarrow>
           (case snap_compress (snap K) input of
              Inl e \<Rightarrow> Err (WriteMalformed (WriteSnapErr e))
            | Inr output \<Rightarrow> Ok output)
       | Zstd \<Rightarrow> io_try WriteIO (zstd_encode K input))"

definition attributes_of :: "RecordBatchBody \<Rightarrow> i16" where
  "attributes_of b =
     (let attributes = (case bb_compression b of
          NoCompression \<Rightarrow> 0 | Gzip \<Rightarrow> 1 | Snappy \<Rightarrow> 2 | Lz4 \<Rightarrow> 3 | Zstd \<Rightarrow> 4);
          attributes = (case bb_timestamp_type b of
            CreateTime \<Rightarrow> attributes | LogAppendTime \<Rightarrow> attributes OR push_bit 3 1);
          attributes = (if bb_is_transactional b then attributes OR push_bit 4 1 else attributes)
      in case bb_records b of
           ControlBatch _ \<Rightarrow> attributes OR push_bit 5 1
         | Records _ \<Rightarrow> attributes)"

definition write_RecordBatchBodyRef :: "crates \<Rightarrow> RecordBatchBody \<Rightarrow> wres" where
  "write_RecordBatchBodyRef K b =
     wseq (write_Int16 (attributes_of b))
     (wseq (write_Int32 (bb_last_offset_delta b))
     (wseq (write_Int64 (bb_first_timestamp b))
     (wseq (write_Int64 (bb_max_timestamp b))
     (wseq (write_Int64 (bb_producer_id b))
     (wseq (write_Int16 (bb_producer_epoch b))
     (wseq (write_Int32 (bb_base_sequence b))
     (wseq (bind_o (ok_or WriteOverflow (i32_try_from_usize
              (case bb_records b of ControlBatch _ \<Rightarrow> 1 | Records rs \<Rightarrow> length rs))) write_Int32)
     (write_compressed K (bb_compression b) (bb_records b)))))))))"

definition write_RecordBatchBody :: "crates \<Rightarrow> RecordBatchBody \<Rightarrow> wres" where
  "write_RecordBatchBody K b = write_RecordBatchBodyRef K b"

section \<open>Batches\<close>

definition batch_body :: "RecordBatch \<Rightarrow> RecordBatchBody" where
  "batch_body r =
     \<lparr>bb_last_offset_delta = last_offset_delta r, bb_first_timestamp = first_timestamp r,
      bb_max_timestamp = max_timestamp r, bb_producer_id = producer_id r,
      bb_producer_epoch = producer_epoch r, bb_base_sequence = base_sequence r,
      bb_records = records r, bb_compression = compression r,
      bb_is_transactional = is_transactional r, bb_timestamp_type = timestamp_type r\<rparr>"

text \<open>The CRC-checked data as a body, with nothing after it.\<close>

definition parse_body :: "crates \<Rightarrow> u8 list \<Rightarrow> (read_error, RecordBatchBody) outcome" where
  "parse_body K data =
     bind_o (read_RecordBatchBody K (data, None)) (\<lambda>(body, rest).
       let bytes_read = length data - length (fst rest);
           bytes_left = length data - bytes_read
       in if bytes_left \<noteq> 0 then Err (Malformed (TrailingBytes bytes_left)) else Ok body)"

definition read_RecordBatch :: "crates \<Rightarrow> RecordBatch reader" where
  "read_RecordBatch K =
     rbind read_Int64 (\<lambda>base_offset.
     rbind read_Int32 (\<lambda>len.
     rbind (rlift (ok_or (Malformed TryFromInt) (usize_try_from_signed len))) (\<lambda>len.
     rbind (rlift (if 4 + 1 + 4 \<le> len then Ok (len - (4 + 1 + 4))
                   else Err (Malformed (BatchLenTooSmall len)))) (\<lambda>len.
     rbind read_Int32 (\<lambda>partition_leader_epoch.
     rbind read_Int8 (\<lambda>magic.
       if magic \<noteq> 2 then rlift (Err (Malformed (InvalidMagic (sint magic))))
       else
     rbind read_Int32 (\<lambda>crc.
       let crc = (from_be_bytes 0 (to_be_bytes 4 crc) :: u32) in
     rbind (read_bytes len) (\<lambda>data.
       let actual_crc = crc32c K data in
       if crc \<noteq> actual_crc then rlift (Err (Malformed (CrcMismatch actual_crc crc)))
       else
     rbind (rlift (parse_body K data)) (\<lambda>body.
     rret \<lparr>base_offset = base_offset, partition_leader_epoch = partition_leader_epoch,
           last_offset_delta = bb_last_offset_delta body,
           first_timestamp = bb_first_timestamp body, max_timestamp = bb_max_timestamp body,
           producer_id = bb_producer_id body, producer_epoch = bb_producer_epoch body,
           base_sequence = bb_base_sequence body, records = bb_records body,
           compression = bb_compression body, is_transactional = bb_is_transactional body,
           timestamp_type = bb_timestamp_type body\<rparr>)))))))))"

definition write_RecordBatch :: "crates \<Rightarrow> RecordBatch \<Rightarrow> wres" where
  "write_RecordBatch K r =
     bind_o (write_RecordBatchBodyRef K (batch_body r)) (\<lambda>data.
     wseq (write_Int64 (base_offset r))
     (bind_o (ok_or (WriteMalformed WriteTryFromInt)
        (i32_try_from_usize (length data + 4 + 1 + 4))) (\<lambda>l.
      wseq (write_Int32 l)
     (wseq (write_Int32 (partition_leader_epoch r))
     (wseq (write_Int8 2)
     (let crc = crc32c K data;
          crc = (from_be_bytes 0 (to_be_bytes 4 crc) :: i32)
      in wseq (write_Int32 crc) (Ok data)))))))"

section \<open>Sequences of batches\<close>

lemma stream_fixed_readers:
  "stream_reader read_Int8" "stream_reader read_Int16" "stream_reader read_Int32"
  "stream_reader read_Int64"
  by (rule stream_reader_of_safe, rule safe_fixed_readers)+

text \<open>
  Whatever the third-party code does, a batch is read from the front of the stream: the
  checked data is delimited before anything of it is looked at.
\<close>

lemma stream_read_RecordBatch: "stream_reader (read_RecordBatch K)"
  unfolding read_RecordBatch_def Let_def read_bytes_eq
  by (intro stream_reader_rbind stream_reader_if stream_reader_rlift stream_reader_rret
      stream_reader_read_exact stream_fixed_readers)

text \<open>A batch is not read from nothing, so the loop over a buffer makes progress.\<close>

lemma read_RecordBatch_Nil: "read_RecordBatch K ([], e) = Err (IO (eof_kind e))"
  by (simp add: read_RecordBatch_def read_Int64_def rbind_def)

lemma read_RecordBatch_shorter:
  assumes "read_RecordBatch K (bs, e) = Ok (b, s')"
  shows "length (fst s') < length bs"
proof -
  from stream_reader.consumes [OF stream_read_RecordBatch assms] obtain p rest where
    p: "bs = p @ rest" "s' = (rest, e)" by blast
  have "p \<noteq> []"
  proof
    assume "p = []"
    with assms p have "read_RecordBatch K ([] @ rest, e) = Ok (b, (rest, e))" by simp
    from stream_reader.extends [OF stream_read_RecordBatch this, of "[]" None]
    show False by (simp add: read_RecordBatch_Nil)
  qed
  with p show ?thesis by simp
qed

text \<open>\<^verbatim>\<open>while buf.position() < len\<close> of \<open>Records::read\<close>.\<close>

function read_batches :: "crates \<Rightarrow> stream \<Rightarrow> RecordBatch list \<Rightarrow>
    (read_error, RecordBatch list) outcome" where
  "read_batches K buf batches =
     (if fst buf = [] then Ok batches
      else case read_RecordBatch K buf of
             Ok (batch, buf') \<Rightarrow> read_batches K buf' (batches @ [batch])
           | Err (IO UnexpectedEof) \<Rightarrow> Ok batches
           | Err e \<Rightarrow> Err e
           | Panic p \<Rightarrow> Panic p)"
  by pat_completeness auto
termination
proof (relation "measure (\<lambda>(K, buf, batches). length (fst buf))")
  fix K and buf buf' :: stream and batches r batch
  assume "read_RecordBatch K buf = Ok r" "(batch, buf') = r"
  then show "((K, buf', batches @ [batch]), (K, buf, batches)) \<in>
      measure (\<lambda>(K, buf, batches). length (fst buf))"
    using read_RecordBatch_shorter [of K "fst buf" "snd buf" batch buf'] by auto
qed simp

definition read_Records :: "crates \<Rightarrow> RecordBatch list reader" where
  "read_Records K =
     rbind read_NullableBytes (\<lambda>bytes.
       let buf = (case bytes of Some buf \<Rightarrow> buf | None \<Rightarrow> [])
       in rlift (read_batches K (buf, None) []))"

definition write_Records :: "crates \<Rightarrow> RecordBatch list \<Rightarrow> wres" where
  "write_Records K rs =
     bind_o (wconcat (write_RecordBatch K) rs) (\<lambda>buf.
     write_NullableBytes (Some buf))"

declare read_batches.simps [simp del]

section \<open>Round trip of the attributes\<close>

lemma attributes_roundtrip:
  "compression_of (attributes_of b) = Ok (bb_compression b)"
  "(if signed_drop_bit 3 (attributes_of b) AND 1 = 0 then CreateTime else LogAppendTime) =
    bb_timestamp_type b"
  "signed_drop_bit 4 (attributes_of b) AND 1 = 1 \<longleftrightarrow> bb_is_transactional b"
  "signed_drop_bit 5 (attributes_of b) AND 1 = 1 \<longleftrightarrow> (\<exists>c. bb_records b = ControlBatch c)"
  by (cases "bb_compression b"; cases "bb_timestamp_type b"; cases "bb_is_transactional b";
      cases "bb_records b"; simp add: attributes_of_def compression_of_def Let_def)+

section \<open>Contracts\<close>

lemma io_try_Ok_iff [simp]: "io_try f m = Ok x \<longleftrightarrow> m = Inr x"
  by (cases m) auto

lemma io_try_no_panic [simp]: "\<not> is_panic (io_try f m)"
  by (cases m) auto

lemma is_panic_bind_o [simp]:
  "is_panic (bind_o m f) \<longleftrightarrow> is_panic m \<or> (\<exists>x. m = Ok x \<and> is_panic (f x))"
  by (cases m) auto

lemma ensure_eof_no_panic: "\<not> is_panic (ensure_eof msg s)"
  by (auto simp: ensure_eof_def split: prod.splits list.splits option.splits io_error.splits)

text \<open>
  What is relied on of the crates: the laws of the varints and of Snappy, and of each streaming
  compressor that its decoder recovers what its encoder was given and, at its end, has read
  all of the encoder's output.
\<close>

locale record_crates = varint_crate "varints K" + snap_crate "snap K"
  for K :: crates +
  assumes gz_roundtrip: "gz_encode K raw = Inr bs \<Longrightarrow>
      gz_decoder K (bs, None) = (raw, None) \<and> gz_left K (bs, None) = ([], None)"
    and lz4_roundtrip: "lz4_encode K raw = Inr bs \<Longrightarrow>
      lz4_decoder K (bs, None) = Inr (raw, None) \<and> lz4_finish K (bs, None) = Inr ([], None)"
    and zstd_roundtrip: "zstd_encode K raw = Inr bs \<Longrightarrow>
      zstd_decoder K (bs, None) = Inr (raw, None) \<and> zstd_left K (bs, None) = ([], None)"
begin

subsection \<open>No input makes a batch reader panic\<close>

lemma safe_read_records: "safe_reader (read_records (varints K) is_control n)"
  unfolding read_records_def by (intro reader_intros safe_read_Record) simp_all

lemma read_decoded_no_panic: "\<not> is_panic (read_decoded d msg (varints K) is_control n)"
  using safe_reader.no_panic [OF safe_read_records] ensure_eof_no_panic
  by (auto simp: read_decoded_def)

lemma read_compressed_no_panic: "\<not> is_panic (read_compressed K compr is_control n s)"
  using safe_reader.no_panic [OF safe_read_records] read_decoded_no_panic
    decompress_snappy_no_panic
  by (cases compr; cases s; cases "snd s") (auto simp: read_compressed_def)

lemma rbind_no_panic:
  "\<not> is_panic (m s) \<Longrightarrow> (\<And>x s'. \<not> is_panic (f x s')) \<Longrightarrow> \<not> is_panic (rbind m f s)"
  by (auto simp: is_panic_iff rbind_Panic_iff)

lemma read_RecordBatchBody_no_panic: "\<not> is_panic (read_RecordBatchBody K s)"
  unfolding read_RecordBatchBody_def Let_def
  by (intro rbind_no_panic safe_fixed_readers [THEN safe_reader.no_panic]
      read_compressed_no_panic safe_reader_rlift [THEN safe_reader.no_panic]
      safe_reader_rret [THEN safe_reader.no_panic])
    (auto simp: compression_of_def Let_def)

lemma parse_body_no_panic: "\<not> is_panic (parse_body K data)"
  using read_RecordBatchBody_no_panic by (auto simp: parse_body_def Let_def split: prod.splits)

lemma safe_read_RecordBatch: "safe_reader (read_RecordBatch K)"
proof (rule safe_readerI [OF stream_read_RecordBatch])
  have "safe_reader (read_RecordBatch K)"
    unfolding read_RecordBatch_def Let_def read_bytes_eq
    by (auto intro!: reader_intros parse_body_no_panic split: if_splits)
  then show "\<not> is_panic (read_RecordBatch K s)" for s by (rule safe_reader.no_panic)
qed

lemma read_batches_no_panic: "\<not> is_panic (read_batches K buf bs)"
proof (induction "length (fst buf)" arbitrary: buf bs rule: less_induct)
  case less
  show ?case
  proof (cases "read_RecordBatch K buf")
    case (Ok r)
    obtain b buf' where r: "r = (b, buf')" by (cases r)
    with Ok have "length (fst buf') < length (fst buf)"
      using read_RecordBatch_shorter [of K "fst buf" "snd buf"] by simp
    from less.hyps [OF this] Ok r show ?thesis
      by (subst read_batches.simps) simp
  next
    case (Err e)
    then show ?thesis
      by (subst read_batches.simps) (auto split: read_error.splits io_error.splits)
  next
    case (Panic p)
    with safe_reader.no_panic [OF safe_read_RecordBatch, of buf] show ?thesis by simp
  qed
qed

lemma safe_read_Records: "safe_reader (read_Records K)"
  unfolding read_Records_def Let_def by (auto intro!: reader_intros read_batches_no_panic)

subsection \<open>Round trips\<close>

lemma read_records_roundtrip:
  assumes "write_records (varints K) r = Ok bs"
    and "is_control \<longleftrightarrow> (\<exists>c. r = ControlBatch c)"
    and "n = (case r of ControlBatch _ \<Rightarrow> 1 | Records rs \<Rightarrow> length rs)"
  shows "read_records (varints K) is_control n (bs @ rest, e) = Ok (r, (rest, e))"
proof (cases r)
  case (ControlBatch c)
  with assms show ?thesis
    by (simp add: read_records_def write_records_def control_record.roundtrip)
next
  case (Records rs)
  with assms read_items_norm_codec [OF codec_is_norm [OF codec_Record], of rs bs n rest e]
  show ?thesis by (simp add: read_records_def write_records_def)
qed

lemma read_decoded_roundtrip:
  assumes "write_records (varints K) r = Ok bs"
    and "is_control \<longleftrightarrow> (\<exists>c. r = ControlBatch c)"
    and "n = (case r of ControlBatch _ \<Rightarrow> 1 | Records rs \<Rightarrow> length rs)"
  shows "read_decoded (bs, None) msg (varints K) is_control n = Ok r"
  using read_records_roundtrip [OF assms, of "[]" None]
  by (simp add: read_decoded_def ensure_eof_def)

lemma read_compressed_roundtrip:
  assumes "write_compressed K compr r = Ok bs"
    and "is_control \<longleftrightarrow> (\<exists>c. r = ControlBatch c)"
    and "n = (case r of ControlBatch _ \<Rightarrow> 1 | Records rs \<Rightarrow> length rs)"
  shows "read_compressed K compr is_control n (bs, None) = Ok (r, ([], None))"
proof -
  from assms(1) obtain raw where raw: "write_records (varints K) r = Ok raw"
    by (auto simp: write_compressed_def)
  note dec = read_decoded_roundtrip [OF raw assms(2,3)]
    and plain = read_records_roundtrip [OF raw assms(2,3), of "[]" None]
  show ?thesis
  proof (cases compr)
    case NoCompression
    with assms(1) raw plain show ?thesis
      by (simp add: write_compressed_def read_compressed_def)
  next
    case Gzip
    with assms(1) raw gz_roundtrip [of raw bs] dec show ?thesis
      by (simp add: write_compressed_def read_compressed_def)
  next
    case Snappy
    with assms(1) raw decompress_snappy_compressed [of raw bs] dec show ?thesis
      by (simp add: write_compressed_def read_compressed_def split: sum.splits)
  next
    case Lz4
    with assms(1) raw lz4_roundtrip [of raw bs] dec show ?thesis
      by (simp add: write_compressed_def read_compressed_def)
  next
    case Zstd
    with assms(1) raw zstd_roundtrip [of raw bs] dec show ?thesis
      by (simp add: write_compressed_def read_compressed_def)
  qed
qed

lemma read_body_roundtrip:
  assumes "write_RecordBatchBodyRef K b = Ok bs"
  shows "read_RecordBatchBody K (bs, None) = Ok (b, ([], None))"
proof -
  from assms obtain n nbs cbs where n: "i32_try_from_usize
      (case bb_records b of ControlBatch _ \<Rightarrow> 1 | Records rs \<Rightarrow> length rs) = Some n"
    and nbs: "write_Int32 n = Ok nbs"
    and cbs: "write_compressed K (bb_compression b) (bb_records b) = Ok cbs"
    by (auto simp: write_RecordBatchBodyRef_def)
  from read_compressed_roundtrip [OF cbs attributes_roundtrip(4) refl] n i32_length_nonneg [OF n]
    assms nbs cbs
  show ?thesis
    by (auto simp: read_RecordBatchBody_def write_RecordBatchBodyRef_def Let_def
        attributes_roundtrip(1,2,3))
qed

lemma parse_body_roundtrip:
  "write_RecordBatchBodyRef K b = Ok bs \<Longrightarrow> parse_body K bs = Ok b"
  by (simp add: parse_body_def read_body_roundtrip)

text \<open>The bytes of a batch: its header, the checksum, and the checked data.\<close>

lemma write_RecordBatch_bytes:
  assumes "write_RecordBatch K r = Ok bs"
  obtains data l where "write_RecordBatchBodyRef K (batch_body r) = Ok data"
    "i32_try_from_usize (9 + length data) = Some l"
    "bs = to_be_bytes 8 (base_offset r) @ to_be_bytes 4 l @
      to_be_bytes 4 (partition_leader_epoch r) @ 2 #
      to_be_bytes 4 (crc32c K data) @ data"
  using assms
  by (auto simp: write_RecordBatch_def Let_def from_to_be_bytes write_Int64_def write_Int32_def
      write_Int8_def to_be_bytes_def [of "Suc 0"])

text \<open>What the reader does with these bytes, whatever the checksum and the data.\<close>

lemma read_RecordBatch_bytes:
  assumes "i32_try_from_usize (9 + length data) = Some l"
  shows "read_RecordBatch K (to_be_bytes 8 off @ to_be_bytes 4 l @ to_be_bytes 4 epoch @
      2 # to_be_bytes 4 (c :: i32) @ data @ rest, e) =
    (if c \<noteq> crc32c K data then Err (Malformed (CrcMismatch (crc32c K data) c))
     else case parse_body K data of
       Ok body \<Rightarrow> Ok (\<lparr>base_offset = off, partition_leader_epoch = epoch,
           last_offset_delta = bb_last_offset_delta body,
           first_timestamp = bb_first_timestamp body, max_timestamp = bb_max_timestamp body,
           producer_id = bb_producer_id body, producer_epoch = bb_producer_epoch body,
           base_sequence = bb_base_sequence body, records = bb_records body,
           compression = bb_compression body, is_transactional = bb_is_transactional body,
           timestamp_type = bb_timestamp_type body\<rparr>, (rest, e))
     | Err x \<Rightarrow> Err x
     | Panic p \<Rightarrow> Panic p)"
proof -
  have "read_Int64 (to_be_bytes 8 a @ s, t) = Ok (a, (s, t))" for a s t
    by (simp add: read_Int64_def from_to_be_bytes)
  moreover have "read_Int32 (to_be_bytes 4 a @ s, t) = Ok (a, (s, t))" for a s t
    by (simp add: read_Int32_def from_to_be_bytes)
  moreover have "read_Int8 (a # s, t) = Ok (a, (s, t))" for a s t
    by (simp add: read_Int8_def)
  ultimately show ?thesis
    using assms
    by (simp add: read_RecordBatch_def Let_def from_to_be_bytes rbind_def rlift_def
        split: outcome.splits)
qed

lemma codec_RecordBatch: "codec (read_RecordBatch K) (write_RecordBatch K)"
proof (rule codecI)
  fix r bs rest e
  assume "write_RecordBatch K r = Ok bs"
  then show "read_RecordBatch K (bs @ rest, e) = Ok (r, (rest, e))"
    by (rule write_RecordBatch_bytes)
      (simp add: read_RecordBatch_bytes parse_body_roundtrip, simp add: batch_body_def)
qed

text \<open>Damage to the checked data is found, unless the damaged data has the same checksum.\<close>

lemma read_RecordBatch_damaged:
  assumes "write_RecordBatch K r = Ok bs" and "write_RecordBatchBodyRef K (batch_body r) = Ok data"
    and "length damaged = length data"
    and "crc32c K damaged \<noteq> crc32c K data"
  shows "read_RecordBatch K (take (length bs - length data) bs @ damaged @ rest, e) =
    Err (Malformed (CrcMismatch (crc32c K damaged) (crc32c K data)))"
  using assms(1)
proof (rule write_RecordBatch_bytes)
  fix data' l
  assume d: "write_RecordBatchBodyRef K (batch_body r) = Ok data'"
    "i32_try_from_usize (9 + length data') = Some l"
    "bs = to_be_bytes 8 (base_offset r) @ to_be_bytes 4 l @
      to_be_bytes 4 (partition_leader_epoch r) @ 2 #
      to_be_bytes 4 (crc32c K data') @ data'"
  with assms(2) have "data' = data" by simp
  with d read_RecordBatch_bytes [of damaged l "base_offset r" "partition_leader_epoch r"
      "crc32c K data" rest e] assms(3,4)
  show ?thesis by simp
qed

lemma read_batches_step:
  assumes "write_RecordBatch K r = Ok bs"
  shows "read_batches K (bs @ rest, None) acc = read_batches K (rest, None) (acc @ [r])"
proof -
  from assms have "bs \<noteq> []"
    by (rule write_RecordBatch_bytes) (auto dest: arg_cong [where f = length])
  with codec_roundtrip [OF codec_RecordBatch assms, of rest None] show ?thesis
    by (subst read_batches.simps) simp
qed

lemma read_batches_all:
  "wconcat (write_RecordBatch K) rs = Ok bs \<Longrightarrow>
    read_batches K (bs @ rest, None) acc = read_batches K (rest, None) (acc @ rs)"
  by (induction rs arbitrary: bs acc) (auto simp: read_batches_step)

lemma read_batches_cut:
  assumes "write_RecordBatch K r = Ok bs" and "k < length bs"
  shows "read_batches K (take k bs, None) acc = Ok acc"
proof (cases "k = 0")
  case True
  then show ?thesis by (subst read_batches.simps) simp
next
  case False
  from codec_roundtrip [OF codec_RecordBatch assms(1), of "[]" None]
  have "read_RecordBatch K (bs @ [], None) = Ok (r, ([], None))" by simp
  from stream_reader.truncated [OF stream_read_RecordBatch this assms(2), of None]
  show ?thesis by (subst read_batches.simps) simp
qed

lemma codec_Records: "codec (read_Records K) (write_Records K)"
proof (rule codecI)
  fix rs bs rest e
  assume "write_Records K rs = Ok bs"
  then obtain buf where buf: "wconcat (write_RecordBatch K) rs = Ok buf"
    "write_NullableBytes (Some buf) = Ok bs" by (auto simp: write_Records_def)
  have "read_batches K (buf, None) [] = Ok rs"
    using read_batches_all [OF buf(1), of "[]" "[]"] by (simp add: read_batches.simps)
  with buf show "read_Records K (bs @ rest, e) = Ok (rs, (rest, e))"
    by (simp add: read_Records_def)
qed

text \<open>A buffer that ends inside a batch holds the batches before it.\<close>

lemma read_Records_cut:
  assumes "wconcat (write_RecordBatch K) rs = Ok buf" and "write_RecordBatch K r = Ok bs"
    and "k < length bs" and "write_NullableBytes (Some (buf @ take k bs)) = Ok bytes"
  shows "read_Records K (bytes @ rest, e) = Ok (rs, (rest, e))"
  using read_batches_all [OF assms(1), of "take k bs" "[]"] read_batches_cut [OF assms(2,3), of rs]
    assms(4)
  by (simp add: read_Records_def)

end

section \<open>The laws can hold\<close>

text \<open>CRC-32C, bit by bit, in the reflected form (polynomial \<open>0x1EDC6F41\<close>).\<close>

definition crc_bit :: "u32 \<Rightarrow> u32" where
  "crc_bit c = (if c AND 1 = 1 then drop_bit 1 c XOR 0x82F63B78 else drop_bit 1 c)"

definition crc_byte :: "u8 \<Rightarrow> u32 \<Rightarrow> u32" where
  "crc_byte b c = (crc_bit ^^ 8) (c XOR ucast b)"

definition crc32c_bitwise :: "u8 list \<Rightarrow> u32" where
  "crc32c_bitwise bs = NOT (fold crc_byte bs (- 1))"

text \<open>Compressors that store their input.\<close>

definition stored_crates :: crates where
  "stored_crates = \<lparr>varints = zigzag_varint, crc32c = crc32c_bitwise, snap = literal_snap,
     gz_decoder = (\<lambda>s. s), gz_left = (\<lambda>s. ([], snd s)), gz_encode = Inr,
     lz4_decoder = Inr, lz4_finish = (\<lambda>s. Inr ([], snd s)), lz4_encode = Inr,
     zstd_decoder = Inr, zstd_left = (\<lambda>s. ([], snd s)), zstd_encode = Inr\<rparr>"

interpretation stored: record_crates stored_crates
  by (intro record_crates.intro record_crates_axioms.intro)
    (simp_all add: stored_crates_def zigzag.varint_crate_axioms literal.snap_crate_axioms)

end
