(* ===== verification/Messages_Data.thy ===== *)
theory Messages_Data
  imports Messages_Common Record_Batch
begin

text \<open>
  The messages of \<open>src/src/protocol/messages/\<close> about partitions and their records:
  \<open>produce.rs\<close>, \<open>fetch.rs\<close>, \<open>list_offsets.rs\<close> and \<open>metadata.rs\<close>.  The field names carry a
  prefix per message.  Produce and fetch take the third-party code of record batches as a
  parameter.
\<close>

section \<open>Produce\<close>

record ProduceRequestPartitionData =
  prp_index :: Int32
  prp_records :: "RecordBatch list"

definition write_ProduceRequestPartitionData ::
    "crates \<Rightarrow> ApiVersion \<Rightarrow> ProduceRequestPartitionData \<Rightarrow> vwres" where
  "write_ProduceRequestPartitionData K version r =
     (let v = version_number version in
     bind_o (assert_that (v \<le> 7)) (\<lambda>_.
     wseq (vw (write_Int32 (prp_index r)))
     (vw (write_Records K (prp_records r)))))"

record ProduceRequestTopicData =
  prt_name :: rstring
  prt_partition_data :: "ProduceRequestPartitionData list"

definition write_ProduceRequestTopicData ::
    "crates \<Rightarrow> ApiVersion \<Rightarrow> ProduceRequestTopicData \<Rightarrow> vwres" where
  "write_ProduceRequestTopicData K version r =
     (let v = version_number version in
     bind_o (assert_that (v \<le> 7)) (\<lambda>_.
     wseq (vw (write_String (prt_name r)))
     (write_versioned_array (write_ProduceRequestPartitionData K version)
        (Some (prt_partition_data r)))))"

record ProduceRequest =
  prq_transactional_id :: "rstring option"
  prq_acks :: Int16
  prq_timeout_ms :: Int32
  prq_topic_data :: "ProduceRequestTopicData list"

definition write_ProduceRequest :: "crates \<Rightarrow> ApiVersion \<Rightarrow> ProduceRequest \<Rightarrow> vwres" where
  "write_ProduceRequest K version r =
     (let v = version_number version in
     bind_o (assert_that (v \<le> 7)) (\<lambda>_.
     wseq (wwhen (v \<ge> 3) (vw (write_NullableString (prq_transactional_id r))))
     (wseq (vw (write_Int16 (prq_acks r)))
     (wseq (vw (write_Int32 (prq_timeout_ms r)))
     (write_versioned_array (write_ProduceRequestTopicData K version)
        (Some (prq_topic_data r)))))))"

definition Produce_type :: request_type where
  "Produce_type = \<lparr>API_KEY = Produce, API_VERSION_RANGE = version_range 3 7,
     FIRST_TAGGED_FIELD_IN_REQUEST_VERSION = ApiVersion 9,
     FIRST_TAGGED_FIELD_IN_RESPONSE_VERSION = ApiVersion 9\<rparr>"

record ProduceResponsePartitionResponse =
  psp_index :: Int32
  psp_error :: "Error option"
  psp_base_offset :: Int64
  psp_log_append_time_ms :: "Int64 option"
  psp_log_start_offset :: "Int64 option"

definition read_ProduceResponsePartitionResponse ::
    "ApiVersion \<Rightarrow> ProduceResponsePartitionResponse reader" where
  "read_ProduceResponsePartitionResponse version =
     (let v = version_number version in
     rbind (rlift (assert_that (v \<le> 7))) (\<lambda>_.
     rbind read_Int32 (\<lambda>index.
     rbind read_error_code (\<lambda>error.
     rbind read_Int64 (\<lambda>base_offset.
     rbind (rwhen (v \<ge> 2) read_Int64) (\<lambda>log_append_time_ms.
     rbind (rwhen (v \<ge> 5) read_Int64) (\<lambda>log_start_offset.
     rret \<lparr>psp_index = index, psp_error = error, psp_base_offset = base_offset,
           psp_log_append_time_ms = log_append_time_ms,
           psp_log_start_offset = log_start_offset\<rparr>)))))))"

record ProduceResponseResponse =
  pst_name :: rstring
  pst_partition_responses :: "ProduceResponsePartitionResponse list"

definition read_ProduceResponseResponse :: "ApiVersion \<Rightarrow> ProduceResponseResponse reader" where
  "read_ProduceResponseResponse version =
     (let v = version_number version in
     rbind (rlift (assert_that (v \<le> 7))) (\<lambda>_.
     rbind read_String (\<lambda>name.
     rbind (read_versioned_array (read_ProduceResponsePartitionResponse version))
       (\<lambda>partition_responses.
     rret \<lparr>pst_name = name, pst_partition_responses = or_empty partition_responses\<rparr>))))"

record ProduceResponse =
  psr_responses :: "ProduceResponseResponse list"
  psr_throttle_time_ms :: "Int32 option"

definition read_ProduceResponse :: "ApiVersion \<Rightarrow> ProduceResponse reader" where
  "read_ProduceResponse version =
     (let v = version_number version in
     rbind (rlift (assert_that (v \<le> 7))) (\<lambda>_.
     rbind (read_versioned_array (read_ProduceResponseResponse version)) (\<lambda>responses.
     rbind (rwhen (v \<ge> 1) read_Int32) (\<lambda>throttle_time_ms.
     rret \<lparr>psr_responses = or_empty responses, psr_throttle_time_ms = throttle_time_ms\<rparr>))))"

section \<open>Fetch\<close>

record FetchRequestPartition =
  frp_partition :: Int32
  frp_fetch_offset :: Int64
  frp_partition_max_bytes :: Int32

definition write_FetchRequestPartition :: "ApiVersion \<Rightarrow> FetchRequestPartition \<Rightarrow> vwres" where
  "write_FetchRequestPartition version r =
     (let v = version_number version in
     bind_o (assert_that (v \<le> 4)) (\<lambda>_.
     wseq (vw (write_Int32 (frp_partition r)))
     (wseq (vw (write_Int64 (frp_fetch_offset r)))
     (vw (write_Int32 (frp_partition_max_bytes r))))))"

record FetchRequestTopic =
  frt_topic :: rstring
  frt_partitions :: "FetchRequestPartition list"

definition write_FetchRequestTopic :: "ApiVersion \<Rightarrow> FetchRequestTopic \<Rightarrow> vwres" where
  "write_FetchRequestTopic version r =
     (let v = version_number version in
     bind_o (assert_that (v \<le> 4)) (\<lambda>_.
     wseq (vw (write_String (frt_topic r)))
     (write_versioned_array (write_FetchRequestPartition version) (Some (frt_partitions r)))))"

record FetchRequest =
  frq_replica_id :: Int32
  frq_max_wait_ms :: Int32
  frq_min_bytes :: Int32
  frq_max_bytes :: "Int32 option"
  frq_isolation_level :: "IsolationLevel option"
  frq_topics :: "FetchRequestTopic list"

text \<open>\<open>unwrap_or\<close> and \<open>unwrap_or_default\<close>.\<close>

definition unwrap_or :: "'a \<Rightarrow> 'a option \<Rightarrow> 'a" where
  "unwrap_or d x = (case x of Some y \<Rightarrow> y | None \<Rightarrow> d)"

definition write_FetchRequest :: "ApiVersion \<Rightarrow> FetchRequest \<Rightarrow> vwres" where
  "write_FetchRequest version r =
     (let v = version_number version in
     bind_o (assert_that (v \<le> 4)) (\<lambda>_.
     wseq (vw (write_Int32 (frq_replica_id r)))
     (wseq (vw (write_Int32 (frq_max_wait_ms r)))
     (wseq (vw (write_Int32 (frq_min_bytes r)))
     (wseq (wwhen (v \<ge> 3) (vw (write_Int32 (unwrap_or 0x7FFFFFFF (frq_max_bytes r)))))
     (wseq (wwhen (v \<ge> 4) (vw (write_Int8 (Int8_from_IsolationLevel
              (unwrap_or ReadUncommitted (frq_isolation_level r))))))
     (write_versioned_array (write_FetchRequestTopic version) (Some (frq_topics r)))))))))"

definition Fetch_type :: request_type where
  "Fetch_type = \<lparr>API_KEY = Fetch, API_VERSION_RANGE = version_range 4 4,
     FIRST_TAGGED_FIELD_IN_REQUEST_VERSION = ApiVersion 12,
     FIRST_TAGGED_FIELD_IN_RESPONSE_VERSION = ApiVersion 12\<rparr>"

record FetchResponseAbortedTransaction =
  fra_producer_id :: Int64
  fra_first_offset :: Int64

definition read_FetchResponseAbortedTransaction ::
    "ApiVersion \<Rightarrow> FetchResponseAbortedTransaction reader" where
  "read_FetchResponseAbortedTransaction version =
     (let v = version_number version in
     rbind (rlift (assert_that (4 \<le> v \<and> v \<le> 4))) (\<lambda>_.
     rbind read_Int64 (\<lambda>producer_id.
     rbind read_Int64 (\<lambda>first_offset.
     rret \<lparr>fra_producer_id = producer_id, fra_first_offset = first_offset\<rparr>))))"

record FetchResponsePartition =
  fsp_partition_index :: Int32
  fsp_error_code :: "Error option"
  fsp_high_watermark :: Int64
  fsp_last_stable_offset :: "Int64 option"
  fsp_aborted_transactions :: "FetchResponseAbortedTransaction list"
  fsp_records :: "RecordBatch list"

definition read_FetchResponsePartition :: "crates \<Rightarrow> ApiVersion \<Rightarrow> FetchResponsePartition reader" where
  "read_FetchResponsePartition K version =
     (let v = version_number version in
     rbind (rlift (assert_that (v \<le> 4))) (\<lambda>_.
     rbind read_Int32 (\<lambda>partition_index.
     rbind read_error_code (\<lambda>error_code.
     rbind read_Int64 (\<lambda>high_watermark.
     rbind (rwhen (v \<ge> 4) read_Int64) (\<lambda>last_stable_offset.
     rbind (rwhen (v \<ge> 4)
       (read_versioned_array (read_FetchResponseAbortedTransaction version))) (\<lambda>aborted_transactions.
     rbind (read_Records K) (\<lambda>records.
     rret \<lparr>fsp_partition_index = partition_index, fsp_error_code = error_code,
           fsp_high_watermark = high_watermark, fsp_last_stable_offset = last_stable_offset,
           fsp_aborted_transactions = or_empty (Option.bind aborted_transactions id),
           fsp_records = records\<rparr>))))))))"

record FetchResponseTopic =
  fst_topic :: rstring
  fst_partitions :: "FetchResponsePartition list"

definition read_FetchResponseTopic :: "crates \<Rightarrow> ApiVersion \<Rightarrow> FetchResponseTopic reader" where
  "read_FetchResponseTopic K version =
     (let v = version_number version in
     rbind (rlift (assert_that (v \<le> 4))) (\<lambda>_.
     rbind read_String (\<lambda>topic.
     rbind (read_versioned_array (read_FetchResponsePartition K version)) (\<lambda>partitions.
     rret \<lparr>fst_topic = topic, fst_partitions = or_empty partitions\<rparr>))))"

record FetchResponse =
  fsr_throttle_time_ms :: "Int32 option"
  fsr_responses :: "FetchResponseTopic list"

definition read_FetchResponse :: "crates \<Rightarrow> ApiVersion \<Rightarrow> FetchResponse reader" where
  "read_FetchResponse K version =
     (let v = version_number version in
     rbind (rlift (assert_that (v \<le> 4))) (\<lambda>_.
     rbind (rwhen (v \<ge> 1) read_Int32) (\<lambda>throttle_time_ms.
     rbind (read_versioned_array (read_FetchResponseTopic K version)) (\<lambda>responses.
     rret \<lparr>fsr_throttle_time_ms = throttle_time_ms, fsr_responses = or_empty responses\<rparr>))))"

section \<open>ListOffsets\<close>

record ListOffsetsRequestPartition =
  lop_partition_index :: Int32
  lop_timestamp :: Int64
  lop_max_num_offsets :: "Int32 option"

definition write_ListOffsetsRequestPartition ::
    "ApiVersion \<Rightarrow> ListOffsetsRequestPartition \<Rightarrow> vwres" where
  "write_ListOffsetsRequestPartition version r =
     (let v = version_number version in
     bind_o (assert_that (v \<le> 3)) (\<lambda>_.
     wseq (vw (write_Int32 (lop_partition_index r)))
     (wseq (vw (write_Int64 (lop_timestamp r)))
     (wwhen (v < 1) (vw (write_Int32 (unwrap_or 1 (lop_max_num_offsets r))))))))"

record ListOffsetsRequestTopic =
  lot_name :: rstring
  lot_partitions :: "ListOffsetsRequestPartition list"

definition write_ListOffsetsRequestTopic :: "ApiVersion \<Rightarrow> ListOffsetsRequestTopic \<Rightarrow> vwres" where
  "write_ListOffsetsRequestTopic version r =
     (let v = version_number version in
     bind_o (assert_that (v \<le> 3)) (\<lambda>_.
     wseq (vw (write_String (lot_name r)))
     (write_versioned_array (write_ListOffsetsRequestPartition version) (Some (lot_partitions r)))))"

record ListOffsetsRequest =
  loq_replica_id :: Int32
  loq_isolation_level :: "IsolationLevel option"
  loq_topics :: "ListOffsetsRequestTopic list"

definition write_ListOffsetsRequest :: "ApiVersion \<Rightarrow> ListOffsetsRequest \<Rightarrow> vwres" where
  "write_ListOffsetsRequest version r =
     (let v = version_number version in
     bind_o (assert_that (v \<le> 3)) (\<lambda>_.
     wseq (vw (write_Int32 (loq_replica_id r)))
     (wseq (wwhen (v \<ge> 2) (vw (write_Int8 (Int8_from_IsolationLevel
              (unwrap_or ReadUncommitted (loq_isolation_level r))))))
     (write_versioned_array (write_ListOffsetsRequestTopic version) (Some (loq_topics r))))))"

definition ListOffsets_type :: request_type where
  "ListOffsets_type = \<lparr>API_KEY = ListOffsets, API_VERSION_RANGE = version_range 0 3,
     FIRST_TAGGED_FIELD_IN_REQUEST_VERSION = ApiVersion 6,
     FIRST_TAGGED_FIELD_IN_RESPONSE_VERSION = ApiVersion 6\<rparr>"

record ListOffsetsResponsePartition =
  lsp_partition_index :: Int32
  lsp_error_code :: "Error option"
  lsp_old_style_offsets :: "Int64 list option option"
  lsp_timestamp :: "Int64 option"
  lsp_offset :: "Int64 option"

definition read_ListOffsetsResponsePartition ::
    "ApiVersion \<Rightarrow> ListOffsetsResponsePartition reader" where
  "read_ListOffsetsResponsePartition version =
     (let v = version_number version in
     rbind (rlift (assert_that (v \<le> 3))) (\<lambda>_.
     rbind read_Int32 (\<lambda>partition_index.
     rbind read_error_code (\<lambda>error_code.
     rbind (rwhen (v < 1) (read_Array read_Int64)) (\<lambda>old_style_offsets.
     rbind (rwhen (v \<ge> 1) read_Int64) (\<lambda>timestamp.
     rbind (rwhen (v \<ge> 1) read_Int64) (\<lambda>offset.
     rret \<lparr>lsp_partition_index = partition_index, lsp_error_code = error_code,
           lsp_old_style_offsets = old_style_offsets, lsp_timestamp = timestamp,
           lsp_offset = offset\<rparr>)))))))"

record ListOffsetsResponseTopic =
  lst_name :: rstring
  lst_partitions :: "ListOffsetsResponsePartition list"

definition read_ListOffsetsResponseTopic :: "ApiVersion \<Rightarrow> ListOffsetsResponseTopic reader" where
  "read_ListOffsetsResponseTopic version =
     (let v = version_number version in
     rbind (rlift (assert_that (v \<le> 3))) (\<lambda>_.
     rbind read_String (\<lambda>name.
     rbind (read_versioned_array (read_ListOffsetsResponsePartition version)) (\<lambda>partitions.
     rret \<lparr>lst_name = name, lst_partitions = or_empty partitions\<rparr>))))"

record ListOffsetsResponse =
  lsr_throttle_time_ms :: "Int32 option"
  lsr_topics :: "ListOffsetsResponseTopic list"

definition read_ListOffsetsResponse :: "ApiVersion \<Rightarrow> ListOffsetsResponse reader" where
  "read_ListOffsetsResponse version =
     (let v = version_number version in
     rbind (rlift (assert_that (v \<le> 3))) (\<lambda>_.
     rbind (rwhen (v \<ge> 2) read_Int32) (\<lambda>throttle_time_ms.
     rbind (read_versioned_array (read_ListOffsetsResponseTopic version)) (\<lambda>topics.
     rret \<lparr>lsr_throttle_time_ms = throttle_time_ms, lsr_topics = or_empty topics\<rparr>))))"

section \<open>Metadata\<close>

record MetadataRequestTopic =
  mrt_name :: rstring

definition write_MetadataRequestTopic :: "ApiVersion \<Rightarrow> MetadataRequestTopic \<Rightarrow> vwres" where
  "write_MetadataRequestTopic version r =
     bind_o (assert_that (version_number version \<le> 4)) (\<lambda>_.
     vw (write_String (mrt_name r)))"

record MetadataRequest =
  mrq_topics :: "MetadataRequestTopic list option"
  mrq_allow_auto_topic_creation :: "bool option"

definition Metadata_type :: request_type where
  "Metadata_type = \<lparr>API_KEY = Metadata, API_VERSION_RANGE = version_range 0 4,
     FIRST_TAGGED_FIELD_IN_REQUEST_VERSION = ApiVersion 9,
     FIRST_TAGGED_FIELD_IN_RESPONSE_VERSION = ApiVersion 9\<rparr>"

definition write_MetadataRequest :: "ApiVersion \<Rightarrow> MetadataRequest \<Rightarrow> vwres" where
  "write_MetadataRequest version r =
     (let v = version_number version in
     bind_o (assert_that (v \<le> 4)) (\<lambda>_.
       if v < 4 \<and> mrq_allow_auto_topic_creation r \<noteq> None
       then Err (FieldNotAvailable ''allow_auto_topic_creation'' version)
       else
     wseq (write_versioned_array (write_MetadataRequestTopic version) (mrq_topics r))
     (wwhen (v \<ge> 4) (write_or_default write_Boolean True (mrq_allow_auto_topic_creation r)))))"

record MetadataResponseBroker =
  mrb_node_id :: Int32
  mrb_host :: rstring
  mrb_port :: Int32
  mrb_rack :: "rstring option option"

definition read_MetadataResponseBroker :: "ApiVersion \<Rightarrow> MetadataResponseBroker reader" where
  "read_MetadataResponseBroker version =
     (let v = version_number version in
     rbind (rlift (assert_that (v \<le> 4))) (\<lambda>_.
     rbind read_Int32 (\<lambda>node_id.
     rbind read_String (\<lambda>host.
     rbind read_Int32 (\<lambda>port.
     rbind (rwhen (v \<ge> 1) read_NullableString) (\<lambda>rack.
     rret \<lparr>mrb_node_id = node_id, mrb_host = host, mrb_port = port, mrb_rack = rack\<rparr>))))))"

record MetadataResponsePartition =
  mrp_error :: "Error option"
  mrp_partition_index :: Int32
  mrp_leader_id :: Int32
  mrp_replica_nodes :: "Int32 list option"
  mrp_isr_nodes :: "Int32 list option"

definition read_MetadataResponsePartition :: "ApiVersion \<Rightarrow> MetadataResponsePartition reader" where
  "read_MetadataResponsePartition version =
     (let v = version_number version in
     rbind (rlift (assert_that (v \<le> 4))) (\<lambda>_.
     rbind read_error_code (\<lambda>error.
     rbind read_Int32 (\<lambda>partition_index.
     rbind read_Int32 (\<lambda>leader_id.
     rbind (read_Array read_Int32) (\<lambda>replica_nodes.
     rbind (read_Array read_Int32) (\<lambda>isr_nodes.
     rret \<lparr>mrp_error = error, mrp_partition_index = partition_index, mrp_leader_id = leader_id,
           mrp_replica_nodes = replica_nodes, mrp_isr_nodes = isr_nodes\<rparr>)))))))"

record MetadataResponseTopic =
  mst_error :: "Error option"
  mst_name :: rstring
  mst_is_internal :: "bool option"
  mst_partitions :: "MetadataResponsePartition list"

definition read_MetadataResponseTopic :: "ApiVersion \<Rightarrow> MetadataResponseTopic reader" where
  "read_MetadataResponseTopic version =
     (let v = version_number version in
     rbind (rlift (assert_that (v \<le> 4))) (\<lambda>_.
     rbind read_error_code (\<lambda>error.
     rbind read_String (\<lambda>name.
     rbind (rwhen (v \<ge> 1) read_Boolean) (\<lambda>is_internal.
     rbind (read_versioned_array (read_MetadataResponsePartition version)) (\<lambda>partitions.
     rret \<lparr>mst_error = error, mst_name = name, mst_is_internal = is_internal,
           mst_partitions = or_empty partitions\<rparr>))))))"

record MetadataResponse =
  msr_throttle_time_ms :: "Int32 option"
  msr_brokers :: "MetadataResponseBroker list"
  msr_cluster_id :: "rstring option option"
  msr_controller_id :: "Int32 option"
  msr_topics :: "MetadataResponseTopic list"

definition read_MetadataResponse :: "ApiVersion \<Rightarrow> MetadataResponse reader" where
  "read_MetadataResponse version =
     (let v = version_number version in
     rbind (rlift (assert_that (v \<le> 4))) (\<lambda>_.
     rbind (rwhen (v \<ge> 3) read_Int32) (\<lambda>throttle_time_ms.
     rbind (read_versioned_array (read_MetadataResponseBroker version)) (\<lambda>brokers.
     rbind (rwhen (v \<ge> 2) read_NullableString) (\<lambda>cluster_id.
     rbind (rwhen (v \<ge> 1) read_Int32) (\<lambda>controller_id.
     rbind (read_versioned_array (read_MetadataResponseTopic version)) (\<lambda>topics.
     rret \<lparr>msr_throttle_time_ms = throttle_time_ms, msr_brokers = or_empty brokers,
           msr_cluster_id = cluster_id, msr_controller_id = controller_id,
           msr_topics = or_empty topics\<rparr>)))))))"

section \<open>Contracts of the responses\<close>

lemma safe_ProduceResponsePartitionResponse [reader_intros]:
  "version_number v \<le> 7 \<Longrightarrow> safe_reader (read_ProduceResponsePartitionResponse v)"
  unfolding read_ProduceResponsePartitionResponse_def Let_def by (auto intro!: reader_intros)

lemma safe_ProduceResponseResponse [reader_intros]:
  "version_number v \<le> 7 \<Longrightarrow> safe_reader (read_ProduceResponseResponse v)"
  unfolding read_ProduceResponseResponse_def Let_def by (auto intro!: reader_intros)

lemma safe_ProduceResponse:
  "version_number v \<le> 7 \<Longrightarrow> safe_reader (read_ProduceResponse v)"
  unfolding read_ProduceResponse_def Let_def by (auto intro!: reader_intros)

lemma safe_ListOffsetsResponsePartition [reader_intros]:
  "version_number v \<le> 3 \<Longrightarrow> safe_reader (read_ListOffsetsResponsePartition v)"
  unfolding read_ListOffsetsResponsePartition_def Let_def by (auto intro!: reader_intros)

lemma safe_ListOffsetsResponseTopic [reader_intros]:
  "version_number v \<le> 3 \<Longrightarrow> safe_reader (read_ListOffsetsResponseTopic v)"
  unfolding read_ListOffsetsResponseTopic_def Let_def by (auto intro!: reader_intros)

lemma safe_ListOffsetsResponse:
  "version_number v \<le> 3 \<Longrightarrow> safe_reader (read_ListOffsetsResponse v)"
  unfolding read_ListOffsetsResponse_def Let_def by (auto intro!: reader_intros)

lemma safe_MetadataResponseBroker [reader_intros]:
  "version_number v \<le> 4 \<Longrightarrow> safe_reader (read_MetadataResponseBroker v)"
  unfolding read_MetadataResponseBroker_def Let_def by (auto intro!: reader_intros)

lemma safe_MetadataResponsePartition [reader_intros]:
  "version_number v \<le> 4 \<Longrightarrow> safe_reader (read_MetadataResponsePartition v)"
  unfolding read_MetadataResponsePartition_def Let_def by (auto intro!: reader_intros)

lemma safe_MetadataResponseTopic [reader_intros]:
  "version_number v \<le> 4 \<Longrightarrow> safe_reader (read_MetadataResponseTopic v)"
  unfolding read_MetadataResponseTopic_def Let_def by (auto intro!: reader_intros)

lemma safe_MetadataResponse:
  "version_number v \<le> 4 \<Longrightarrow> safe_reader (read_MetadataResponse v)"
  unfolding read_MetadataResponse_def Let_def by (auto intro!: reader_intros)

lemma safe_FetchResponseAbortedTransaction [reader_intros]:
  "version_number v = 4 \<Longrightarrow> safe_reader (read_FetchResponseAbortedTransaction v)"
  unfolding read_FetchResponseAbortedTransaction_def Let_def by (auto intro!: reader_intros)

context record_crates
begin

lemma safe_FetchResponsePartition:
  "version_number v \<le> 4 \<Longrightarrow> safe_reader (read_FetchResponsePartition K v)"
  unfolding read_FetchResponsePartition_def Let_def
  by (auto intro!: reader_intros safe_read_Records)

lemma safe_FetchResponseTopic:
  "version_number v \<le> 4 \<Longrightarrow> safe_reader (read_FetchResponseTopic K v)"
  unfolding read_FetchResponseTopic_def Let_def
  by (auto intro!: reader_intros safe_FetchResponsePartition)

lemma safe_FetchResponse:
  "version_number v \<le> 4 \<Longrightarrow> safe_reader (read_FetchResponse K v)"
  unfolding read_FetchResponse_def Let_def
  by (auto intro!: reader_intros safe_FetchResponseTopic)

lemma response_reader_Fetch: "response_reader (read_FetchResponse K) Fetch_type"
  by (rule response_readerI, rule safe_FetchResponse, simp add: Fetch_type_def)
    (simp add: Fetch_type_def read_FetchResponse_def)

end

interpretation produce: response_reader read_ProduceResponse Produce_type
  by (rule response_readerI, rule safe_ProduceResponse, simp add: Produce_type_def)
    (simp add: Produce_type_def read_ProduceResponse_def)

interpretation list_offsets: response_reader read_ListOffsetsResponse ListOffsets_type
  by (rule response_readerI, rule safe_ListOffsetsResponse, simp add: ListOffsets_type_def)
    (simp add: ListOffsets_type_def read_ListOffsetsResponse_def)

interpretation metadata: response_reader read_MetadataResponse Metadata_type
  by (rule response_readerI, rule safe_MetadataResponse, simp add: Metadata_type_def)
    (simp add: Metadata_type_def read_MetadataResponse_def)

interpretation fetch: response_reader "read_FetchResponse stored_crates" Fetch_type
  by (rule stored.response_reader_Fetch)

section \<open>Contracts of the requests\<close>

lemma no_panic_io_try [no_panic_intros]: "\<not> is_panic (io_try f m)"
  by simp

lemma no_panic_sum [no_panic_intros]:
  "(\<And>a. \<not> is_panic (f a)) \<Longrightarrow> (\<And>b. \<not> is_panic (g b)) \<Longrightarrow>
    \<not> is_panic (case x of Inl a \<Rightarrow> f a | Inr b \<Rightarrow> g b)"
  by (cases x) auto

lemma no_panic_varints [no_panic_intros]:
  "\<not> is_panic (write_Varint V x)" "\<not> is_panic (write_Varlong V y)"
  by (simp_all add: write_Varint_def write_Varlong_def)

lemma no_panic_record_parts [no_panic_intros]:
  "\<not> is_panic (write_RecordHeader V h)" "\<not> is_panic (write_opt_bytes V x)"
  "\<not> is_panic (write_ControlBatchRecord c)"
  unfolding write_RecordHeader_def write_opt_bytes_def write_ControlBatchRecord_def
  by (intro no_panic_intros)+

lemma no_panic_Record [no_panic_intros]: "\<not> is_panic (write_Record V r)"
  unfolding write_Record_def write_Record_inner_def by (intro no_panic_intros)

lemma no_panic_compressed [no_panic_intros]: "\<not> is_panic (write_compressed K c r)"
proof -
  have "\<not> is_panic (write_records (varints K) r)"
    by (cases r) (auto simp: write_records_def no_panic_record_parts no_panic_Record
        intro!: no_panic_intros(2))
  then show ?thesis
    by (cases c) (auto simp: write_compressed_def split: sum.splits)
qed

lemma no_panic_Records [no_panic_intros]: "\<not> is_panic (write_Records K rs)"
  unfolding write_Records_def write_RecordBatch_def write_RecordBatchBodyRef_def Let_def
  by (intro no_panic_intros)

lemma no_panic_ProduceRequestPartitionData [no_panic_intros]:
  "version_number v \<le> 7 \<Longrightarrow> \<not> is_panic (write_ProduceRequestPartitionData K v r)"
  unfolding write_ProduceRequestPartitionData_def Let_def by (intro no_panic_intros; assumption?)

lemma no_panic_ProduceRequestTopicData [no_panic_intros]:
  "version_number v \<le> 7 \<Longrightarrow> \<not> is_panic (write_ProduceRequestTopicData K v r)"
  unfolding write_ProduceRequestTopicData_def Let_def by (intro no_panic_intros; assumption?)

lemma no_panic_ProduceRequest:
  "version_number v \<le> 7 \<Longrightarrow> \<not> is_panic (write_ProduceRequest K v r)"
  unfolding write_ProduceRequest_def Let_def by (intro no_panic_intros; assumption?)

lemma no_panic_FetchRequestPartition [no_panic_intros]:
  "version_number v \<le> 4 \<Longrightarrow> \<not> is_panic (write_FetchRequestPartition v r)"
  unfolding write_FetchRequestPartition_def Let_def by (intro no_panic_intros; assumption?)

lemma no_panic_FetchRequestTopic [no_panic_intros]:
  "version_number v \<le> 4 \<Longrightarrow> \<not> is_panic (write_FetchRequestTopic v r)"
  unfolding write_FetchRequestTopic_def Let_def by (intro no_panic_intros; assumption?)

lemma no_panic_FetchRequest:
  "version_number v \<le> 4 \<Longrightarrow> \<not> is_panic (write_FetchRequest v r)"
  unfolding write_FetchRequest_def Let_def by (intro no_panic_intros; assumption?)

lemma no_panic_ListOffsetsRequestPartition [no_panic_intros]:
  "version_number v \<le> 3 \<Longrightarrow> \<not> is_panic (write_ListOffsetsRequestPartition v r)"
  unfolding write_ListOffsetsRequestPartition_def Let_def by (intro no_panic_intros; assumption?)

lemma no_panic_ListOffsetsRequestTopic [no_panic_intros]:
  "version_number v \<le> 3 \<Longrightarrow> \<not> is_panic (write_ListOffsetsRequestTopic v r)"
  unfolding write_ListOffsetsRequestTopic_def Let_def by (intro no_panic_intros; assumption?)

lemma no_panic_ListOffsetsRequest:
  "version_number v \<le> 3 \<Longrightarrow> \<not> is_panic (write_ListOffsetsRequest v r)"
  unfolding write_ListOffsetsRequest_def Let_def by (intro no_panic_intros; assumption?)

lemma no_panic_MetadataRequestTopic [no_panic_intros]:
  "version_number v \<le> 4 \<Longrightarrow> \<not> is_panic (write_MetadataRequestTopic v r)"
  unfolding write_MetadataRequestTopic_def Let_def by (intro no_panic_intros; assumption?)

lemma no_panic_MetadataRequest:
  "version_number v \<le> 4 \<Longrightarrow> \<not> is_panic (write_MetadataRequest v r)"
  unfolding write_MetadataRequest_def Let_def by (intro no_panic_intros; assumption?)

interpretation produce_out: request_writer "write_ProduceRequest K" Produce_type for K
  by (rule request_writer.intro, rule no_panic_ProduceRequest, simp add: Produce_type_def)
    (simp add: Produce_type_def write_ProduceRequest_def)

interpretation fetch_out: request_writer write_FetchRequest Fetch_type
  by (rule request_writer.intro, rule no_panic_FetchRequest, simp add: Fetch_type_def)
    (simp add: Fetch_type_def write_FetchRequest_def)

interpretation list_offsets_out: request_writer write_ListOffsetsRequest ListOffsets_type
  by (rule request_writer.intro, rule no_panic_ListOffsetsRequest, simp add: ListOffsets_type_def)
    (simp add: ListOffsets_type_def write_ListOffsetsRequest_def)

interpretation metadata_out: request_writer write_MetadataRequest Metadata_type
  by (rule request_writer.intro, rule no_panic_MetadataRequest, simp add: Metadata_type_def)
    (simp add: Metadata_type_def write_MetadataRequest_def)

section \<open>The broker's side of a produce and a fetch request\<close>

text \<open>
  A specification of what a broker reads, after the protocol guide that the source refers to:
  the fields of the request in their order, in the versions the client supports.
\<close>

definition broker_partition_data :: "crates \<Rightarrow> ProduceRequestPartitionData reader" where
  "broker_partition_data K =
     rbind read_Int32 (\<lambda>index.
     rbind (read_Records K) (\<lambda>records.
     rret \<lparr>prp_index = index, prp_records = records\<rparr>))"

definition broker_topic_data :: "crates \<Rightarrow> ProduceRequestTopicData reader" where
  "broker_topic_data K =
     rbind read_String (\<lambda>name.
     rbind (read_versioned_array (broker_partition_data K)) (\<lambda>partition_data.
     rret \<lparr>prt_name = name, prt_partition_data = or_empty partition_data\<rparr>))"

definition broker_ProduceRequest :: "crates \<Rightarrow> ProduceRequest reader" where
  "broker_ProduceRequest K =
     rbind read_NullableString (\<lambda>transactional_id.
     rbind read_Int16 (\<lambda>acks.
     rbind read_Int32 (\<lambda>timeout_ms.
     rbind (read_versioned_array (broker_topic_data K)) (\<lambda>topic_data.
     rret \<lparr>prq_transactional_id = transactional_id, prq_acks = acks, prq_timeout_ms = timeout_ms,
           prq_topic_data = or_empty topic_data\<rparr>))))"

definition broker_FetchRequestPartition :: "FetchRequestPartition reader" where
  "broker_FetchRequestPartition =
     rbind read_Int32 (\<lambda>partition.
     rbind read_Int64 (\<lambda>fetch_offset.
     rbind read_Int32 (\<lambda>partition_max_bytes.
     rret \<lparr>frp_partition = partition, frp_fetch_offset = fetch_offset,
           frp_partition_max_bytes = partition_max_bytes\<rparr>)))"

definition broker_FetchRequestTopic :: "FetchRequestTopic reader" where
  "broker_FetchRequestTopic =
     rbind read_String (\<lambda>topic.
     rbind (read_versioned_array broker_FetchRequestPartition) (\<lambda>partitions.
     rret \<lparr>frt_topic = topic, frt_partitions = or_empty partitions\<rparr>))"

definition broker_FetchRequest :: "FetchRequest reader" where
  "broker_FetchRequest =
     rbind read_Int32 (\<lambda>replica_id.
     rbind read_Int32 (\<lambda>max_wait_ms.
     rbind read_Int32 (\<lambda>min_bytes.
     rbind read_Int32 (\<lambda>max_bytes.
     rbind read_Int8 (\<lambda>level.
     rbind (read_versioned_array broker_FetchRequestTopic) (\<lambda>topics.
     rret \<lparr>frq_replica_id = replica_id, frq_max_wait_ms = max_wait_ms, frq_min_bytes = min_bytes,
           frq_max_bytes = Some max_bytes,
           frq_isolation_level = Some (if level = 1 then ReadCommitted else ReadUncommitted),
           frq_topics = or_empty topics\<rparr>))))))"

definition norm_FetchRequest :: "FetchRequest \<Rightarrow> FetchRequest" where
  "norm_FetchRequest r =
     r\<lparr>frq_max_bytes := Some (unwrap_or 0x7FFFFFFF (frq_max_bytes r)),
       frq_isolation_level := Some (unwrap_or ReadUncommitted (frq_isolation_level r))\<rparr>"

lemma level_roundtrip [simp]:
  "(if Int8_from_IsolationLevel l = 1 then ReadCommitted else ReadUncommitted) = l"
  by (cases l) simp_all

lemma codec_versioned_array:
  "codec rd wr \<Longrightarrow> write_versioned_array wr x = Ok bs \<Longrightarrow>
    read_versioned_array rd (bs @ rest, e) = Ok (x, (rest, e))"
  using norm_codec.roundtrip [OF norm_codec_versioned_array [OF codec_is_norm]]
  by (fastforce simp: option.map_ident)

lemma codec_FetchRequestTopic: "codec broker_FetchRequestTopic (write_FetchRequestTopic v)"
proof -
  have "codec broker_FetchRequestPartition (write_FetchRequestPartition v)"
    by (rule codecI)
      (auto simp: broker_FetchRequestPartition_def write_FetchRequestPartition_def Let_def)
  note array = codec_versioned_array [OF this]
  show ?thesis
    by (rule codecI)
      (auto simp: broker_FetchRequestTopic_def write_FetchRequestTopic_def Let_def or_empty_def array)
qed

lemma norm_codec_FetchRequest:
  assumes "in_range v (API_VERSION_RANGE Fetch_type)"
  shows "norm_codec broker_FetchRequest (write_FetchRequest v) norm_FetchRequest"
  using assms
  by (intro norm_codecI)
    (auto simp: broker_FetchRequest_def write_FetchRequest_def Let_def norm_FetchRequest_def
      Fetch_type_def or_empty_def codec_versioned_array [OF codec_FetchRequestTopic])

context record_crates
begin

lemma codec_topic_data: "codec (broker_topic_data K) (write_ProduceRequestTopicData K v)"
proof -
  have "codec (broker_partition_data K) (write_ProduceRequestPartitionData K v)"
    by (rule codecI)
      (auto simp: broker_partition_data_def write_ProduceRequestPartitionData_def Let_def
        codec_roundtrip [OF codec_Records])
  note array = codec_versioned_array [OF this]
  show ?thesis
    by (rule codecI)
      (auto simp: broker_topic_data_def write_ProduceRequestTopicData_def Let_def or_empty_def array)
qed

lemma codec_ProduceRequest:
  assumes "in_range v (API_VERSION_RANGE Produce_type)"
  shows "codec (broker_ProduceRequest K) (write_ProduceRequest K v)"
  using assms
  by (intro codecI)
    (auto simp: broker_ProduceRequest_def write_ProduceRequest_def Let_def Produce_type_def
      or_empty_def codec_versioned_array [OF codec_topic_data])

end

interpretation fetch_request: norm_codec broker_FetchRequest "write_FetchRequest (ApiVersion 4)"
    norm_FetchRequest
  by (rule norm_codec_FetchRequest) (simp add: Fetch_type_def)

end
