(* ===== verification/Broker_Cache.thy ===== *)
theory Broker_Cache
  imports Client_Errors Messages_Data
begin

text \<open>
  What the clients remember of the cluster: the brokers (\<open>src/src/connection/topology.rs\<close>), the
  metadata of all topics (\<open>src/src/client/metadata_cache.rs\<close>), and a connection with a generation
  (\<open>BrokerCacheGeneration\<close> of \<open>src/src/connection.rs\<close>).  A \<open>HashMap\<close> is the list of its entries, the
  order of which is not relied on.

  The locale \<open>generation_cache\<close> is the contract of a cache with generations.  What it gives: a
  user of a value that gives it up never drops another value.
\<close>

section \<open>Topology\<close>

record Broker =
  br_id :: i32
  br_host :: rstring
  br_port :: i32

definition broker_from :: "MetadataResponseBroker \<Rightarrow> Broker" where
  "broker_from b = \<lparr>br_id = mrb_node_id b, br_host = mrb_host b, br_port = mrb_port b\<rparr>"

type_synonym topology = "(i32 \<times> Broker) list"

definition topology_is_empty :: "topology \<Rightarrow> bool" where
  "topology_is_empty t \<longleftrightarrow> t = []"

definition get_broker :: "topology \<Rightarrow> i32 \<Rightarrow> Broker option" where
  "get_broker t k = map_of t k"

definition get_brokers :: "topology \<Rightarrow> Broker list" where
  "get_brokers t = map snd t"

definition topology_entry :: "MetadataResponseBroker \<Rightarrow> topology \<Rightarrow> topology" where
  "topology_entry b t =
     (case map_of t (mrb_node_id b) of
        Some current \<Rightarrow>
          if br_host current \<noteq> mrb_host b \<or> br_port current \<noteq> mrb_port b
          then map (\<lambda>(k, v). (k, if k = mrb_node_id b then broker_from b else v)) t
          else t
      | None \<Rightarrow> t @ [(mrb_node_id b, broker_from b)])"

definition topology_update :: "topology \<Rightarrow> MetadataResponseBroker list \<Rightarrow> topology" where
  "topology_update t brokers = fold topology_entry brokers t"

definition topology_inv :: "topology \<Rightarrow> bool" where
  "topology_inv t \<longleftrightarrow> distinct (map fst t) \<and> (\<forall>(k, b) \<in> set t. br_id b = k)"

lemma map_of_update_key:
  "map_of (map (\<lambda>(k, v). (k, if k = k0 then x else v)) t) =
    (\<lambda>k. if k = k0 then map_option (\<lambda>_. x) (map_of t k) else map_of t k)"
  by (induction t) (auto simp: fun_eq_iff)

lemma topology_entry_keys:
  "map fst (topology_entry b t) =
    (if mrb_node_id b \<in> fst ` set t then map fst t else map fst t @ [mrb_node_id b])"
proof -
  have "map fst (map (\<lambda>(k, v). (k, if k = k0 then x else v)) t) = map fst t" for k0 :: i32 and x :: Broker
    by (simp add: case_prod_unfold)
  then show ?thesis
    using map_of_eq_None_iff [of t "mrb_node_id b"]
    by (cases "map_of t (mrb_node_id b)") (auto simp: topology_entry_def)
qed

lemma topology_entry_inv: "topology_inv t \<Longrightarrow> topology_inv (topology_entry b t)"
proof -
  assume inv: "topology_inv t"
  have "distinct (map fst (topology_entry b t))"
    using inv by (simp add: topology_entry_keys topology_inv_def)
  moreover have "\<forall>(k, x) \<in> set (topology_entry b t). br_id x = k"
    using inv by (auto simp: topology_entry_def topology_inv_def broker_from_def split: option.splits if_splits)
  ultimately show "topology_inv (topology_entry b t)" by (simp add: topology_inv_def)
qed

text \<open>An entry is a broker of the map, whether it is new, changed or the same.\<close>

lemma topology_entry_map:
  assumes "topology_inv t"
  shows "map_of (topology_entry b t) = (map_of t)(mrb_node_id b \<mapsto> broker_from b)"
proof (cases "map_of t (mrb_node_id b)")
  case None
  then show ?thesis by (auto simp: topology_entry_def fun_eq_iff map_add_def split: option.splits)
next
  case (Some current)
  with assms have "br_id current = mrb_node_id b" by (auto simp: topology_inv_def dest: map_of_SomeD)
  with Some show ?thesis
    by (auto simp: topology_entry_def map_of_update_key broker_from_def fun_eq_iff)
qed

lemma topology_update_map:
  "topology_inv t \<Longrightarrow> topology_inv (topology_update t bs) \<and>
    map_of (topology_update t bs) = map_of t ++ map_of (rev (map (\<lambda>b. (mrb_node_id b, broker_from b)) bs))"
proof (induction bs arbitrary: t)
  case (Cons b bs)
  from Cons.IH [OF topology_entry_inv [OF Cons.prems, of b]] topology_entry_map [OF Cons.prems, of b]
  show ?case by (simp add: topology_update_def map_add_upd_left) (simp add: map_add_def fun_eq_iff split: option.splits)
qed (simp add: topology_update_def)

lemma map_of_find:
  "map_of (rev (map (\<lambda>b. (mrb_node_id b, broker_from b)) bs)) k =
    map_option broker_from (find (\<lambda>b. mrb_node_id b = k) (rev bs))"
proof -
  have "map_of (map (\<lambda>b. (mrb_node_id b, broker_from b)) xs) k =
      map_option broker_from (find (\<lambda>b. mrb_node_id b = k) xs)" for xs
    by (induction xs) auto
  then show ?thesis by (simp add: rev_map)
qed

section \<open>Metadata\<close>

record metadata_cache =
  mc_response :: "MetadataResponse option"
  mc_gen :: usize

definition metadata_cache_default :: metadata_cache where
  "metadata_cache_default = \<lparr>mc_response = None, mc_gen = 0\<rparr>"

definition metadata_invalidate :: "usize \<Rightarrow> metadata_cache \<Rightarrow> metadata_cache" where
  "metadata_invalidate gen c = (if mc_gen c \<noteq> gen then c else c\<lparr>mc_response := None\<rparr>)"

definition metadata_update :: "MetadataResponse \<Rightarrow> metadata_cache \<Rightarrow> metadata_cache" where
  "metadata_update m c = c\<lparr>mc_response := Some m, mc_gen := mc_gen c + 1\<rparr>"

definition metadata_get :: "rstring list option \<Rightarrow> metadata_cache \<Rightarrow>
    (MetadataResponse \<times> usize) option \<times> metadata_cache" where
  "metadata_get topics c =
     (case mc_response c of
        None \<Rightarrow> (None, c)
      | Some m \<Rightarrow>
          (case topics of
             None \<Rightarrow> (Some (m, mc_gen c), c)
           | Some want \<Rightarrow>
               let m1 = m\<lparr>msr_topics := filter (\<lambda>t. mst_name t \<in> set want) (msr_topics m)\<rparr>
               in if length (msr_topics m1) \<noteq> length want then (None, metadata_invalidate (mc_gen c) c)
                  else (Some (m1, mc_gen c), c)))"

text \<open>For one topic a hit is the entry of that topic.\<close>

lemma metadata_get_one:
  assumes "metadata_get (Some [name]) c = (Some (m, gen), c')"
  obtains full t where "mc_response c = Some full" "c' = c" "gen = mc_gen c"
    "filter (\<lambda>t. mst_name t = name) (msr_topics full) = [t]" "m = full\<lparr>msr_topics := [t]\<rparr>"
proof -
  from assms obtain full where full: "mc_response c = Some full"
    by (auto simp: metadata_get_def split: option.splits)
  with assms have "length (filter (\<lambda>t. mst_name t = name) (msr_topics full)) = 1"
    and m: "m = full\<lparr>msr_topics := filter (\<lambda>t. mst_name t = name) (msr_topics full)\<rparr>" "c' = c" "gen = mc_gen c"
    by (auto simp: metadata_get_def Let_def split: if_splits)
  then obtain t where "filter (\<lambda>t. mst_name t = name) (msr_topics full) = [t]"
    by (metis One_nat_def length_0_conv length_Suc_conv)
  with full m show thesis by (intro that) auto
qed

section \<open>Connections\<close>

record 'c broker_cache =
  bc_broker :: "'c option"
  bc_gen :: usize

definition broker_cache_start :: "'c broker_cache" where
  "broker_cache_start = \<lparr>bc_broker = None, bc_gen = 0\<rparr>"

text \<open>\<open>bump\<close>, with the connection that is cached.\<close>

definition broker_store :: "'c \<Rightarrow> 'c broker_cache \<Rightarrow> 'c broker_cache" where
  "broker_store conn b = b\<lparr>bc_broker := Some conn, bc_gen := bc_gen b + 1\<rparr>"

definition broker_invalidate :: "usize \<Rightarrow> 'c broker_cache \<Rightarrow> 'c broker_cache" where
  "broker_invalidate gen b = (if bc_gen b \<noteq> gen then b else b\<lparr>bc_broker := None\<rparr>)"

section \<open>Generations\<close>

text \<open>
  The life of a cache: values are stored and invalidated, by any users in any order.  The set is
  what users have seen: values with their generations.
\<close>

inductive cache_history :: "('w \<Rightarrow> 'v option) \<Rightarrow> ('w \<Rightarrow> usize) \<Rightarrow> ('v \<Rightarrow> 'w \<Rightarrow> 'w) \<Rightarrow>
    (usize \<Rightarrow> 'w \<Rightarrow> 'w) \<Rightarrow> 'w \<Rightarrow> (usize \<times> 'v) set \<Rightarrow> bool" for cached gen store invalidate where
  start: "cached w = None \<Longrightarrow> cache_history cached gen store invalidate w {}"
| stored: "cache_history cached gen store invalidate w H \<Longrightarrow>
    cache_history cached gen store invalidate (store v w) (insert (gen (store v w), v) H)"
| invalidated: "cache_history cached gen store invalidate w H \<Longrightarrow>
    cache_history cached gen store invalidate (invalidate g w) H"

locale generation_cache =
  fixes cached :: "'w \<Rightarrow> 'v option" and gen :: "'w \<Rightarrow> usize"
    and store :: "'v \<Rightarrow> 'w \<Rightarrow> 'w" and invalidate :: "usize \<Rightarrow> 'w \<Rightarrow> 'w"
  assumes cached_store: "cached (store v w) = Some v" and gen_store: "gen (store v w) = gen w + 1"
    and gen_invalidate: "gen (invalidate g w) = gen w"
    and cached_invalidate: "cached (invalidate g w) = (if g = gen w then None else cached w)"
begin

lemma history_inv:
  assumes "cache_history cached gen store invalidate w H"
  shows "(\<forall>(g, v) \<in> H. g \<le> gen w) \<and> (\<forall>g v v'. (g, v) \<in> H \<and> (g, v') \<in> H \<longrightarrow> v = v') \<and>
    (\<forall>v. cached w = Some v \<longrightarrow> (gen w, v) \<in> H)"
  using assms
proof (induction rule: cache_history.induct)
  case (stored w H v)
  then show ?case by (fastforce simp: cached_store gen_store)
next
  case (invalidated w H g)
  then show ?case by (auto simp: cached_invalidate gen_invalidate)
qed auto

theorem invalidate_own:
  assumes "cache_history cached gen store invalidate w H" and "(g, v) \<in> H"
  shows "cached (invalidate g w) = (if cached w = Some v \<and> g = gen w then None else cached w)"
proof (cases "g = gen w")
  case True
  show ?thesis
  proof (cases "cached w")
    case (Some v')
    with history_inv [OF assms(1)] assms(2) True have "v' = v" by blast
    with True Some show ?thesis by (simp add: cached_invalidate)
  qed (simp add: cached_invalidate)
qed (simp add: cached_invalidate)

end

interpretation conn: generation_cache bc_broker bc_gen broker_store broker_invalidate
  by unfold_locales (simp_all add: broker_store_def broker_invalidate_def)

interpretation meta: generation_cache mc_response mc_gen metadata_update metadata_invalidate
  by unfold_locales (simp_all add: metadata_update_def metadata_invalidate_def)

end
