(* ===== verification/Backoff.thy ===== *)
theory Backoff
  imports Complex_Main Throttle
begin

text \<open>
  \<open>src/src/backoff.rs\<close>: exponential backoff with jitter, and the loop that retries.

  Seconds in \<open>f64\<close> are real numbers, so that rounding is left out.  The crate \<open>rand\<close> and the
  clock are parameters: \<open>draw lo hi\<close> is \<open>gen_range(lo..hi)\<close> on the state of the world, \<open>sleep\<close> lets
  time pass.  The locale \<open>rand_crate\<close> states what is relied on of \<open>gen_range\<close>, which panics for an
  empty range.  A loop that runs forever is \<open>None\<close>.  What has no errors but can panic is a sum
  with the panic on the left.
\<close>

section \<open>Intervals\<close>

record BackoffConfig =
  cfg_init_backoff :: real
  cfg_max_backoff :: real
  cfg_base :: real
  cfg_deadline :: "real option"

definition default_backoff :: BackoffConfig where
  "default_backoff = \<lparr>cfg_init_backoff = 1 / 10, cfg_max_backoff = 500, cfg_base = 3, cfg_deadline = None\<rparr>"

record Backoff =
  bo_init_backoff :: real
  bo_next_backoff_secs :: real
  bo_max_backoff_secs :: real
  bo_base :: real
  bo_total :: real
  bo_deadline :: "real option"

definition Backoff_new :: "BackoffConfig \<Rightarrow> Backoff" where
  "Backoff_new config = \<lparr>bo_init_backoff = cfg_init_backoff config,
     bo_next_backoff_secs = cfg_init_backoff config, bo_max_backoff_secs = cfg_max_backoff config,
     bo_base = cfg_base config, bo_total = 0, bo_deadline = cfg_deadline config\<rparr>"

type_synonym 'w draw = "real \<Rightarrow> real \<Rightarrow> 'w \<Rightarrow> real \<times> 'w"

text \<open>\<open>Backoff::next\<close>.  \<open>Duration::from_secs_f64\<close> panics for a negative number.\<close>

definition next_interval :: "'w draw \<Rightarrow> Backoff \<Rightarrow> 'w \<Rightarrow> (panic + real option) \<times> Backoff \<times> 'w" where
  "next_interval draw b w =
     (if \<not> bo_init_backoff b < bo_next_backoff_secs b * bo_base b then (Inl AssertFailed, b, w)
      else
        let (rand_backoff, w1) = draw (bo_init_backoff b) (bo_next_backoff_secs b * bo_base b) w;
            next_backoff = min (bo_max_backoff_secs b) rand_backoff;
            b1 = b\<lparr>bo_total := bo_total b + next_backoff, bo_next_backoff_secs := next_backoff\<rparr>;
            backoff = bo_next_backoff_secs b
        in if backoff < 0 then (Inl ExpectFailed, b1, w1)
           else case bo_deadline b1 of
             Some deadline \<Rightarrow>
               if bo_total b1 \<ge> deadline then (Inr None, b1, w1) else (Inr (Some backoff), b1, w1)
           | None \<Rightarrow> (Inr (Some backoff), b1, w1))"

locale rand_crate =
  fixes draw :: "'w draw"
  assumes draw_range: "lo < hi \<Longrightarrow> lo \<le> fst (draw lo hi w) \<and> fst (draw lo hi w) < hi"

text \<open>A generator that takes the middle.\<close>

definition draw_middle :: "'w draw" where
  "draw_middle lo hi w = ((lo + hi) / 2, w)"

interpretation middle: rand_crate draw_middle
  by unfold_locales (auto simp: draw_middle_def field_simps)

section \<open>Retrying\<close>

datatype ('b, 'e) ControlFlow = Break 'b | Continue "'e ErrorOrThrottle"

datatype 'e BackoffError = DeadlineExceeded real 'e

partial_function (option) retry_with_backoff ::
    "'w draw \<Rightarrow> (real \<Rightarrow> 'w \<Rightarrow> 'w) \<Rightarrow> ('w \<Rightarrow> ((panic + ('b, 'e) ControlFlow) \<times> 'w) option) \<Rightarrow>
     Backoff \<Rightarrow> 'w \<Rightarrow> (('e BackoffError, 'b) outcome \<times> Backoff \<times> 'w) option" where
  "retry_with_backoff draw sleep do_stuff b w =
     (case do_stuff w of
        None \<Rightarrow> None
      | Some (r, w1) \<Rightarrow>
          (case r of
             Inl p \<Rightarrow> Some (Panic p, b, w1)
           | Inr (Break v) \<Rightarrow> Some (Ok v, b, w1)
           | Inr (Continue (Error e)) \<Rightarrow>
               (case next_interval draw b w1 of
                  (Inr (Some backoff), b2, w2) \<Rightarrow> retry_with_backoff draw sleep do_stuff b2 (sleep backoff w2)
                | (Inr None, b2, w2) \<Rightarrow>
                    (case bo_deadline b2 of
                       Some deadline \<Rightarrow> Some (Err (DeadlineExceeded deadline e), b2, w2)
                     | None \<Rightarrow> Some (Panic ExpectFailed, b2, w2))
                | (Inl p, b2, w2) \<Rightarrow> Some (Panic p, b2, w2))
           | Inr (Continue (Throttle millis)) \<Rightarrow>
               retry_with_backoff draw sleep do_stuff b (sleep (real millis / 1000) w1)))"

text \<open>The interval that a new backoff returns after \<open>n\<close> others.\<close>

fun interval_after :: "'w draw \<Rightarrow> nat \<Rightarrow> Backoff \<Rightarrow> 'w \<Rightarrow> panic + real option" where
  "interval_after draw 0 b w = fst (next_interval draw b w)"
| "interval_after draw (Suc n) b w =
     (case next_interval draw b w of (_, b1, w1) \<Rightarrow> interval_after draw n b1 w1)"

section \<open>The invariant of the intervals\<close>

text \<open>A configuration with which there always is something to draw from.\<close>

definition sound_config :: "BackoffConfig \<Rightarrow> bool" where
  "sound_config c \<longleftrightarrow> 0 < cfg_init_backoff c \<and> 0 < cfg_max_backoff c \<and> 1 < cfg_base c \<and>
     cfg_init_backoff c < cfg_max_backoff c * cfg_base c"

definition backoff_inv :: "BackoffConfig \<Rightarrow> Backoff \<Rightarrow> bool" where
  "backoff_inv c b \<longleftrightarrow> bo_init_backoff b = cfg_init_backoff c \<and>
     bo_max_backoff_secs b = cfg_max_backoff c \<and> bo_base b = cfg_base c \<and>
     bo_deadline b = cfg_deadline c \<and>
     min (cfg_init_backoff c) (cfg_max_backoff c) \<le> bo_next_backoff_secs b \<and>
     bo_next_backoff_secs b \<le> max (cfg_init_backoff c) (cfg_max_backoff c)"

lemma backoff_inv_new: "backoff_inv c (Backoff_new c)"
  by (simp add: backoff_inv_def Backoff_new_def)

lemma interval_not_empty:
  assumes "sound_config c" and "backoff_inv c b"
  shows "bo_init_backoff b < bo_next_backoff_secs b * bo_base b"
proof -
  let ?i = "cfg_init_backoff c" and ?m = "cfg_max_backoff c" and ?n = "bo_next_backoff_secs b"
  have base: "1 < cfg_base c" and pos: "0 < ?i" "0 < ?m" and room: "?i < ?m * cfg_base c"
    using assms(1) by (simp_all add: sound_config_def)
  have n: "?i \<le> ?n \<or> ?m \<le> ?n" using assms(2) by (auto simp: backoff_inv_def)
  have "?i < ?n * cfg_base c"
  proof (cases "?i \<le> ?n")
    case True
    with pos(1) have "0 < ?n" by linarith
    with base have "?n * 1 < ?n * cfg_base c" by (intro mult_strict_left_mono)
    with True show ?thesis by linarith
  next
    case False
    with n have "?m * cfg_base c \<le> ?n * cfg_base c" using base by (intro mult_right_mono) auto
    with room show ?thesis by linarith
  qed
  with assms(2) show ?thesis by (simp add: backoff_inv_def)
qed

context rand_crate
begin

text \<open>An interval is drawn, the state is as before, and the total has grown.\<close>

lemma next_interval_inv:
  assumes "sound_config c" and "backoff_inv c b"
  obtains r b' w' where "next_interval draw b w = (Inr r, b', w')" "backoff_inv c b'"
    "bo_total b + min (cfg_init_backoff c) (cfg_max_backoff c) \<le> bo_total b'"
    "r = (case cfg_deadline c of
       Some d \<Rightarrow> if d \<le> bo_total b' then None else Some (bo_next_backoff_secs b)
     | None \<Rightarrow> Some (bo_next_backoff_secs b))"
    "bo_next_backoff_secs b' \<le> bo_next_backoff_secs b * cfg_base c"
    "bo_next_backoff_secs b' \<le> cfg_max_backoff c"
proof -
  note room = interval_not_empty [OF assms]
  obtain x w1 where x: "draw (bo_init_backoff b) (bo_next_backoff_secs b * bo_base b) w = (x, w1)"
    by (cases "draw (bo_init_backoff b) (bo_next_backoff_secs b * bo_base b) w")
  with draw_range [OF room, of w] have range: "bo_init_backoff b \<le> x" "x < bo_next_backoff_secs b * bo_base b"
    by simp_all
  have "0 \<le> bo_next_backoff_secs b"
    using assms by (auto simp: backoff_inv_def sound_config_def)
  with x room range assms show thesis
    by (intro that [of _ "b\<lparr>bo_total := bo_total b + min (bo_max_backoff_secs b) x,
        bo_next_backoff_secs := min (bo_max_backoff_secs b) x\<rparr>" w1])
      (auto simp: next_interval_def Let_def backoff_inv_def split: option.splits)
qed

lemma interval_bounds:
  assumes "sound_config c" and "backoff_inv c b"
    and "bo_next_backoff_secs b \<le> cfg_init_backoff c * cfg_base c ^ k"
    and "k \<noteq> 0 \<Longrightarrow> bo_next_backoff_secs b \<le> cfg_max_backoff c"
  shows "\<exists>r. interval_after draw n b w = Inr r \<and> (\<forall>d. r = Some d \<longrightarrow>
    min (cfg_init_backoff c) (cfg_max_backoff c) \<le> d \<and> d \<le> cfg_init_backoff c * cfg_base c ^ (k + n) \<and>
    (k + n \<noteq> 0 \<longrightarrow> d \<le> cfg_max_backoff c))"
  using assms(2-4)
proof (induction n arbitrary: b w k)
  case 0
  obtain r b' w' where ni: "next_interval draw b w = (Inr r, b', w')"
    "r = (case cfg_deadline c of
       Some d \<Rightarrow> if d \<le> bo_total b' then None else Some (bo_next_backoff_secs b)
     | None \<Rightarrow> Some (bo_next_backoff_secs b))"
    by (rule next_interval_inv [OF assms(1) "0.prems"(1)])
  with 0 show ?case by (auto simp: backoff_inv_def split: option.splits if_splits)
next
  case (Suc n)
  obtain r b' w' where ni: "next_interval draw b w = (Inr r, b', w')" "backoff_inv c b'"
    "bo_next_backoff_secs b' \<le> bo_next_backoff_secs b * cfg_base c" "bo_next_backoff_secs b' \<le> cfg_max_backoff c"
    by (rule next_interval_inv [OF assms(1) Suc.prems(1)])
  have "bo_next_backoff_secs b * cfg_base c \<le> cfg_init_backoff c * cfg_base c ^ k * cfg_base c"
    using Suc.prems(2) assms(1) by (intro mult_right_mono) (auto simp: sound_config_def)
  with ni(3) have "bo_next_backoff_secs b' \<le> cfg_init_backoff c * cfg_base c ^ Suc k"
    by (simp add: mult.assoc mult.commute [of "cfg_base c"])
  from Suc.IH [OF ni(2) this] ni(1,4) show ?case by simp
qed

section \<open>Ends\<close>

text \<open>
  With a deadline, an operation that is not throttled forever comes to an end: each failure uses
  up at least the smaller one of the initial and the maximal interval.
\<close>

lemma retry_returns:
  assumes "sound_config c" and "cfg_deadline c = Some deadline"
    and steps: "\<And>w. \<exists>r w'. do_stuff w = Some (r, w') \<and> (\<forall>t. r \<noteq> Inr (Continue (Throttle t)))"
    and "backoff_inv c b"
    and "deadline - bo_total b \<le> real n * min (cfg_init_backoff c) (cfg_max_backoff c)"
  shows "\<exists>y. retry_with_backoff draw sleep do_stuff b w = Some y"
  using assms(4,5)
proof (induction n arbitrary: b w)
  case 0
  obtain r w1 where r: "do_stuff w = Some (r, w1)" "\<forall>t. r \<noteq> Inr (Continue (Throttle t))" using steps by blast
  obtain i b' w' where ni: "next_interval draw b w1 = (Inr i, b', w')" "backoff_inv c b'"
    "bo_total b + min (cfg_init_backoff c) (cfg_max_backoff c) \<le> bo_total b'"
    "i = (case cfg_deadline c of
       Some d \<Rightarrow> if d \<le> bo_total b' then None else Some (bo_next_backoff_secs b)
     | None \<Rightarrow> Some (bo_next_backoff_secs b))"
    by (rule next_interval_inv [OF assms(1) "0.prems"(1)])
  have "0 < min (cfg_init_backoff c) (cfg_max_backoff c)" using assms(1) by (simp add: sound_config_def)
  with ni(3) "0.prems"(2) have "deadline \<le> bo_total b'" by linarith
  with ni(2,4) assms(2) have "i = None" "bo_deadline b' = Some deadline" by (simp_all add: backoff_inv_def)
  with r ni(1) show ?case
    by (subst retry_with_backoff.simps) (auto split: sum.splits ControlFlow.splits ErrorOrThrottle.splits)
next
  case (Suc n)
  obtain r w1 where r: "do_stuff w = Some (r, w1)" "\<forall>t. r \<noteq> Inr (Continue (Throttle t))" using steps by blast
  obtain i b' w' where ni: "next_interval draw b w1 = (Inr i, b', w')" "backoff_inv c b'"
    "bo_total b + min (cfg_init_backoff c) (cfg_max_backoff c) \<le> bo_total b'"
    by (rule next_interval_inv [OF assms(1) Suc.prems(1)])
  have "deadline - bo_total b' \<le> real n * min (cfg_init_backoff c) (cfg_max_backoff c)"
    using ni(3) Suc.prems(2) by (simp add: algebra_simps)
  then have "\<exists>y. retry_with_backoff draw sleep do_stuff b' (sleep d w') = Some y" for d
    using Suc.IH [OF ni(2)] by blast
  moreover have "bo_deadline b' = Some deadline" using ni(2) assms(2) by (simp add: backoff_inv_def)
  ultimately show ?case
    using r ni(1) by (subst retry_with_backoff.simps)
      (auto split: sum.splits ControlFlow.splits ErrorOrThrottle.splits option.splits)
qed

end

text \<open>A broker that always throttles keeps the loop running, whatever the deadline is.\<close>

lemma retry_never_returns:
  assumes "\<And>w. \<exists>t w'. do_stuff w = Some (Inr (Continue (Throttle t)), w')"
  shows "retry_with_backoff draw sleep do_stuff b w = None"
proof (cases "retry_with_backoff draw sleep do_stuff b w")
  case (Some y)
  have "do_stuff \<noteq> do_stuff"
  proof (rule retry_with_backoff.raw_induct [where P = "\<lambda>draw sleep f b w y. f \<noteq> do_stuff", OF _ Some])
    fix retry and draw :: "'a draw" and sleep f b w y
    assume IH: "\<And>draw sleep f b w y. retry draw sleep f b w = Some y \<Longrightarrow> f \<noteq> do_stuff"
      and body: "(case f w of
        None \<Rightarrow> None
      | Some (r, w1) \<Rightarrow>
          (case r of
             Inl p \<Rightarrow> Some (Panic p, b, w1)
           | Inr (Break v) \<Rightarrow> Some (Ok v, b, w1)
           | Inr (Continue (Error e)) \<Rightarrow>
               (case next_interval draw b w1 of
                  (Inr (Some backoff), b2, w2) \<Rightarrow> retry draw sleep f b2 (sleep backoff w2)
                | (Inr None, b2, w2) \<Rightarrow>
                    (case bo_deadline b2 of
                       Some deadline \<Rightarrow> Some (Err (DeadlineExceeded deadline e), b2, w2)
                     | None \<Rightarrow> Some (Panic ExpectFailed, b2, w2))
                | (Inl p, b2, w2) \<Rightarrow> Some (Panic p, b2, w2))
           | Inr (Continue (Throttle millis)) \<Rightarrow>
               retry draw sleep f b (sleep (real millis / 1000) w1))) = Some y"
    show "f \<noteq> do_stuff"
    proof
      assume f: "f = do_stuff"
      with assms [of w] obtain t w' where "f w = Some (Inr (Continue (Throttle t)), w')" by blast
      with body have "retry draw sleep f b (sleep (real t / 1000) w') = Some y" by simp
      with IH f show False by blast
    qed
  qed
  then show ?thesis by simp
qed

end
