(* ===== verification/Broker_Connector.thy ===== *)
theory Broker_Connector
  imports Broker_Cache Backoff
begin

text \<open>
  \<open>src/src/connection.rs\<close>: the connector, which all clients share.  It finds a broker that can be
  connected to, asks it for metadata, and keeps what it learns.

  A \<open>connector\<close> is the state that is shared, and the world \<open>'e\<close> around it.  Establishing a
  connection (transport, version negotiation and authentication, with the settings of the
  connector), sending a metadata request, shuffling and drawing random numbers and sleeping are
  the \<open>network\<close>, a parameter: functions on the whole connector, since other tasks can use it in
  the meantime.  Theory \<open>Establish\<close> gives the first of them, and theory \<open>Wire\<close> the second.  A function
  that may retry forever is \<open>None\<close> then.
\<close>

section \<open>State\<close>

datatype BrokerRepresentation = Bootstrap rstring | Topology Broker

fun representation_id :: "BrokerRepresentation \<Rightarrow> i32 option" where
  "representation_id (Bootstrap _) = None"
| "representation_id (Topology b) = Some (br_id b)"

datatype 'c MetadataLookupMode = ArbitraryBroker | SpecificBroker 'c | CachedArbitrary

text \<open>The settings of connections.\<close>

record connection_settings =
  st_client_id :: rstring
  st_tls_config :: "ClientConfig option"
  st_socks5_proxy :: "rstring option"
  st_sasl_config :: "SaslConfig option"
  st_max_message_size :: usize

record ('c, 'e) connector =
  cn_bootstrap_brokers :: "rstring list"
  cn_topology :: topology
  cn_cached_arbitrary_broker :: "'c broker_cache"
  cn_cached_metadata :: metadata_cache
  cn_backoff_config :: BackoffConfig
  cn_settings :: connection_settings
  cn_env :: 'e

definition connector_new :: "rstring list \<Rightarrow> connection_settings \<Rightarrow> BackoffConfig \<Rightarrow> 'e \<Rightarrow>
    ('c, 'e) connector" where
  "connector_new bootstrap settings config e = \<lparr>cn_bootstrap_brokers = bootstrap, cn_topology = [],
     cn_cached_arbitrary_broker = broker_cache_start, cn_cached_metadata = metadata_cache_default,
     cn_backoff_config = config, cn_settings = settings, cn_env = e\<rparr>"

record ('c, 'e) network =
  nw_connect :: "BrokerRepresentation \<Rightarrow> ('c, 'e) connector \<Rightarrow>
    ((connection_error, 'c) outcome \<times> ('c, 'e) connector) option"
  nw_metadata :: "'c \<Rightarrow> MetadataRequest \<Rightarrow> ('c, 'e) connector \<Rightarrow>
    (request_error, MetadataResponse) outcome \<times> ('c, 'e) connector"
  nw_shuffle :: "BrokerRepresentation list \<Rightarrow> ('c, 'e) connector \<Rightarrow> BrokerRepresentation list \<times> ('c, 'e) connector"
  nw_draw :: "('c, 'e) connector draw"
  nw_sleep :: "real \<Rightarrow> ('c, 'e) connector \<Rightarrow> ('c, 'e) connector"

section \<open>Any broker\<close>

definition brokers :: "('c, 'e) connector \<Rightarrow> BrokerRepresentation list" where
  "brokers s =
     (if topology_is_empty (cn_topology s) then map Bootstrap (cn_bootstrap_brokers s)
      else map Topology (get_brokers (cn_topology s)))"

text \<open>One round over the brokers.\<close>

fun try_brokers :: "('c, 'e) network \<Rightarrow> BrokerRepresentation list \<Rightarrow> connection_error list \<Rightarrow>
    ('c, 'e) connector \<Rightarrow> ((panic + ('c, connection_error list) ControlFlow) \<times> ('c, 'e) connector) option" where
  "try_brokers nw [] errors s = Some (Inr (Continue (Error errors)), s)"
| "try_brokers nw (broker # bs) errors s =
     (case nw_connect nw broker s of
        None \<Rightarrow> None
      | Some (Ok conn, s1) \<Rightarrow> Some (Inr (Break conn), s1)
      | Some (Err e, s1) \<Rightarrow> try_brokers nw bs (errors @ [e]) s1
      | Some (Panic p, s1) \<Rightarrow> Some (Inl p, s1))"

definition connect_to_a_broker_with_retry :: "('c, 'e) network \<Rightarrow> BrokerRepresentation list \<Rightarrow>
    ('c, 'e) connector \<Rightarrow> ((connection_error, 'c) outcome \<times> ('c, 'e) connector) option" where
  "connect_to_a_broker_with_retry nw bs s =
     (let (bs1, s1) = nw_shuffle nw bs s
      in map_option (\<lambda>(r, _, s2).
           (map_err (\<lambda>e. case e of DeadlineExceeded _ errors \<Rightarrow> ConnRetryFailed errors) r, s2))
         (retry_with_backoff (nw_draw nw) (nw_sleep nw) (try_brokers nw bs1 [])
           (Backoff_new (cn_backoff_config s1)) s1))"

text \<open>\<open>get\<close> and \<open>invalidate\<close> of the arbitrary broker.\<close>

definition arbitrary_get :: "('c, 'e) network \<Rightarrow> ('c, 'e) connector \<Rightarrow>
    ((connection_error, 'c \<times> usize) outcome \<times> ('c, 'e) connector) option" where
  "arbitrary_get nw s =
     (let cache = cn_cached_arbitrary_broker s in
      case bc_broker cache of
        Some broker \<Rightarrow> Some (Ok (broker, bc_gen cache), s)
      | None \<Rightarrow>
          map_option (\<lambda>(r, s1). case r of
             Ok conn \<Rightarrow>
               let cache1 = broker_store conn (cn_cached_arbitrary_broker s1)
               in (Ok (conn, bc_gen cache1), s1\<lparr>cn_cached_arbitrary_broker := cache1\<rparr>)
           | Err e \<Rightarrow> (Err e, s1)
           | Panic p \<Rightarrow> (Panic p, s1))
          (connect_to_a_broker_with_retry nw (brokers s) s))"

definition arbitrary_invalidate :: "usize \<Rightarrow> ('c, 'e) connector \<Rightarrow> ('c, 'e) connector" where
  "arbitrary_invalidate gen s =
     s\<lparr>cn_cached_arbitrary_broker := broker_invalidate gen (cn_cached_arbitrary_broker s)\<rparr>"

section \<open>Metadata\<close>

fun is_specific :: "'c MetadataLookupMode \<Rightarrow> bool" where
  "is_specific (SpecificBroker _) = True"
| "is_specific _ = False"

text \<open>The broker that is asked, with the generation when it is the cached one.\<close>

definition metadata_broker :: "('c, 'e) network \<Rightarrow> 'c MetadataLookupMode \<Rightarrow> ('c, 'e) connector \<Rightarrow>
    ((connection_error, 'c \<times> usize option) outcome \<times> ('c, 'e) connector) option" where
  "metadata_broker nw mode s =
     (case mode of
        SpecificBroker b \<Rightarrow> Some (Ok (b, None), s)
      | _ \<Rightarrow> map_option (\<lambda>(r, s1). (bind_o r (\<lambda>(b, gen). Ok (b, Some gen)), s1)) (arbitrary_get nw s))"

definition metadata_attempt :: "('c, 'e) network \<Rightarrow> 'c MetadataLookupMode \<Rightarrow> MetadataRequest \<Rightarrow>
    ('c, 'e) connector \<Rightarrow>
    ((panic + (connection_error + MetadataResponse, request_error) ControlFlow) \<times> ('c, 'e) connector) option" where
  "metadata_attempt nw mode request s =
     (case metadata_broker nw mode s of
        None \<Rightarrow> None
      | Some (Panic p, s1) \<Rightarrow> Some (Inl p, s1)
      | Some (Err e, s1) \<Rightarrow> Some (Inr (Break (Inl e)), s1)
      | Some (Ok (broker, cache_gen), s1) \<Rightarrow>
          Some (case nw_metadata nw broker request s1 of
             (Ok response, s2) \<Rightarrow>
               (case maybe_throttle (msr_throttle_time_ms response) of
                  Err e \<Rightarrow> (Inr (Continue e), s2)
                | Ok _ \<Rightarrow> (Inr (Break (Inr response)), s2)
                | Panic p \<Rightarrow> (Inl p, s2))
           | (Err e, s2) \<Rightarrow>
               if broken_connection (Request e) \<and> \<not> is_specific mode
               then (Inr (Continue (Error e)),
                     case cache_gen of Some gen \<Rightarrow> arbitrary_invalidate gen s2 | None \<Rightarrow> s2)
               else (Inr (Break (Inl (ConnMetadata e))), s2)
           | (Panic p, s2) \<Rightarrow> (Inl p, s2)))"

definition metadata_request_with_retry :: "('c, 'e) network \<Rightarrow> 'c MetadataLookupMode \<Rightarrow>
    MetadataRequest \<Rightarrow> Backoff \<Rightarrow> ('c, 'e) connector \<Rightarrow>
    ((connection_error, MetadataResponse) outcome \<times> ('c, 'e) connector) option" where
  "metadata_request_with_retry nw mode request b s =
     map_option (\<lambda>(r, _, s1). (case r of
          Ok (Inr response) \<Rightarrow> Ok response
        | Ok (Inl e) \<Rightarrow> Err e
        | Err (DeadlineExceeded _ e) \<Rightarrow> Err (ConnRetryFailed [ConnMetadata e])
        | Panic p \<Rightarrow> Panic p, s1))
     (retry_with_backoff (nw_draw nw) (nw_sleep nw) (metadata_attempt nw mode request) b s)"

definition metadata_request :: "rstring list option \<Rightarrow> MetadataRequest" where
  "metadata_request topics =
     \<lparr>mrq_topics = map_option (map (\<lambda>x. \<lparr>mrt_name = x\<rparr>)) topics, mrq_allow_auto_topic_creation = None\<rparr>"

text \<open>What is kept of a response.\<close>

definition remember_response :: "MetadataRequest \<Rightarrow> MetadataResponse \<Rightarrow> ('c, 'e) connector \<Rightarrow>
    ('c, 'e) connector" where
  "remember_response request response s =
     (let s1 = (if mrq_topics request = None
           then s\<lparr>cn_cached_metadata := metadata_update response (cn_cached_metadata s)\<rparr> else s)
      in s1\<lparr>cn_topology := topology_update (cn_topology s1) (msr_brokers response)\<rparr>)"

definition request_metadata :: "('c, 'e) network \<Rightarrow> 'c MetadataLookupMode \<Rightarrow> rstring list option \<Rightarrow>
    ('c, 'e) connector \<Rightarrow>
    ((connection_error, MetadataResponse \<times> usize option) outcome \<times> ('c, 'e) connector) option" where
  "request_metadata nw mode topics s =
     (let (hit, cache) = (if mode = CachedArbitrary then metadata_get topics (cn_cached_metadata s)
           else (None, cn_cached_metadata s));
          s1 = s\<lparr>cn_cached_metadata := cache\<rparr>;
          request = metadata_request topics
      in case hit of
           Some (m, gen) \<Rightarrow> Some (Ok (m, Some gen), s1)
         | None \<Rightarrow>
             map_option (\<lambda>(r, s2). case r of
                Ok response \<Rightarrow> (Ok (response, None), remember_response request response s2)
              | Err e \<Rightarrow> (Err e, s2)
              | Panic p \<Rightarrow> (Panic p, s2))
             (metadata_request_with_retry nw mode request (Backoff_new (cn_backoff_config s1)) s1))"

definition refresh_metadata :: "('c, 'e) network \<Rightarrow> ('c, 'e) connector \<Rightarrow>
    ((connection_error, unit) outcome \<times> ('c, 'e) connector) option" where
  "refresh_metadata nw s =
     map_option (\<lambda>(r, s1). (bind_o r (\<lambda>_. Ok ()), s1)) (request_metadata nw ArbitraryBroker None s)"

definition invalidate_metadata_cache :: "usize \<Rightarrow> ('c, 'e) connector \<Rightarrow> ('c, 'e) connector" where
  "invalidate_metadata_cache gen s = s\<lparr>cn_cached_metadata := metadata_invalidate gen (cn_cached_metadata s)\<rparr>"

text \<open>\<open>BrokerConnector::connect\<close>.\<close>

definition connector_connect :: "('c, 'e) network \<Rightarrow> i32 \<Rightarrow> ('c, 'e) connector \<Rightarrow>
    ((connection_error, 'c option) outcome \<times> ('c, 'e) connector) option" where
  "connector_connect nw broker_id s =
     (case get_broker (cn_topology s) broker_id of
        Some broker \<Rightarrow>
          map_option (\<lambda>(r, s1). (bind_o r (\<lambda>conn. Ok (Some conn)), s1)) (nw_connect nw (Topology broker) s)
      | None \<Rightarrow> Some (Ok None, s))"

end
