(* ===== verification/Establish.thy ===== *)
theory Establish
  imports Broker_Connector
begin

text \<open>
  Establishing a connection to a broker: \<open>BrokerRepresentation::url\<close> and \<open>connect\<close> of
  \<open>src/src/connection.rs\<close>, with the transport, the version negotiation and the authentication of
  theory \<open>Transport\<close>.  It gives the operation \<open>nw_connect\<close> of the network that the connector uses.

  A \<open>connection\<close> has the fields of \<open>Messenger\<close> that do not change after it was set up.  The requests
  over it are the parameter \<open>link\<close>.

  What is proved: a connection that is handed out has sound version ranges and is authenticated.
\<close>

section \<open>The URL of a broker\<close>

lift_definition i32_to_string :: "i32 \<Rightarrow> rstring" is i32_display
  by (rule utf8_valid_ascii) (rule i32_display_ascii)

definition broker_display :: "Broker \<Rightarrow> rstring" where
  "broker_display b = rstring_append (br_host b) (rstring_append (str '':'') (i32_to_string (br_port b)))"

fun representation_url :: "BrokerRepresentation \<Rightarrow> rstring" where
  "representation_url (Bootstrap inner) = inner"
| "representation_url (Topology broker) = broker_display broker"

section \<open>Connecting\<close>

record 'x connection =
  co_transport :: 'x
  co_max_message_size :: usize
  co_client_id :: rstring
  co_version_ranges :: version_ranges

record ('x, 'w) link =
  lk_versions :: "'x connection \<Rightarrow> ApiVersionsRequest \<Rightarrow> version_ranges \<Rightarrow> 'w \<Rightarrow>
    (request_error, ApiVersionsResponse) outcome \<times> 'w"
  lk_sasl :: "'x connection \<Rightarrow> 'w sasl_link"
  lk_sleep :: "usize \<Rightarrow> 'w \<Rightarrow> 'w"

text \<open>\<open>do_sasl\<close>, if it is configured.\<close>

definition log_in :: "('g, 's) rsasl \<Rightarrow> ('x, 'w) link \<Rightarrow> SaslConfig option \<Rightarrow> 'x connection \<Rightarrow> 'w \<Rightarrow>
    ((connection_error, 'x connection) outcome \<times> 'w) option" where
  "log_in rs lk sasl_config c w =
     (case sasl_config of
        None \<Rightarrow> Some (Ok c, w)
      | Some config \<Rightarrow>
          map_option (\<lambda>(r, w1). (bind_o (map_err ConnSaslFailed r) (\<lambda>_. Ok c), w1))
            (do_sasl rs (lk_sasl lk c) config w))"

definition establish :: "('t, 'l, 'n, 'w) transport_lib \<Rightarrow> ('g, 's) rsasl \<Rightarrow>
    (('t, 'l) Transport, 'w) link \<Rightarrow> connection_settings \<Rightarrow> BrokerRepresentation \<Rightarrow> 'w \<Rightarrow>
    ((connection_error, ('t, 'l) Transport connection) outcome \<times> 'w) option" where
  "establish lib rs lk settings broker w =
     (let url = representation_url broker in
      case transport_connect lib url (st_tls_config settings) (st_socks5_proxy settings) w of
        (Err e, w1) \<Rightarrow> Some (Err (ConnTransport url e), w1)
      | (Panic p, w1) \<Rightarrow> Some (Panic p, w1)
      | (Ok transport, w1) \<Rightarrow>
          let messenger = \<lparr>co_transport = transport, co_max_message_size = st_max_message_size settings,
                co_client_id = st_client_id settings, co_version_ranges = Map.empty\<rparr>
          in (case sync_run (lk_versions lk messenger) (lk_sleep lk) sync_bounds w1 of
                None \<Rightarrow> None
              | Some (Err e, w2) \<Rightarrow> Some (Err (ConnSyncVersions e), w2)
              | Some (Panic p, w2) \<Rightarrow> Some (Panic p, w2)
              | Some (Ok ranges, w2) \<Rightarrow>
                  log_in rs lk (st_sasl_config settings) (messenger\<lparr>co_version_ranges := ranges\<rparr>) w2))"

text \<open>The network of a connector that connects in this way.\<close>

definition establishing :: "('t, 'l, 'n, (('t, 'l) Transport connection, 'e) connector) transport_lib \<Rightarrow>
    ('g, 's) rsasl \<Rightarrow> (('t, 'l) Transport, (('t, 'l) Transport connection, 'e) connector) link \<Rightarrow>
    (('t, 'l) Transport connection, 'e) network \<Rightarrow> (('t, 'l) Transport connection, 'e) network" where
  "establishing lib rs lk nw =
     nw\<lparr>nw_connect := (\<lambda>broker s. establish lib rs lk (cn_settings s) broker s)\<rparr>"

section \<open>Properties\<close>

lemma as_bytes_broker: "as_bytes (broker_display b) = as_bytes (br_host b) @ 58 # i32_display (br_port b)"
proof -
  have "as_bytes (str '':'') = [58]" by (simp add: as_bytes_str ascii_bytes_def)
  then show ?thesis by (simp add: broker_display_def i32_to_string.rep_eq)
qed

lemma broker_host_port:
  assumes "58 \<notin> set (as_bytes (br_host b))" and "0 \<le> sint (br_port b)" and "sint (br_port b) < 2 ^ 16"
  shows "split_colon (as_bytes (broker_display b)) = [as_bytes (br_host b), i32_display (br_port b)]"
    and "host_port (broker_display b) = Ok (as_bytes (br_host b), word_of_int (sint (br_port b)))"
proof -
  have display: "i32_display (br_port b) = decimal (nat (sint (br_port b)))"
    using assms(2) by (simp add: i32_display_def)
  have "58 \<notin> set (decimal (nat (sint (br_port b))))" by (auto dest: decimal_bytes(3))
  then show split: "split_colon (as_bytes (broker_display b)) = [as_bytes (br_host b), i32_display (br_port b)]"
    using assms(1) by (simp add: as_bytes_broker split_colon_append split_colon_single display)
  have "parse_u16 (decimal (nat (sint (br_port b)))) = Inr (of_nat (nat (sint (br_port b))))"
    using assms(2,3) by (intro parse_u16_decimal) simp
  then show "host_port (broker_display b) = Ok (as_bytes (br_host b), word_of_int (sint (br_port b)))"
    using assms(2) by (simp add: host_port_def split display)
qed

lemma log_in_Ok:
  assumes "log_in rs lk sasl_config c w = Some (Ok c', w')"
  shows "c' = c \<and> (\<forall>config. sasl_config = Some config \<longrightarrow> authenticates rs (lk_sasl lk c) config w w')"
  using assms do_sasl_Ok_iff [of rs "lk_sasl lk c" _ w w']
  by (auto simp: log_in_def split: option.splits)

lemma establish_Ok:
  assumes "establish lib rs lk settings broker w = Some (Ok c, w')"
  shows "wf_ranges (co_version_ranges c) \<and> co_client_id c = st_client_id settings \<and>
    co_max_message_size c = st_max_message_size settings \<and>
    (\<exists>w1. transport_connect lib (representation_url broker) (st_tls_config settings)
       (st_socks5_proxy settings) w = (Ok (co_transport c), w1)) \<and>
    (\<forall>config. st_sasl_config settings = Some config \<longrightarrow> (\<exists>w1. authenticates rs (lk_sasl lk c) config w1 w'))"
  using assms
  by (auto simp: establish_def Let_def split: prod.splits outcome.splits option.splits
      dest!: log_in_Ok sync_run_ok)

end
