(* ===== verification/Client_Record.thy ===== *)
theory Client_Record
  imports Record_Batch
begin

text \<open>
  \<open>src/src/record.rs\<close>: the records that the clients of the library produce and consume, and
  what they are built from.  A \<open>BTreeMap\<close> is the list of its entries in the order of the keys.

  The crate \<open>chrono\<close> is the parameter \<open>chrono\<close>: a type of points in time, which is a linear
  order, and the functions on it that the library calls.  The locale \<open>chrono_crate\<close> states
  what is relied on of them for times that are a whole number of milliseconds; other times do
  not survive the protocol, which counts milliseconds.
\<close>

section \<open>Checked arithmetic\<close>

text \<open>\<open>+\<close> and \<open>-\<close> on signed integers, which panic on overflow, and \<open>checked_add\<close>.\<close>

definition checked_add :: "'a::len word \<Rightarrow> 'a word \<Rightarrow> 'a word option" where
  "checked_add a b = (if sint (a + b) = sint a + sint b then Some (a + b) else None)"

definition add_panic :: "'a::len word \<Rightarrow> 'a word \<Rightarrow> ('e, 'a word) outcome" where
  "add_panic a b = (case checked_add a b of Some c \<Rightarrow> Ok c | None \<Rightarrow> Panic ArithmeticOverflow)"

definition sub_panic :: "'a::len word \<Rightarrow> 'a word \<Rightarrow> ('e, 'a word) outcome" where
  "sub_panic a b = (if sint (a - b) = sint a - sint b then Ok (a - b) else Panic ArithmeticOverflow)"

lemma checked_add_iff:
  "checked_add a b = Some c \<longleftrightarrow> c = a + b \<and> sint c = sint a + sint b"
  by (auto simp: checked_add_def)

lemma add_panic_Ok_iff [simp]: "add_panic a b = Ok c \<longleftrightarrow> checked_add a b = Some c"
  by (auto simp: add_panic_def split: option.splits)

lemma sint_add_no_overflow:
  fixes a b :: "'a::len word"
  assumes "- (2 ^ (LENGTH('a) - 1)) \<le> sint a + sint b" "sint a + sint b < 2 ^ (LENGTH('a) - 1)"
  shows "sint (a + b) = sint a + sint b"
  using assms by (simp add: sint_word_ariths(1) signed_take_bit_int_eq_self)

section \<open>Ordered maps\<close>

fun btree_insert :: "'k::linorder \<Rightarrow> 'v \<Rightarrow> ('k \<times> 'v) list \<Rightarrow> ('k \<times> 'v) list" where
  "btree_insert k v [] = [(k, v)]"
| "btree_insert k v ((k', v') # m) =
     (if k < k' then (k, v) # (k', v') # m
      else if k = k' then (k, v) # m
      else (k', v') # btree_insert k v m)"

text \<open>\<open>collect()\<close> into a \<open>BTreeMap\<close>: of two values for one key the last stays.\<close>

definition btree_collect :: "('k::linorder \<times> 'v) list \<Rightarrow> ('k \<times> 'v) list" where
  "btree_collect kvs = fold (\<lambda>(k, v) m. btree_insert k v m) kvs []"

definition btree_inv :: "('k::linorder \<times> 'v) list \<Rightarrow> bool" where
  "btree_inv m \<longleftrightarrow> sorted_wrt (<) (map fst m)"

lemma set_btree_insert: "set (map fst (btree_insert k v m)) = insert k (set (map fst m))"
  by (induction k v m rule: btree_insert.induct) auto

lemma btree_inv_insert: "btree_inv m \<Longrightarrow> btree_inv (btree_insert k v m)"
proof (induction k v m rule: btree_insert.induct)
  case (2 k v k' v' m)
  then show ?case
    using set_btree_insert [of k v m] by (auto simp: btree_inv_def)
qed (simp add: btree_inv_def)

lemma btree_inv_collect: "btree_inv (btree_collect kvs)"
proof -
  have "btree_inv m \<Longrightarrow> btree_inv (fold (\<lambda>(k, v) m. btree_insert k v m) kvs m)" for m
    by (induction kvs arbitrary: m) (auto simp: btree_inv_insert)
  then show ?thesis by (simp add: btree_collect_def btree_inv_def)
qed

lemma btree_insert_last:
  "\<forall>k' \<in> set (map fst m). k' < k \<Longrightarrow> btree_insert k v m = m @ [(k, v)]"
  by (induction m) auto

lemma btree_collect_inv:
  assumes "btree_inv m"
  shows "btree_collect m = m"
proof -
  have "fold (\<lambda>(k, v) m. btree_insert k v m) m acc = acc @ m" if "btree_inv (acc @ m)" for acc
    using that
  proof (induction m arbitrary: acc)
    case (Cons kv m)
    obtain k v where kv: "kv = (k, v)" by (cases kv)
    have "btree_insert k v acc = acc @ [(k, v)]"
      using Cons.prems by (intro btree_insert_last) (auto simp: btree_inv_def kv sorted_wrt_append)
    with Cons.IH [of "acc @ [kv]"] Cons.prems kv show ?case by simp
  qed simp
  with assms show ?thesis by (simp add: btree_collect_def)
qed

text \<open>A key has the value that was given for it last.\<close>

lemma map_of_btree_insert:
  "btree_inv m \<Longrightarrow> map_of (btree_insert k v m) k' = (if k' = k then Some v else map_of m k')"
  by (induction k v m rule: btree_insert.induct) (auto simp: btree_inv_def)

lemma map_of_btree_collect: "map_of (btree_collect kvs) k = map_of (rev kvs) k"
proof -
  have "map_of (fold (\<lambda>(k, v) m. btree_insert k v m) kvs m) k = map_of (rev kvs @ m) k"
    if "btree_inv m" for m
    using that
  proof (induction kvs arbitrary: m)
    case (Cons kv kvs)
    obtain k' v' where "kv = (k', v')" by (cases kv)
    with Cons show ?case
      by (auto simp: btree_inv_insert map_of_btree_insert map_add_def split: option.splits)
  qed simp
  from this [of "[]"] show ?thesis by (simp add: btree_collect_def btree_inv_def)
qed

section \<open>Records\<close>

record 'ts client_record =
  r_key :: "u8 list option"
  r_value :: "u8 list option"
  r_headers :: "(rstring \<times> u8 list) list"
  r_timestamp :: 'ts

record 'ts RecordAndOffset =
  ro_record :: "'ts client_record"
  ro_offset :: i64

definition approximate_size :: "'ts client_record \<Rightarrow> usize" where
  "approximate_size r =
     (case r_key r of Some k \<Rightarrow> length k | None \<Rightarrow> 0) +
     (case r_value r of Some v \<Rightarrow> length v | None \<Rightarrow> 0) +
     sum_list (map (\<lambda>(k, v). length (as_bytes k) + length v) (r_headers r))"

section \<open>Points in time\<close>

datatype 'ts LocalResult = LocalNone | Single 'ts | Ambiguous 'ts 'ts

record 'ts chrono =
  timestamp_millis :: "'ts \<Rightarrow> i64"
  num_milliseconds :: "'ts \<Rightarrow> 'ts \<Rightarrow> i64"
  timestamp_millis_opt :: "i64 \<Rightarrow> 'ts LocalResult"

text \<open>
  \<open>num_milliseconds C t s\<close> is \<open>(t - s).num_milliseconds()\<close>.  \<open>exact\<close> are the times that are a whole
  number of milliseconds.  The range of the crate, some 260000 years around 1970, is far from
  the limits of \<open>i64\<close>.
\<close>

locale chrono_crate =
  fixes C :: "'ts::linorder chrono" and exact :: "'ts \<Rightarrow> bool"
  assumes millis_opt: "exact t \<Longrightarrow> timestamp_millis_opt C (timestamp_millis C t) = Single t"
    and millis_range: "\<bar>sint (timestamp_millis C t)\<bar> < 2 ^ 62"
    and millis_diff: "exact s \<Longrightarrow> exact t \<Longrightarrow>
      sint (num_milliseconds C t s) = sint (timestamp_millis C t) - sint (timestamp_millis C s)"
    and millis_mono: "s \<le> t \<Longrightarrow> sint (timestamp_millis C s) \<le> sint (timestamp_millis C t)"
begin

lemma restore:
  assumes "exact s" and "exact t"
  shows "checked_add (timestamp_millis C s) (num_milliseconds C t s) = Some (timestamp_millis C t)"
proof -
  have "sint (timestamp_millis C s + num_milliseconds C t s) =
      sint (timestamp_millis C s) + sint (num_milliseconds C t s)"
    using millis_range [of t]
    by (intro sint_add_no_overflow) (simp_all add: millis_diff assms)
  moreover from this have "timestamp_millis C s + num_milliseconds C t s = timestamp_millis C t"
    by (intro signed_word_eqI) (simp add: millis_diff assms)
  ultimately show ?thesis by (simp add: checked_add_iff)
qed

end

text \<open>Nanoseconds since 1970, in a range as that of the crate.\<close>

definition utc_limit :: int where
  "utc_limit = 8 * 10 ^ 15"

definition utc_millis :: "int \<Rightarrow> int" where
  "utc_millis t = max (- utc_limit) (min utc_limit (t div 10 ^ 6))"

definition utc :: "int chrono" where
  "utc = \<lparr>timestamp_millis = (\<lambda>t. word_of_int (utc_millis t)),
     num_milliseconds = (\<lambda>t s. word_of_int (sgn (t - s) * (\<bar>t - s\<bar> div 10 ^ 6))),
     timestamp_millis_opt = (\<lambda>w. if \<bar>sint w\<bar> \<le> utc_limit then Single (sint w * 10 ^ 6) else LocalNone)\<rparr>"

definition utc_exact :: "int \<Rightarrow> bool" where
  "utc_exact t \<longleftrightarrow> t mod 10 ^ 6 = 0 \<and> \<bar>t div 10 ^ 6\<bar> \<le> utc_limit"

lemma sint_word_of_int_i64: "- (2 ^ 63) \<le> i \<Longrightarrow> i < 2 ^ 63 \<Longrightarrow> sint (word_of_int i :: i64) = i"
  by (simp add: sint_sbintrunc' signed_take_bit_int_eq_self)

lemma utc_millis_range: "\<bar>utc_millis t\<bar> \<le> utc_limit"
  by (auto simp: utc_millis_def utc_limit_def)

lemma sint_utc_millis: "sint (timestamp_millis utc t) = utc_millis t"
  using utc_millis_range [of t]
  by (simp add: utc_def sint_word_of_int_i64 utc_limit_def abs_le_iff)

lemma utc_exact_millis: "utc_exact t \<Longrightarrow> utc_millis t * 10 ^ 6 = t"
  by (auto simp: utc_exact_def utc_millis_def max_def min_def abs_le_iff)

lemma utc_diff:
  assumes "utc_exact s" and "utc_exact t"
  shows "sgn (t - s) * (\<bar>t - s\<bar> div 10 ^ 6) = utc_millis t - utc_millis s"
proof -
  have "t - s = (utc_millis t - utc_millis s) * 10 ^ 6"
    using assms utc_exact_millis by (simp add: left_diff_distrib)
  then show ?thesis by (simp add: abs_mult sgn_mult) (simp add: sgn_if abs_if)
qed

interpretation utc: chrono_crate utc utc_exact
proof
  fix s t :: int
  show "timestamp_millis_opt utc (timestamp_millis utc t) = Single t" if "utc_exact t"
    using that utc_millis_range [of t] utc_exact_millis [of t] sint_utc_millis [of t]
    by (simp add: utc_def)
  show "\<bar>sint (timestamp_millis utc t)\<bar> < 2 ^ 62"
    using utc_millis_range [of t] by (simp add: sint_utc_millis utc_limit_def)
  show "sint (num_milliseconds utc t s) = sint (timestamp_millis utc t) - sint (timestamp_millis utc s)"
    if "utc_exact s" "utc_exact t"
  proof -
    have "num_milliseconds utc t s = word_of_int (utc_millis t - utc_millis s)"
      unfolding utc_diff [OF that, symmetric] by (simp add: utc_def)
    moreover have "sint (word_of_int (utc_millis t - utc_millis s) :: i64) = utc_millis t - utc_millis s"
      using utc_millis_range [of t] utc_millis_range [of s]
      by (intro sint_word_of_int_i64) (auto simp: utc_limit_def)
    ultimately show ?thesis by (simp only: sint_utc_millis)
  qed
  show "sint (timestamp_millis utc s) \<le> sint (timestamp_millis utc t)" if "s \<le> t"
    using zdiv_mono1 [OF that, of "10 ^ 6"] by (auto simp: sint_utc_millis utc_millis_def)
qed

end
