(* ===== verification/Partition.thy ===== *)
theory Partition
  imports Client_Record Client_Errors Messages_Data
begin

text \<open>
  The requests of \<open>src/src/client/partition.rs\<close> and what the client makes of the responses:
  \<open>build_produce_request\<close>, \<open>process_produce_response\<close>, \<open>build_fetch_request\<close>,
  \<open>process_fetch_response\<close>, \<open>extract_records\<close>, \<open>build_list_offsets_request\<close>,
  \<open>process_list_offsets_response\<close>, \<open>extract_offset\<close>, \<open>build_delete_records_request\<close>,
  \<open>process_delete_records_response\<close>.  What is proved of them: the offsets that producing returns
  are those under which the records are fetched, as they were produced.
\<close>

type_synonym 'a client_result = "(client_error, 'a) outcome"

datatype Compression = CNone | CGzip | CLz4 | CSnappy | CZstd

datatype OffsetAt = Earliest | Latest

text \<open>\<open>exactly_one().map_err(f)\<close>.\<close>

definition only_one :: "(usize \<Rightarrow> invalid_response) \<Rightarrow> 'a list \<Rightarrow> 'a client_result" where
  "only_one f xs =
     (case exactly_one xs of Inr x \<Rightarrow> Ok x | Inl n \<Rightarrow> Err (InvalidResponse (f n)))"

section \<open>Producing\<close>

fun batch_compression :: "Compression \<Rightarrow> RecordBatchCompression" where
  "batch_compression CNone = NoCompression"
| "batch_compression CGzip = Gzip"
| "batch_compression CLz4 = Lz4"
| "batch_compression CSnappy = Snappy"
| "batch_compression CZstd = Zstd"

definition protocol_record :: "'ts chrono \<Rightarrow> 'ts \<Rightarrow> nat \<Rightarrow> 'ts client_record \<Rightarrow> Record" where
  "protocol_record C first_ts i r =
     \<lparr>timestamp_delta = num_milliseconds C (r_timestamp r) first_ts,
      offset_delta = of_nat i, rec_key = r_key r, rec_value = r_value r,
      rec_headers = map (\<lambda>(key, val). \<lparr>rh_key = key, rh_value = val\<rparr>) (r_headers r)\<rparr>"

definition produce_batch :: "'ts::linorder chrono \<Rightarrow> 'ts client_record list \<Rightarrow> Compression \<Rightarrow>
    RecordBatch client_result" where
  "produce_batch C rs compr =
     (case rs of
        [] \<Rightarrow> Panic ExpectFailed
      | r # _ \<Rightarrow>
          let n = (of_nat (length rs) :: i32);
              first_ts = r_timestamp r;
              max_ts = fold (\<lambda>r m. max m (r_timestamp r)) rs first_ts
          in bind_o (sub_panic n 1) (\<lambda>last.
             Ok \<lparr>base_offset = 0, partition_leader_epoch = 0, last_offset_delta = last,
                 first_timestamp = timestamp_millis C first_ts,
                 max_timestamp = timestamp_millis C max_ts,
                 producer_id = -1, producer_epoch = -1, base_sequence = -1,
                 records = Records (map (\<lambda>(i, r). protocol_record C first_ts i r)
                   (enumerate 0 rs)),
                 compression = batch_compression compr, is_transactional = False,
                 timestamp_type = CreateTime\<rparr>))"

definition build_produce_request :: "'ts::linorder chrono \<Rightarrow> i32 \<Rightarrow> rstring \<Rightarrow>
    'ts client_record list \<Rightarrow> Compression \<Rightarrow> ProduceRequest client_result" where
  "build_produce_request C part topic rs compr =
     bind_o (produce_batch C rs compr) (\<lambda>batch.
     Ok \<lparr>prq_transactional_id = None, prq_acks = -1, prq_timeout_ms = 30000,
         prq_topic_data = [\<lparr>prt_name = topic,
           prt_partition_data = [\<lparr>prp_index = part, prp_records = [batch]\<rparr>]\<rparr>]\<rparr>)"

text \<open>\<open>(0..n).map(|x| x + base)\<close>.\<close>

fun offsets_from :: "i64 \<Rightarrow> nat \<Rightarrow> nat \<Rightarrow> i64 list client_result" where
  "offsets_from base x 0 = Ok []"
| "offsets_from base x (Suc n) =
     bind_o (add_panic (of_nat x) base) (\<lambda>off.
     bind_o (offsets_from base (Suc x) n) (\<lambda>offs.
     Ok (off # offs)))"

definition process_produce_response :: "i32 \<Rightarrow> rstring \<Rightarrow> i64 \<Rightarrow> ProduceResponse \<Rightarrow>
    i64 list client_result" where
  "process_produce_response part topic num_records response =
     bind_o (only_one NotOneTopic (psr_responses response)) (\<lambda>t.
       if pst_name t \<noteq> topic then Err (InvalidResponse (OtherTopic topic (pst_name t)))
       else
     bind_o (only_one NotOnePartition (pst_partition_responses t)) (\<lambda>p.
       if psp_index p \<noteq> part then Err (InvalidResponse (OtherPartition part (psp_index p)))
       else
     case psp_error p of
       Some e \<Rightarrow> Err (ServerError e None (OfPartition topic part) None False)
     | None \<Rightarrow> offsets_from (psp_base_offset p) 0 (nat (sint num_records))))"

section \<open>Fetching\<close>

definition saturating_dec :: "i32 \<Rightarrow> i32" where
  "saturating_dec w = (if sint w = - (2 ^ 31) then w else w - 1)"

definition build_fetch_request :: "i64 \<Rightarrow> i32 \<times> i32 \<Rightarrow> i32 \<Rightarrow> i32 \<Rightarrow> rstring \<Rightarrow> FetchRequest" where
  "build_fetch_request offset bytes max_wait_ms part topic =
     \<lparr>frq_replica_id = NORMAL_CONSUMER, frq_max_wait_ms = max_wait_ms, frq_min_bytes = fst bytes,
      frq_max_bytes = Some (saturating_dec (snd bytes)),
      frq_isolation_level = Some ReadCommitted,
      frq_topics = [\<lparr>frt_topic = topic,
        frt_partitions = [\<lparr>frp_partition = part, frp_fetch_offset = offset,
          frp_partition_max_bytes = saturating_dec (snd bytes)\<rparr>]\<rparr>]\<rparr>"

definition process_fetch_response :: "i32 \<Rightarrow> rstring \<Rightarrow> FetchResponse \<Rightarrow> i64 \<Rightarrow>
    FetchResponsePartition client_result" where
  "process_fetch_response part topic response request_offset =
     bind_o (only_one NotOneTopic (fsr_responses response)) (\<lambda>t.
       if fst_topic t \<noteq> topic then Err (InvalidResponse (OtherTopic topic (fst_topic t)))
       else
     bind_o (only_one NotOnePartition (fst_partitions t)) (\<lambda>p.
       if fsp_partition_index p \<noteq> part
       then Err (InvalidResponse (OtherPartition part (fsp_partition_index p)))
       else
     case fsp_error_code p of
       Some e \<Rightarrow> Err (ServerError e None (OfFetch topic part request_offset)
         (Some (PartitionFetchState (fsp_high_watermark p) (fsp_last_stable_offset p))) False)
     | None \<Rightarrow> Ok p))"

text \<open>One record of a batch: nothing when it is before the offset that was asked for.\<close>

definition extract_record :: "'ts chrono \<Rightarrow> RecordBatch \<Rightarrow> i64 \<Rightarrow> Record \<Rightarrow>
    'ts RecordAndOffset option client_result" where
  "extract_record C batch request_offset record =
     bind_o (add_panic (base_offset batch) (scast (offset_delta record))) (\<lambda>offset.
       if sint offset < sint request_offset then Ok None
       else case checked_add (first_timestamp batch) (timestamp_delta record) of
         None \<Rightarrow> Err (InvalidResponse
           (TimestampOverflow (first_timestamp batch) (timestamp_delta record)))
       | Some ts_millis \<Rightarrow>
         (case timestamp_millis_opt C ts_millis of
            LocalNone \<Rightarrow> Err (InvalidResponse (InvalidTimestamp ts_millis))
          | Ambiguous a b \<Rightarrow> Err (InvalidResponse (AmbiguousTimestamp ts_millis))
          | Single timestamp \<Rightarrow>
              Ok (Some \<lparr>ro_record = \<lparr>r_key = rec_key record, r_value = rec_value record,
                  r_headers = btree_collect (map (\<lambda>h. (rh_key h, rh_value h)) (rec_headers record)),
                  r_timestamp = timestamp\<rparr>, ro_offset = offset\<rparr>)))"

fun extract_batch :: "'ts chrono \<Rightarrow> RecordBatch \<Rightarrow> i64 \<Rightarrow> Record list \<Rightarrow> 'ts RecordAndOffset list \<Rightarrow>
    'ts RecordAndOffset list client_result" where
  "extract_batch C batch request_offset [] acc = Ok acc"
| "extract_batch C batch request_offset (record # rs) acc =
     bind_o (extract_record C batch request_offset record) (\<lambda>x.
     extract_batch C batch request_offset rs (case x of Some r \<Rightarrow> acc @ [r] | None \<Rightarrow> acc))"

fun extract_batches :: "'ts chrono \<Rightarrow> i64 \<Rightarrow> RecordBatch list \<Rightarrow> 'ts RecordAndOffset list \<Rightarrow>
    'ts RecordAndOffset list client_result" where
  "extract_batches C request_offset [] acc = Ok acc"
| "extract_batches C request_offset (batch # batches) acc =
     (case records batch of
        ControlBatch _ \<Rightarrow> extract_batches C request_offset batches acc
      | Records protocol_records \<Rightarrow>
          bind_o (extract_batch C batch request_offset protocol_records acc) (\<lambda>acc.
          extract_batches C request_offset batches acc))"

definition extract_records :: "'ts chrono \<Rightarrow> RecordBatch list \<Rightarrow> i64 \<Rightarrow>
    'ts RecordAndOffset list client_result" where
  "extract_records C partition_records request_offset =
     extract_batches C request_offset partition_records []"

section \<open>Offsets\<close>

definition build_list_offsets_request :: "i32 \<Rightarrow> rstring \<Rightarrow> OffsetAt \<Rightarrow> ListOffsetsRequest" where
  "build_list_offsets_request part topic at =
     \<lparr>loq_replica_id = NORMAL_CONSUMER, loq_isolation_level = Some ReadCommitted,
      loq_topics = [\<lparr>lot_name = topic,
        lot_partitions = [\<lparr>lop_partition_index = part,
          lop_timestamp = (case at of Earliest \<Rightarrow> -2 | Latest \<Rightarrow> -1),
          lop_max_num_offsets = Some 1\<rparr>]\<rparr>]\<rparr>"

definition process_list_offsets_response :: "i32 \<Rightarrow> rstring \<Rightarrow> ListOffsetsResponse \<Rightarrow>
    ListOffsetsResponsePartition client_result" where
  "process_list_offsets_response part topic response =
     bind_o (only_one NotOneTopic (lsr_topics response)) (\<lambda>t.
       if lst_name t \<noteq> topic then Err (InvalidResponse (OtherTopic topic (lst_name t)))
       else
     bind_o (only_one NotOnePartition (lst_partitions t)) (\<lambda>p.
       if lsp_partition_index p \<noteq> part
       then Err (InvalidResponse (OtherPartition part (lsp_partition_index p)))
       else
     case lsp_error_code p of
       Some e \<Rightarrow> Err (ServerError e None (OfPartition topic part) None False)
     | None \<Rightarrow> Ok p))"

definition extract_offset :: "ListOffsetsResponsePartition \<Rightarrow> i64 client_result" where
  "extract_offset p =
     (case (lsp_old_style_offsets p, lsp_offset p) of
        (Some offsets, None) \<Rightarrow>
          (case offsets of
             Some [offset] \<Rightarrow> Ok offset
           | Some offs \<Rightarrow> Err (InvalidResponse (NotOneOffset (length offs)))
           | None \<Rightarrow> Err (InvalidResponse NullOffsets))
      | (None, Some offset) \<Rightarrow> Ok offset
      | _ \<Rightarrow> Panic Unreachable)"

section \<open>Deleting\<close>

definition build_delete_records_request :: "i64 \<Rightarrow> i32 \<Rightarrow> rstring \<Rightarrow> i32 \<Rightarrow> DeleteRecordsRequest" where
  "build_delete_records_request offset timeout_ms topic part =
     \<lparr>drq_topics = [\<lparr>drt_name = topic,
        drt_partitions = [\<lparr>drp_partition_index = part, drp_offset = offset,
          drp_tagged_fields = None\<rparr>], drt_tagged_fields = None\<rparr>],
      drq_timeout_ms = timeout_ms, drq_tagged_fields = None\<rparr>"

definition process_delete_records_response :: "rstring \<Rightarrow> i32 \<Rightarrow> DeleteRecordsResponse \<Rightarrow>
    DeleteResponsePartition client_result" where
  "process_delete_records_response topic part response =
     bind_o (only_one NotOneTopic (dsr_topics response)) (\<lambda>t.
       if dst_name t \<noteq> topic then Err (InvalidResponse (OtherTopic topic (dst_name t)))
       else
     bind_o (only_one NotOnePartition (dst_partitions t)) (\<lambda>p.
       if dsp_partition_index p \<noteq> part
       then Err (InvalidResponse (OtherPartition part (dsp_partition_index p)))
       else
     case dsp_error p of
       Some e \<Rightarrow> Err (ServerError e None (OfPartition topic part) None False)
     | None \<Rightarrow> Ok p))"

section \<open>Records that were produced\<close>

lemma sint_of_nat_i64: "i < 2 ^ 63 \<Longrightarrow> sint (of_nat i :: i64) = int i"
  by (rule sint_of_nat_small) simp

lemma scast_of_nat: "i < 2 ^ 31 \<Longrightarrow> (scast (of_nat i :: i32) :: i64) = of_nat i"
  by (simp add: scast_eq sint_of_nat_small)

lemma add_offset:
  assumes "0 \<le> sint b" and "sint b + int i < 2 ^ 63"
  shows "checked_add b (of_nat i :: i64) = Some (b + of_nat i)" "sint (b + of_nat i) = sint b + int i"
proof -
  from assms have "int i < 2 ^ 63" by linarith
  then have i: "i < 2 ^ 63" by simp
  then have "sint (of_nat i :: i64) = int i" by (rule sint_of_nat_i64)
  moreover from this assms have "sint (b + of_nat i) = sint b + sint (of_nat i :: i64)"
    by (intro sint_add_no_overflow) simp_all
  ultimately show "checked_add b (of_nat i :: i64) = Some (b + of_nat i)" "sint (b + of_nat i) = sint b + int i"
    by (simp_all add: checked_add_iff)
qed

text \<open>The records under their offsets.\<close>

definition at_offsets :: "i64 \<Rightarrow> nat \<Rightarrow> 'ts client_record list \<Rightarrow> 'ts RecordAndOffset list" where
  "at_offsets b n rs = map (\<lambda>(i, r). \<lparr>ro_record = r, ro_offset = b + of_nat i\<rparr>) (enumerate n rs)"

lemma at_offsets_simps [simp]:
  "at_offsets b n [] = []"
  "at_offsets b n (r # rs) = \<lparr>ro_record = r, ro_offset = b + of_nat n\<rparr> # at_offsets b (Suc n) rs"
  by (simp_all add: at_offsets_def)

lemma offsets_from_ok:
  assumes "0 \<le> sint b" and "sint b + int (x + n) \<le> 2 ^ 63"
  shows "offsets_from b x n = Ok (map (\<lambda>i. b + of_nat i) [x..<x + n])"
  using assms
proof (induction n arbitrary: x)
  case (Suc n)
  then have "offsets_from b (Suc x) n = Ok (map (\<lambda>i. b + of_nat i) [Suc x..<Suc x + n])" by simp
  moreover have "add_panic (of_nat x) b = Ok (b + of_nat x)"
    using add_offset(1) [of b x] Suc.prems by (simp add: checked_add_iff add.commute)
  moreover have "[x..<x + Suc n] = x # [Suc x..<Suc x + n]"
    by (simp add: upt_conv_Cons del: upt_Suc)
  ultimately show ?case by simp
qed simp

lemma at_offsets_zip: "at_offsets b n rs =
    map2 (\<lambda>r off. \<lparr>ro_record = r, ro_offset = off\<rparr>) rs (map (\<lambda>i. b + of_nat i) [n..<n + length rs])"
proof (induction rs arbitrary: n)
  case (Cons r rs)
  have "[n..<n + length (r # rs)] = n # [Suc n..<Suc n + length rs]"
    by (simp add: upt_conv_Cons del: upt_Suc)
  with Cons.IH [of "Suc n"] show ?case by simp
qed simp

text \<open>A record that the protocol can carry as it is.\<close>

definition sendable_record :: "('ts \<Rightarrow> bool) \<Rightarrow> 'ts client_record \<Rightarrow> bool" where
  "sendable_record exact r \<longleftrightarrow> exact (r_timestamp r) \<and> btree_inv (r_headers r)"

context chrono_crate
begin

lemma extract_protocol_record:
  assumes r: "sendable_record exact r" and t0: "exact t0"
    and b: "0 \<le> sint (base_offset batch)" "sint (base_offset batch) + int i < 2 ^ 63" and i: "i < 2 ^ 31"
    and ts: "first_timestamp batch = timestamp_millis C t0"
  shows "extract_record C batch req (protocol_record C t0 i r) =
    Ok (if sint (base_offset batch + of_nat i) < sint req then None
        else Some \<lparr>ro_record = r, ro_offset = base_offset batch + of_nat i\<rparr>)"
proof -
  have add: "add_panic (base_offset batch) (scast (offset_delta (protocol_record C t0 i r))) =
      Ok (base_offset batch + of_nat i)"
    using add_offset(1) [OF b] i by (simp add: protocol_record_def scast_of_nat)
  have headers: "btree_collect (map (\<lambda>h. (rh_key h, rh_value h)) (rec_headers (protocol_record C t0 i r))) =
      r_headers r"
  proof -
    have "map (\<lambda>h. (rh_key h, rh_value h)) (rec_headers (protocol_record C t0 i r)) = r_headers r"
      by (simp add: protocol_record_def comp_def split_def)
    with btree_collect_inv [of "r_headers r"] r show ?thesis by (simp add: sendable_record_def)
  qed
  have "checked_add (first_timestamp batch) (timestamp_delta (protocol_record C t0 i r)) =
      Some (timestamp_millis C (r_timestamp r))"
    using restore [OF t0, of "r_timestamp r"] r by (simp add: ts protocol_record_def sendable_record_def)
  moreover have "timestamp_millis_opt C (timestamp_millis C (r_timestamp r)) = Single (r_timestamp r)"
    using millis_opt r by (simp add: sendable_record_def)
  ultimately show ?thesis
    unfolding extract_record_def add headers by (simp add: headers) (simp add: protocol_record_def)
qed

lemma extract_produced_batch:
  assumes "\<forall>r \<in> set rs. sendable_record exact r" and "exact t0"
    and "0 \<le> sint (base_offset batch)" and "sint (base_offset batch) + int (n + length rs) \<le> 2 ^ 63"
    and "n + length rs \<le> 2 ^ 31" and "first_timestamp batch = timestamp_millis C t0"
  shows "extract_batch C batch req (map (\<lambda>(i, r). protocol_record C t0 i r) (enumerate n rs)) acc =
    Ok (acc @ filter (\<lambda>x. \<not> sint (ro_offset x) < sint req) (at_offsets (base_offset batch) n rs))"
  using assms
proof (induction rs arbitrary: n acc)
  case (Cons r rs)
  have "extract_record C batch req (protocol_record C t0 n r) =
      Ok (if sint (base_offset batch + of_nat n) < sint req then None
          else Some \<lparr>ro_record = r, ro_offset = base_offset batch + of_nat n\<rparr>)"
    using Cons.prems by (intro extract_protocol_record) auto
  with Cons.IH [of "Suc n"] Cons.prems show ?case by simp
qed simp

end

lemma produce_batch_Ok:
  assumes "produce_batch C rs compr = Ok batch"
  obtains r rs' where "rs = r # rs'" "first_timestamp batch = timestamp_millis C (r_timestamp r)"
    "records batch = Records (map (\<lambda>(i, x). protocol_record C (r_timestamp r) i x) (enumerate 0 rs))"
  using assms by (auto simp: produce_batch_def Let_def split: list.splits)

lemma write_batch_length:
  assumes "write_RecordBatch K batch = Ok bs" and "records batch = Records rs"
  shows "length rs < 2 ^ 31"
proof -
  from assms(1) obtain data where "write_RecordBatchBodyRef K (batch_body batch) = Ok data"
    by (auto simp: write_RecordBatch_def)
  with assms(2) show ?thesis
    by (auto simp: write_RecordBatchBodyRef_def batch_body_def i32_try_from_usize_def split: if_splits)
qed

lemma extract_produced:
  assumes C: "chrono_crate C exact" and rs: "\<forall>r \<in> set rs. sendable_record exact r"
    and batch: "produce_batch C rs compr = Ok batch"
    and len: "length rs < 2 ^ 31" and b: "0 \<le> sint b" "sint b + int (length rs) \<le> 2 ^ 63"
  shows "extract_records C [batch\<lparr>base_offset := b\<rparr>] req =
    Ok (filter (\<lambda>x. \<not> sint (ro_offset x) < sint req) (at_offsets b 0 rs))"
proof -
  from batch obtain r rs' where r: "rs = r # rs'"
    "first_timestamp batch = timestamp_millis C (r_timestamp r)"
    "records batch = Records (map (\<lambda>(i, x). protocol_record C (r_timestamp r) i x) (enumerate 0 rs))"
    by (rule produce_batch_Ok)
  have "exact (r_timestamp r)" using rs r(1) by (simp add: sendable_record_def)
  with chrono_crate.extract_produced_batch [OF C rs, of "r_timestamp r" "batch\<lparr>base_offset := b\<rparr>" 0 req "[]"]
    len b r(2,3)
  show ?thesis by (simp add: extract_records_def)
qed

section \<open>What a fetch returns\<close>

text \<open>No record is before the offset that was asked for.\<close>

lemma extract_record_ge:
  "extract_record C batch req record = Ok (Some x) \<Longrightarrow> sint req \<le> sint (ro_offset x)"
  by (auto simp: extract_record_def split: if_splits option.splits LocalResult.splits)

lemma extract_batch_ge:
  "extract_batch C batch req rs acc = Ok xs \<Longrightarrow> \<forall>x \<in> set acc. sint req \<le> sint (ro_offset x) \<Longrightarrow>
    \<forall>x \<in> set xs. sint req \<le> sint (ro_offset x)"
proof (induction C batch req rs acc rule: extract_batch.induct)
  case (2 C batch req rd rs acc)
  from "2.prems" obtain y where y: "extract_record C batch req rd = Ok y"
    "extract_batch C batch req rs (case y of Some r \<Rightarrow> acc @ [r] | None \<Rightarrow> acc) = Ok xs"
    by auto
  have "\<forall>x \<in> set (case y of Some r \<Rightarrow> acc @ [r] | None \<Rightarrow> acc). sint req \<le> sint (ro_offset x)"
    using "2.prems"(2) y(1) extract_record_ge [of C batch req rd] by (cases y) auto
  with "2.IH" [OF y(2)] show ?case by blast
qed simp

lemma extract_batches_ge:
  "extract_batches C req batches acc = Ok xs \<Longrightarrow> \<forall>x \<in> set acc. sint req \<le> sint (ro_offset x) \<Longrightarrow>
    \<forall>x \<in> set xs. sint req \<le> sint (ro_offset x)"
proof (induction C req batches acc rule: extract_batches.induct)
  case (2 C req batch batches acc)
  show ?case
  proof (cases "records batch")
    case (ControlBatch c)
    with 2 show ?thesis by simp
  next
    case (Records rs)
    with "2.prems" obtain acc' where acc': "extract_batch C batch req rs acc = Ok acc'"
      "extract_batches C req batches acc' = Ok xs"
      by auto
    with "2.IH"(2) [OF Records acc'(2)] extract_batch_ge [OF acc'(1)] "2.prems"(2) show ?thesis by blast
  qed
qed simp

lemma extract_records_ge:
  "extract_records C batches req = Ok xs \<Longrightarrow> x \<in> set xs \<Longrightarrow> sint req \<le> sint (ro_offset x)"
  using extract_batches_ge [of C req batches "[]" xs] by (simp add: extract_records_def)

section \<open>The two styles of offsets\<close>

text \<open>A response that was read has the offset in one style.\<close>

definition one_style :: "ListOffsetsResponsePartition \<Rightarrow> bool" where
  "one_style p \<longleftrightarrow> (lsp_old_style_offsets p = None) \<noteq> (lsp_offset p = None)"

lemma extract_offset_panics_iff: "is_panic (extract_offset p) \<longleftrightarrow> \<not> one_style p"
  by (cases "lsp_old_style_offsets p"; cases "lsp_offset p")
    (auto simp: extract_offset_def one_style_def split: option.splits list.splits)

lemma read_items_all:
  assumes "\<And>s x s'. rd s = Ok (x, s') \<Longrightarrow> P x" and "read_items n rd s = Ok (xs, s')"
  shows "\<forall>x \<in> set xs. P x"
  using assms(2)
proof (induction n arbitrary: s xs s')
  case (Suc n)
  from Suc.prems obtain y ys s1 where y: "rd s = Ok (y, s1)" "read_items n rd s1 = Ok (ys, s')"
    "xs = y # ys"
    by (auto simp: rbind_Ok_iff)
  from Suc.IH [OF y(2)] assms(1) [OF y(1)] y(3) show ?case by simp
qed simp

lemma read_versioned_array_all:
  assumes "\<And>s x s'. rd s = Ok (x, s') \<Longrightarrow> P x" and "read_versioned_array rd s = Ok (xs, s')"
  shows "\<forall>x \<in> set (or_empty xs). P x"
proof (cases xs)
  case (Some ys)
  with assms(2) obtain n s1 where "read_items n rd s1 = Ok (ys, s')"
    by (auto simp: read_versioned_array_def rbind_Ok_iff split: if_splits)
  with read_items_all [of rd P, OF assms(1)] Some show ?thesis by (auto simp: or_empty_def)
qed (simp add: or_empty_def)

lemma read_partition_one_style:
  "read_ListOffsetsResponsePartition v s = Ok (p, s') \<Longrightarrow> one_style p"
  by (auto simp: read_ListOffsetsResponsePartition_def rbind_Ok_iff rwhen_def one_style_def Let_def
      split: if_splits)

lemma read_topic_one_style:
  "read_ListOffsetsResponseTopic v s = Ok (t, s') \<Longrightarrow> \<forall>p \<in> set (lst_partitions t). one_style p"
  using read_versioned_array_all [of "read_ListOffsetsResponsePartition v" one_style,
      OF read_partition_one_style]
  by (auto simp: read_ListOffsetsResponseTopic_def rbind_Ok_iff Let_def)

lemma read_ListOffsets_one_style:
  "read_ListOffsetsResponse v s = Ok (r, s') \<Longrightarrow>
    \<forall>t \<in> set (lsr_topics r). \<forall>p \<in> set (lst_partitions t). one_style p"
  using read_versioned_array_all [of "read_ListOffsetsResponseTopic v"
      "\<lambda>t. \<forall>p \<in> set (lst_partitions t). one_style p", OF read_topic_one_style]
  by (auto simp: read_ListOffsetsResponse_def rbind_Ok_iff Let_def)

lemma only_one_Ok [simp]: "only_one f xs = Ok x \<longleftrightarrow> xs = [x]"
  by (cases xs rule: rev_cases) (auto simp: only_one_def exactly_one_def)

lemma process_list_offsets_Ok:
  assumes "process_list_offsets_response part topic r = Ok p"
  shows "\<exists>t \<in> set (lsr_topics r). p \<in> set (lst_partitions t) \<and> lst_name t = topic \<and>
    lsp_partition_index p = part \<and> lsp_error_code p = None"
  using assms by (auto simp: process_list_offsets_response_def split: if_splits option.splits)

end
