(* ===== verification/Consumer.thy ===== *)
theory Consumer
  imports Partition "HOL-Library.Sublist" "HOL-Library.Multiset"
begin

text \<open>
  \<open>src/src/client/consumer.rs\<close>: the stream of the records of a partition.

  The trait \<open>FetchClient\<close> is a record of its two operations.  A future that fetches calls them
  some time after it was made; what they answer then is a value of \<open>fetch_client\<close>, and
  \<open>poll_next\<close> is given the list of the answers that are there already, one per future.  When
  the list is empty the poll is \<open>Pending\<close>, and the future stays in the state with what it has
  captured.  The time that a future sleeps is in \<open>fp_backoff\<close>.

  What is proved: the stream is the log of the partition from the start offset on, in order,
  each record once; it goes on whenever the broker has a record; and an error ends it.
\<close>

section \<open>The stream\<close>

datatype StartOffset = StartEarliest | StartLatest | StartAt i64

record 'ts fetch_client =
  fetch_records :: "i64 \<Rightarrow> i32 \<times> i32 \<Rightarrow> i32 \<Rightarrow> ('ts RecordAndOffset list \<times> i64) client_result"
  get_offset :: "OffsetAt \<Rightarrow> i64 client_result"

record StreamConsumerBuilder =
  cb_start_offset :: StartOffset
  cb_max_wait_ms :: i32
  cb_min_batch_size :: i32
  cb_max_batch_size :: i32

definition consumer_builder :: "StartOffset \<Rightarrow> StreamConsumerBuilder" where
  "consumer_builder start = \<lparr>cb_start_offset = start, cb_max_wait_ms = 500,
     cb_min_batch_size = 1, cb_max_batch_size = 52428800\<rparr>"

definition with_min_batch_size :: "i32 \<Rightarrow> StreamConsumerBuilder \<Rightarrow> StreamConsumerBuilder" where
  "with_min_batch_size n b = b\<lparr>cb_min_batch_size := n\<rparr>"

definition with_max_batch_size :: "i32 \<Rightarrow> StreamConsumerBuilder \<Rightarrow> StreamConsumerBuilder" where
  "with_max_batch_size n b = b\<lparr>cb_max_batch_size := n\<rparr>"

definition with_max_wait_ms :: "i32 \<Rightarrow> StreamConsumerBuilder \<Rightarrow> StreamConsumerBuilder" where
  "with_max_wait_ms n b = b\<lparr>cb_max_wait_ms := n\<rparr>"

text \<open>What the future of a fetch has captured, and what it returns.\<close>

record fetch_plan =
  fp_backoff :: "nat option"
  fp_next_offset :: "i64 option"
  fp_start_offset :: StartOffset
  fp_bytes :: "i32 \<times> i32"
  fp_max_wait_ms :: i32

record 'ts FetchResultOk =
  fo_records_and_offsets :: "'ts RecordAndOffset list"
  fo_watermark :: i64
  fo_used_offset :: i64

record 'ts StreamConsumer =
  sc_min_batch_size :: i32
  sc_max_batch_size :: i32
  sc_max_wait_ms :: i32
  sc_start_offset :: StartOffset
  sc_next_offset :: "i64 option"
  sc_next_backoff :: "nat option"
  sc_terminated :: bool
  sc_last_high_watermark :: i64
  sc_buffer :: "'ts RecordAndOffset list"
  sc_fetch_fut :: "fetch_plan option"

definition build_consumer :: "StreamConsumerBuilder \<Rightarrow> 'ts StreamConsumer" where
  "build_consumer b = \<lparr>sc_min_batch_size = cb_min_batch_size b,
     sc_max_batch_size = cb_max_batch_size b, sc_max_wait_ms = cb_max_wait_ms b,
     sc_start_offset = cb_start_offset b, sc_next_offset = None, sc_next_backoff = None,
     sc_terminated = False, sc_last_high_watermark = -1, sc_buffer = [], sc_fetch_fut = None\<rparr>"

definition start_fetch :: "'ts StreamConsumer \<Rightarrow> fetch_plan \<times> 'ts StreamConsumer" where
  "start_fetch c =
     (case sc_fetch_fut c of
        Some plan \<Rightarrow> (plan, c)
      | None \<Rightarrow>
          let plan = \<lparr>fp_backoff = sc_next_backoff c, fp_next_offset = sc_next_offset c,
            fp_start_offset = sc_start_offset c,
            fp_bytes = (sc_min_batch_size c, sc_max_batch_size c),
            fp_max_wait_ms = sc_max_wait_ms c\<rparr>
          in (plan, c\<lparr>sc_next_backoff := None, sc_fetch_fut := Some plan\<rparr>))"

definition fetch_offset :: "'ts fetch_client \<Rightarrow> fetch_plan \<Rightarrow> i64 client_result" where
  "fetch_offset a plan =
     (case fp_next_offset plan of
        Some x \<Rightarrow> Ok x
      | None \<Rightarrow>
          (case fp_start_offset plan of
             StartEarliest \<Rightarrow> get_offset a Earliest
           | StartLatest \<Rightarrow> get_offset a Latest
           | StartAt x \<Rightarrow> Ok x))"

definition run_fetch :: "'ts fetch_client \<Rightarrow> fetch_plan \<Rightarrow> 'ts FetchResultOk client_result" where
  "run_fetch a plan =
     bind_o (fetch_offset a plan) (\<lambda>offset.
     bind_o (fetch_records a offset (fp_bytes plan) (fp_max_wait_ms plan)) (\<lambda>(rs, watermark).
     Ok \<lparr>fo_records_and_offsets = rs, fo_watermark = watermark, fo_used_offset = offset\<rparr>))"

text \<open>The branch for a fetch that succeeded.\<close>

definition absorb :: "'ts FetchResultOk \<Rightarrow> 'ts StreamConsumer \<Rightarrow> 'ts StreamConsumer client_result" where
  "absorb inner c =
     (let c1 = c\<lparr>sc_next_offset := Some (fo_used_offset inner)\<rparr>;
          rs = sort_key (\<lambda>x. sint (ro_offset x)) (fo_records_and_offsets inner);
          c2 = c1\<lparr>sc_last_high_watermark := fo_watermark inner\<rparr>
      in if rs = [] then Ok c2
         else bind_o (add_panic (ro_offset (last rs)) 1) (\<lambda>next.
           Ok (c2\<lparr>sc_next_offset := Some next, sc_buffer := sc_buffer c2 @ rs\<rparr>)))"

text \<open>The errors that wipe the offset.\<close>

definition offset_is_gone :: "client_error \<Rightarrow> StartOffset \<Rightarrow> bool" where
  "offset_is_gone e start =
     (case e of
        ServerError protocol_error _ _ _ _ \<Rightarrow>
          protocol_error = OffsetOutOfRange \<and> (start = StartEarliest \<or> start = StartLatest)
      | _ \<Rightarrow> False)"

datatype 'a poll = Pending | Ready 'a

type_synonym 'ts item = "('ts RecordAndOffset \<times> i64) client_result"

text \<open>The head of the loop: the end of the stream and records that are there.\<close>

definition poll_ready :: "'ts StreamConsumer \<Rightarrow> ('ts item option \<times> 'ts StreamConsumer) option" where
  "poll_ready c =
     (if sc_terminated c then Some (None, c)
      else case sc_buffer c of
        x # xs \<Rightarrow> Some (Some (Ok (x, sc_last_high_watermark c)), c\<lparr>sc_buffer := xs\<rparr>)
      | [] \<Rightarrow> None)"

text \<open>
  A panic in the poll is the item \<open>Panic\<close>.  The last component is the answers that are left.
\<close>

fun poll_next :: "'ts fetch_client list \<Rightarrow> 'ts StreamConsumer \<Rightarrow>
    'ts item option poll \<times> 'ts StreamConsumer \<times> 'ts fetch_client list" where
  "poll_next [] c =
     (case poll_ready c of
        Some (item, c') \<Rightarrow> (Ready item, c', [])
      | None \<Rightarrow> (Pending, snd (start_fetch c), []))"
| "poll_next (a # answers) c =
     (case poll_ready c of
        Some (item, c') \<Rightarrow> (Ready item, c', a # answers)
      | None \<Rightarrow>
          let (plan, c1) = start_fetch c;
              c2 = c1\<lparr>sc_fetch_fut := None\<rparr>
          in case run_fetch a plan of
               Ok inner \<Rightarrow>
                 (case absorb inner c2 of
                    Ok c3 \<Rightarrow> poll_next answers c3
                  | Err e \<Rightarrow> (Ready (Some (Err e)), c2, answers)
                  | Panic p \<Rightarrow> (Ready (Some (Panic p)), c2, answers))
             | Err e \<Rightarrow>
                 if offset_is_gone e (sc_start_offset c2)
                 then poll_next answers (c2\<lparr>sc_next_offset := None, sc_next_backoff := Some 1\<rparr>)
                 else (Ready (Some (Err e)), c2\<lparr>sc_terminated := True\<rparr>, answers)
             | Panic p \<Rightarrow> (Ready (Some (Panic p)), c2, answers))"

text \<open>What has come out of the stream after some polls, with answers from a set of behaviours.\<close>

fun poll_items :: "'ts item option poll \<Rightarrow> 'ts item list" where
  "poll_items (Ready (Some item)) = [item]"
| "poll_items _ = []"

inductive consumes :: "'ts fetch_client set \<Rightarrow> 'ts StreamConsumer \<Rightarrow> 'ts item list \<Rightarrow>
    'ts StreamConsumer \<Rightarrow> bool" for A c where
  start: "consumes A c [] c"
| polled: "consumes A c items c1 \<Longrightarrow> set answers \<subseteq> A \<Longrightarrow> poll_next answers c1 = (p, c2, rest) \<Longrightarrow>
    consumes A c (items @ poll_items p) c2"

section \<open>The log of a partition\<close>

text \<open>The records of a log from an offset on.\<close>

definition from_offset :: "i64 \<Rightarrow> 'ts RecordAndOffset list \<Rightarrow> 'ts RecordAndOffset list" where
  "from_offset off log = filter (\<lambda>x. sint off \<le> sint (ro_offset x)) log"

definition ordered_log :: "'ts RecordAndOffset list \<Rightarrow> bool" where
  "ordered_log log \<longleftrightarrow> sorted_wrt (\<lambda>x y. sint (ro_offset x) < sint (ro_offset y)) log"

lemma ordered_from: "ordered_log log \<Longrightarrow> ordered_log (from_offset off log)"
  by (simp add: ordered_log_def from_offset_def sorted_wrt_filter)

lemma ordered_append:
  "ordered_log (xs @ ys) \<longleftrightarrow> ordered_log xs \<and> ordered_log ys \<and>
     (\<forall>x \<in> set xs. \<forall>y \<in> set ys. sint (ro_offset x) < sint (ro_offset y))"
  by (simp add: ordered_log_def sorted_wrt_append)

lemma from_offset_ge: "x \<in> set (from_offset off log) \<Longrightarrow> sint off \<le> sint (ro_offset x)"
  by (simp add: from_offset_def)

text \<open>Sorting undoes any rearrangement of a part of a log.\<close>

lemma sort_part_of_log:
  assumes "ordered_log ys" and "mset rs = mset ys"
  shows "sort_key (\<lambda>x. sint (ro_offset x)) rs = ys"
proof (rule sort_key_inj_key_eq)
  have "sorted_wrt (<) (map (\<lambda>x. sint (ro_offset x)) ys)"
    using assms(1) by (simp add: ordered_log_def sorted_wrt_map)
  then have "sorted (map (\<lambda>x. sint (ro_offset x)) ys) \<and> distinct (map (\<lambda>x. sint (ro_offset x)) ys)"
    by (simp add: strict_sorted_iff)
  then show "sorted (map (\<lambda>x. sint (ro_offset x)) ys)" "inj_on (\<lambda>x. sint (ro_offset x)) (set rs)"
    using mset_eq_setD [OF assms(2)] by (simp_all add: distinct_map)
qed (rule assms(2))

text \<open>Behind the last record that was fetched the log goes on with the first that was not.\<close>

lemma from_offset_next:
  assumes "ordered_log log" and "from_offset off log = ys @ zs" and "ys \<noteq> []"
    and "sint (ro_offset (last ys)) < 2 ^ 63 - 1"
  shows "add_panic (ro_offset (last ys)) 1 = Ok (ro_offset (last ys) + 1)"
    and "from_offset (ro_offset (last ys) + 1) log = zs"
proof -
  let ?n = "ro_offset (last ys) + 1"
  have n: "sint ?n = sint (ro_offset (last ys)) + 1"
    using assms(4) sint_add_no_overflow [of "ro_offset (last ys)" 1] sint_ge [of "ro_offset (last ys)"]
    by simp
  then show "add_panic (ro_offset (last ys)) 1 = Ok ?n" by (simp add: checked_add_iff)
  have last: "last ys \<in> set (from_offset off log)" using assms(2,3) by simp
  have ys: "ys = butlast ys @ [last ys]" using assms(3) by simp
  have "ordered_log (ys @ zs)" using ordered_from [OF assms(1), of off] assms(2) by simp
  then have ord: "\<forall>z \<in> set zs. sint (ro_offset (last ys)) < sint (ro_offset z)"
    and "ordered_log (butlast ys @ [last ys])"
    using assms(3) ys by (auto simp: ordered_append)
  then have le: "\<forall>y \<in> set (butlast ys @ [last ys]). sint (ro_offset y) \<le> sint (ro_offset (last ys))"
    unfolding ordered_append by auto
  have "from_offset ?n log = from_offset ?n (from_offset off log)"
    using from_offset_ge [OF last] n by (auto simp: from_offset_def intro!: filter_cong)
  also have "\<dots> = from_offset ?n (butlast ys @ [last ys]) @ from_offset ?n zs"
    using assms(2) ys by (simp add: from_offset_def)
  also have "from_offset ?n (butlast ys @ [last ys]) = []"
    using le n by (auto simp: from_offset_def filter_empty_conv)
  also have "from_offset ?n zs = zs"
    using ord n by (auto simp: from_offset_def filter_id_conv)
  finally show "from_offset ?n log = zs" by simp
qed

text \<open>The records among the items that came out of the stream.\<close>

definition delivered :: "'ts item list \<Rightarrow> 'ts RecordAndOffset list" where
  "delivered items = concat (map (\<lambda>i. case i of Ok (r, _) \<Rightarrow> [r] | _ \<Rightarrow> []) items)"

lemma delivered_simps [simp]:
  "delivered [] = []"
  "delivered (xs @ ys) = delivered xs @ delivered ys"
  "delivered [Ok (r, w)] = [r]" "delivered [Err e] = []" "delivered [Panic q] = []"
  by (simp_all add: delivered_def)

text \<open>The offset at which a stream can begin.\<close>

definition begins :: "'ts fetch_client set \<Rightarrow> StartOffset \<Rightarrow> i64 \<Rightarrow> bool" where
  "begins A start x =
     (case start of
        StartAt y \<Rightarrow> x = y
      | StartEarliest \<Rightarrow> \<exists>a \<in> A. get_offset a Earliest = Ok x
      | StartLatest \<Rightarrow> \<exists>a \<in> A. get_offset a Latest = Ok x)"

text \<open>No fetch answers that the offset is gone, to a consumer that would start over then.\<close>

definition keeps_offsets :: "'ts fetch_client set \<Rightarrow> StartOffset \<Rightarrow> bool" where
  "keeps_offsets A start \<longleftrightarrow>
     (\<forall>a \<in> A. \<forall>off bytes wait e. fetch_records a off bytes wait = Err e \<longrightarrow> \<not> offset_is_gone e start)"

lemma keeps_offsetsD:
  "keeps_offsets A start \<Longrightarrow> a \<in> A \<Longrightarrow> fetch_records a off bytes wait = Err e \<Longrightarrow> \<not> offset_is_gone e start"
  unfolding keeps_offsets_def by blast

lemma keeps_offsets_at [simp]: "keeps_offsets A (StartAt x)"
  by (simp add: keeps_offsets_def offset_is_gone_def split: client_error.splits)

text \<open>Every fetch is answered, with a record when there is one.\<close>

definition answering :: "'ts RecordAndOffset list \<Rightarrow> 'ts fetch_client set \<Rightarrow> bool" where
  "answering L A \<longleftrightarrow> (\<forall>a \<in> A. \<forall>off bytes wait. \<exists>rs w.
     fetch_records a off bytes wait = Ok (rs, w) \<and> (from_offset off L \<noteq> [] \<longrightarrow> rs \<noteq> []))"

text \<open>Every answer gives the stream the same offset to begin at.\<close>

definition starts :: "'ts fetch_client set \<Rightarrow> StartOffset \<Rightarrow> i64 \<Rightarrow> bool" where
  "starts A start x =
     (case start of
        StartAt y \<Rightarrow> x = y
      | StartEarliest \<Rightarrow> \<forall>a \<in> A. get_offset a Earliest = Ok x
      | StartLatest \<Rightarrow> \<forall>a \<in> A. get_offset a Latest = Ok x)"

lemma starts_at [simp]: "starts A (StartAt y) x \<longleftrightarrow> x = y"
  by (simp add: starts_def)

lemma starts_begins: "starts A start x \<Longrightarrow> begins A start y \<Longrightarrow> y = x"
  by (auto simp: starts_def begins_def split: StartOffset.splits)

lemma answering_keeps_offsets: "answering L A \<Longrightarrow> keeps_offsets A start"
  unfolding answering_def keeps_offsets_def by (metis outcome.distinct(1))

text \<open>
  The contract of a client with the log of its partition: a fetch returns the records from the
  offset on, up to some point, in any order.
\<close>

locale partition_log =
  fixes L :: "'ts RecordAndOffset list" and A :: "'ts fetch_client set"
  assumes ordered: "ordered_log L"
    and below: "x \<in> set L \<Longrightarrow> sint (ro_offset x) < 2 ^ 63 - 1"
    and serves: "a \<in> A \<Longrightarrow> fetch_records a off bytes wait = Ok (rs, w) \<Longrightarrow>
      \<exists>ys. prefix ys (from_offset off L) \<and> mset rs = mset ys"
begin

text \<open>
  The invariant: the log from the first offset on is what was delivered, then what is in the
  buffer, then the log from the next offset on.
\<close>

definition inv :: "StartOffset \<Rightarrow> 'ts item list \<Rightarrow> 'ts StreamConsumer \<Rightarrow> bool" where
  "inv start items c \<longleftrightarrow> sc_start_offset c = start \<and>
     (\<forall>plan. sc_fetch_fut c = Some plan \<longrightarrow>
        fp_next_offset plan = sc_next_offset c \<and> fp_start_offset plan = start) \<and>
     (case sc_next_offset c of
        None \<Rightarrow> delivered items = [] \<and> sc_buffer c = []
      | Some off \<Rightarrow> \<exists>x. begins A start x \<and>
          from_offset x L = delivered items @ sc_buffer c @ from_offset off L)"

lemma inv_same: "inv start items c \<Longrightarrow> delivered items' = delivered items \<Longrightarrow> inv start items' c"
  by (cases "sc_next_offset c") (simp_all add: inv_def)

lemma inv_build: "inv (cb_start_offset b) [] (build_consumer b)"
  by (simp add: inv_def build_consumer_def)

lemma start_fetch_inv:
  assumes "inv start items c" and "start_fetch c = (plan, c1)"
  shows "inv start items c1" "fp_next_offset plan = sc_next_offset c1" "fp_start_offset plan = start"
    "sc_buffer c1 = sc_buffer c" "sc_fetch_fut c1 = Some plan" "sc_next_offset c1 = sc_next_offset c"
    "sc_terminated c1 = sc_terminated c"
  using assms by (auto simp: inv_def start_fetch_def Let_def split: option.splits)

lemma poll_ready_inv:
  assumes "inv start items c" and "poll_ready c = Some (item, c')"
  shows "inv start (items @ poll_items (Ready item)) c'"
  using assms by (auto simp: inv_def poll_ready_def split: if_splits list.splits option.splits)

text \<open>Where a fetch starts, the log goes on.\<close>

lemma fetch_offset_inv:
  assumes "inv start items c" and "fp_next_offset plan = sc_next_offset c"
    and "fp_start_offset plan = start" and "a \<in> A" and "fetch_offset a plan = Ok off"
  obtains x where "begins A start x" "from_offset x L = delivered items @ sc_buffer c @ from_offset off L"
proof (cases "sc_next_offset c")
  case None
  with assms have "begins A start off"
    by (auto simp: fetch_offset_def begins_def split: StartOffset.splits)
  with None assms(1) show ?thesis by (intro that [of off]) (auto simp: inv_def)
next
  case (Some off')
  with assms have "off' = off" by (simp add: fetch_offset_def)
  with Some assms(1) show ?thesis by (auto simp: inv_def intro: that)
qed

lemma absorb_inv:
  assumes inv: "inv start items c" and plan: "fp_next_offset plan = sc_next_offset c"
    "fp_start_offset plan = start" and a: "a \<in> A" and run: "run_fetch a plan = Ok inner"
  obtains c' where "absorb inner (c\<lparr>sc_fetch_fut := None\<rparr>) = Ok c'" "inv start items c'"
    "length (sc_buffer c') = length (sc_buffer c) + length (fo_records_and_offsets inner)"
    "sc_terminated c' = sc_terminated c"
proof -
  from run obtain off rs w where off: "fetch_offset a plan = Ok off"
    and rs: "fetch_records a off (fp_bytes plan) (fp_max_wait_ms plan) = Ok (rs, w)"
    and inner: "inner = \<lparr>fo_records_and_offsets = rs, fo_watermark = w, fo_used_offset = off\<rparr>"
    by (auto simp: run_fetch_def)
  from fetch_offset_inv [OF inv plan a off] obtain x where x: "begins A start x"
    "from_offset x L = delivered items @ sc_buffer c @ from_offset off L" .
  from serves [OF a rs] obtain ys zs where ys: "from_offset off L = ys @ zs" "mset rs = mset ys"
    by (auto simp: prefix_def)
  have "ordered_log ys" using ordered_from [OF ordered, of off] ys(1) by (simp add: ordered_append)
  then have sorted: "sort_key (\<lambda>x. sint (ro_offset x)) rs = ys" using ys(2) by (rule sort_part_of_log)
  have len: "length rs = length ys" using ys(2) by (rule mset_eq_length)
  have start: "sc_start_offset c = start" using inv by (simp add: inv_def)
  show ?thesis
  proof (cases "ys = []")
    case True
    then have "rs = []" using len by simp
    with x start inner show ?thesis
      by (intro that [of "c\<lparr>sc_fetch_fut := None, sc_next_offset := Some off, sc_last_high_watermark := w\<rparr>"])
        (auto simp: absorb_def inv_def)
  next
    case False
    have "last ys \<in> set (from_offset off L)" using False ys(1) by simp
    then have "last ys \<in> set L" by (simp add: from_offset_def)
    note next' = from_offset_next [OF ordered ys(1) False below [OF this]]
    with sorted False inner x ys(1) start len show ?thesis
      by (intro that [of "c\<lparr>sc_fetch_fut := None, sc_next_offset := Some (ro_offset (last ys) + 1),
          sc_last_high_watermark := w, sc_buffer := sc_buffer c @ ys\<rparr>"])
        (auto simp: absorb_def inv_def Let_def)
  qed
qed

lemma run_fetch_gone:
  assumes "inv start items c" and "fp_next_offset plan = sc_next_offset c" and "keeps_offsets A start"
    and "a \<in> A" and "run_fetch a plan = Err e" and "offset_is_gone e start"
  shows "sc_next_offset c = None"
  using assms keeps_offsetsD [OF assms(3,4)] by (cases "sc_next_offset c")
    (auto simp: run_fetch_def fetch_offset_def bind_o_Err_iff)

lemma poll_next_inv:
  assumes "inv start items c" and "keeps_offsets A start" and "set answers \<subseteq> A"
    and "poll_next answers c = (p, c', rest)"
  shows "inv start (items @ poll_items p) c'"
  using assms
proof (induction answers arbitrary: c)
  case Nil
  show ?case
  proof (cases "poll_ready c")
    case None
    with Nil.prems start_fetch_inv(1) [OF Nil.prems(1)] show ?thesis
      by (cases "start_fetch c") auto
  next
    case (Some ic)
    with Nil.prems poll_ready_inv [OF Nil.prems(1)] show ?thesis by (cases ic) auto
  qed
next
  case (Cons a answers)
  show ?case
  proof (cases "poll_ready c")
    case (Some ic)
    with Cons.prems poll_ready_inv [OF Cons.prems(1)] show ?thesis by (cases ic) auto
  next
    case None
    obtain plan c1 where c1: "start_fetch c = (plan, c1)" by (cases "start_fetch c")
    note sf = start_fetch_inv [OF Cons.prems(1) c1]
    have start: "sc_start_offset c1 = start" using sf(1) by (simp add: inv_def)
    have stop: "inv start items (c1\<lparr>sc_fetch_fut := None\<rparr>)"
      "inv start items (c1\<lparr>sc_fetch_fut := None, sc_terminated := True\<rparr>)"
      using sf(1) by (auto simp: inv_def split: option.splits)
    show ?thesis
    proof (cases "run_fetch a plan")
      case (Ok inner)
      have a: "a \<in> A" using Cons.prems(3) by simp
      obtain c2 where c2: "absorb inner (c1\<lparr>sc_fetch_fut := None\<rparr>) = Ok c2" "inv start items c2"
        by (rule absorb_inv [OF sf(1-3) a Ok])
      with Cons.prems(4) None c1 Ok have "poll_next answers c2 = (p, c', rest)" by simp
      with Cons.IH [OF c2(2) Cons.prems(2)] Cons.prems(3) show ?thesis by simp
    next
      case (Err e)
      show ?thesis
      proof (cases "offset_is_gone e start")
        case True
        then have "sc_next_offset c1 = None"
          using run_fetch_gone [OF sf(1,2) Cons.prems(2) _ Err] Cons.prems(3) by simp
        with sf(1) have "inv start items (c1\<lparr>sc_fetch_fut := None, sc_next_offset := None,
            sc_next_backoff := Some 1\<rparr>)"
          by (simp add: inv_def)
        with True Err None c1 start Cons.prems show ?thesis by (intro Cons.IH) auto
      next
        case False
        with Err None c1 start Cons.prems(4) have "p = Ready (Some (Err e))"
          "c' = c1\<lparr>sc_fetch_fut := None, sc_terminated := True\<rparr>"
          by auto
        with stop(2) show ?thesis by (auto intro: inv_same)
      qed
    next
      case (Panic q)
      with None c1 Cons.prems(4) have "p = Ready (Some (Panic q))" "c' = c1\<lparr>sc_fetch_fut := None\<rparr>"
        by auto
      with stop(1) show ?thesis by (auto intro: inv_same)
    qed
  qed
qed

lemma consumes_inv:
  assumes "consumes A (build_consumer b) items c" and "keeps_offsets A (cb_start_offset b)"
  shows "inv (cb_start_offset b) items c"
  using assms(1)
proof (induction rule: consumes.induct)
  case (polled items c1 answers p c2 rest)
  with poll_next_inv assms(2) show ?case by blast
qed (rule inv_build)

theorem stream_is_log:
  assumes "consumes A (build_consumer b) items c" and "keeps_offsets A (cb_start_offset b)"
  shows "delivered items = [] \<or>
    (\<exists>x. begins A (cb_start_offset b) x \<and> prefix (delivered items) (from_offset x L))"
  using consumes_inv [OF assms] by (auto simp: inv_def prefix_def split: option.splits)

text \<open>With such a client each poll that has an answer gives the next record of the log.\<close>

lemma run_fetch_answering:
  assumes "answering L A" and "a \<in> A" and "starts A (fp_start_offset plan) x"
  obtains inner where "run_fetch a plan = Ok inner"
    "from_offset (fo_used_offset inner) L \<noteq> [] \<Longrightarrow> fo_records_and_offsets inner \<noteq> []"
    "fetch_offset a plan = Ok (fo_used_offset inner)"
proof -
  obtain off where off: "fetch_offset a plan = Ok off"
    using assms(2,3) by (cases "fp_next_offset plan") (auto simp: fetch_offset_def starts_def split: StartOffset.splits)
  from assms(1,2) obtain rs w where
    "fetch_records a off (fp_bytes plan) (fp_max_wait_ms plan) = Ok (rs, w)"
    "from_offset off L \<noteq> [] \<longrightarrow> rs \<noteq> []"
    unfolding answering_def by blast
  with off show ?thesis
    by (intro that [of "\<lparr>fo_records_and_offsets = rs, fo_watermark = w, fo_used_offset = off\<rparr>"])
      (auto simp: run_fetch_def)
qed

lemma inv_next_record:
  assumes "inv start items c" and "starts A start x" and "sc_buffer c = r # rs"
  shows "r = from_offset x L ! length (delivered items)"
proof -
  obtain off where "from_offset x L = delivered items @ sc_buffer c @ from_offset off L"
    using assms(1,3) starts_begins [OF assms(2)] by (auto simp: inv_def split: option.splits)
  with assms(3) show ?thesis by simp
qed

lemma poll_ready_next:
  assumes "inv start items c" and "starts A start x" and "\<not> sc_terminated c" and "sc_buffer c \<noteq> []"
  obtains w c' where "poll_ready c = Some (Some (Ok (from_offset x L ! length (delivered items), w)), c')"
  using assms inv_next_record [OF assms(1,2)] by (cases "sc_buffer c") (auto simp: poll_ready_def)

lemma poll_progress:
  assumes inv: "inv start items c" and x: "starts A start x" and live: "\<not> sc_terminated c" and ans: "answering L A"
    and a: "a \<in> A" and more: "length (delivered items) < length (from_offset x L)"
  shows "\<exists>w c' rest. poll_next [a] c =
    (Ready (Some (Ok (from_offset x L ! length (delivered items), w))), c', rest)"
proof (cases "sc_buffer c = []")
  case False
  obtain w c' where "poll_ready c = Some (Some (Ok (from_offset x L ! length (delivered items), w)), c')"
    by (rule poll_ready_next [OF inv x live False])
  then show ?thesis by simp
next
  case True
  obtain plan c1 where c1: "start_fetch c = (plan, c1)" by (cases "start_fetch c")
  note sf = start_fetch_inv [OF inv c1]
  obtain inner where inner: "run_fetch a plan = Ok inner"
    "from_offset (fo_used_offset inner) L \<noteq> [] \<Longrightarrow> fo_records_and_offsets inner \<noteq> []"
    "fetch_offset a plan = Ok (fo_used_offset inner)"
    using run_fetch_answering [OF ans a, of plan x] sf(3) x by metis
  obtain c2 where c2: "absorb inner (c1\<lparr>sc_fetch_fut := None\<rparr>) = Ok c2" "inv start items c2"
    "length (sc_buffer c2) = length (sc_buffer c1) + length (fo_records_and_offsets inner)"
    "sc_terminated c2 = sc_terminated c1"
    by (rule absorb_inv [OF sf(1-3) a inner(1)])
  have "from_offset x L = delivered items @ sc_buffer c1 @ from_offset (fo_used_offset inner) L"
    using fetch_offset_inv [OF sf(1-3) a inner(3)] starts_begins [OF x] by metis
  with more True sf(4) have "from_offset (fo_used_offset inner) L \<noteq> []" by auto
  with inner(2) c2(3) have "sc_buffer c2 \<noteq> []" by auto
  moreover have "\<not> sc_terminated c2" using c2(4) sf(7) live by simp
  ultimately obtain w c' where
    "poll_ready c2 = Some (Some (Ok (from_offset x L ! length (delivered items), w)), c')"
    using poll_ready_next [OF c2(2) x] by blast
  moreover have "poll_ready c = None" using True live by (simp add: poll_ready_def)
  ultimately show ?thesis using c1 inner(1) c2(1) by simp
qed

lemma poll_next_live:
  assumes "inv start items c" and "\<not> sc_terminated c" and "answering L A"
    and "set answers \<subseteq> A" and "poll_next answers c = (p, c', rest)" and "starts A start x"
  shows "\<not> sc_terminated c'"
  using assms
proof (induction answers arbitrary: c)
  case Nil
  obtain plan c1 where c1: "start_fetch c = (plan, c1)" by (cases "start_fetch c")
  with start_fetch_inv(7) [OF Nil.prems(1) c1] Nil.prems(2,5) show ?case
    by (auto simp: poll_ready_def split: if_splits list.splits)
next
  case (Cons a answers)
  show ?case
  proof (cases "poll_ready c")
    case (Some ic)
    with Cons.prems show ?thesis by (auto simp: poll_ready_def split: if_splits list.splits)
  next
    case None
    obtain plan c1 where c1: "start_fetch c = (plan, c1)" by (cases "start_fetch c")
    note sf = start_fetch_inv [OF Cons.prems(1) c1]
    have a: "a \<in> A" using Cons.prems(4) by simp
    obtain inner where inner: "run_fetch a plan = Ok inner"
      using run_fetch_answering [OF Cons.prems(3) a, of plan x] sf(3) Cons.prems(6) by metis
    obtain c2 where c2: "absorb inner (c1\<lparr>sc_fetch_fut := None\<rparr>) = Ok c2" "inv start items c2"
      "sc_terminated c2 = sc_terminated c1"
      by (rule absorb_inv [OF sf(1-3) a inner])
    with Cons.prems None c1 inner sf(7) show ?thesis by (intro Cons.IH [OF c2(2)]) simp_all
  qed
qed

lemma consumes_live:
  assumes "consumes A (build_consumer b) items c" and "starts A (cb_start_offset b) x" and "answering L A"
  shows "\<not> sc_terminated c"
  using assms(1)
proof (induction rule: consumes.induct)
  case (polled items c1 answers p c2 rest)
  have "inv (cb_start_offset b) items c1"
    by (rule consumes_inv [OF polled(1) answering_keeps_offsets [OF assms(3)]])
  with poll_next_live polled assms(2,3) show ?case by blast
qed (simp add: build_consumer_def)

theorem stream_goes_on:
  assumes "consumes A (build_consumer b) items c" and "starts A (cb_start_offset b) x" and "answering L A"
    and "a \<in> A" and "length (delivered items) < length (from_offset x L)"
  shows "\<exists>w c' rest. poll_next [a] c =
    (Ready (Some (Ok (from_offset x L ! length (delivered items), w))), c', rest)"
proof -
  have "inv (cb_start_offset b) items c"
    by (rule consumes_inv [OF assms(1) answering_keeps_offsets [OF assms(3)]])
  with poll_progress consumes_live [OF assms(1,2,3)] assms(2-5) show ?thesis by blast
qed

end

lemma partition_log_mono: "partition_log L A \<Longrightarrow> A' \<subseteq> A \<Longrightarrow> partition_log L A'"
  unfolding partition_log_def by blast

section \<open>Errors\<close>

text \<open>An error that comes out of the stream is its last item.\<close>

lemma poll_next_terminated: "sc_terminated c \<Longrightarrow> poll_next answers c = (Ready None, c, answers)"
  by (cases answers) (simp_all add: poll_ready_def)

lemma poll_next_error: "poll_next answers c = (Ready (Some (Err e)), c', rest) \<Longrightarrow> sc_terminated c'"
proof (induction answers arbitrary: c)
  case Nil
  then show ?case by (auto simp: poll_ready_def split: if_splits list.splits)
next
  case (Cons a answers)
  have absorb: "absorb inner c2 \<noteq> Err e'" for inner c2 e'
    by (auto simp: absorb_def Let_def bind_o_Err_iff add_panic_def split: option.splits)
  show ?case
  proof (cases "poll_ready c")
    case (Some ic)
    with Cons.prems show ?thesis by (auto simp: poll_ready_def split: if_splits list.splits)
  next
    case None
    obtain plan c1 where "start_fetch c = (plan, c1)" by (cases "start_fetch c")
    with None Cons absorb show ?thesis
      by (auto simp: Let_def split: outcome.splits if_splits)
  qed
qed

lemma consumes_after_error:
  assumes "consumes A c items c'" and "items = xs @ [Err e] @ ys" and "c = build_consumer b"
  shows "ys = [] \<and> sc_terminated c'"
  using assms
proof (induction arbitrary: ys rule: consumes.induct)
  case (polled items c1 answers p c2 rest)
  show ?case
  proof (cases "\<exists>ys'. items = xs @ [Err e] @ ys'")
    case True
    then obtain ys' where ys': "items = xs @ [Err e] @ ys'" by blast
    with polled have "ys' = [] \<and> sc_terminated c1" by blast
    with polled.hyps(3) poll_next_terminated [of c1 answers] have "p = Ready None" "c2 = c1" by auto
    with ys' polled.prems(1) \<open>ys' = [] \<and> sc_terminated c1\<close> show ?thesis by simp
  next
    case False
    with polled.prems(1) obtain i where i: "p = Ready (Some i)" "items @ [i] = xs @ [Err e] @ ys"
      by (cases p rule: poll_items.cases) auto
    with False have "ys = []" by (cases ys rule: rev_cases) auto
    with i polled.hyps(3) poll_next_error [of answers c1] show ?thesis by simp
  qed
qed simp

end
