(* ===== verification/Log_Service.thy ===== *)
theory Log_Service
  imports Consumer
begin

text \<open>
  The log of a partition as the partition client and its consumer see it: batches that were
  produced with \<open>build_produce_request\<close> and that the broker has given their base offsets, fetched
  with \<open>PartitionClient::fetch_records\<close>.  It is shown to be what the consumer relies on.
\<close>

section \<open>Fetching from the log\<close>

text \<open>\<open>PartitionClient::fetch_records\<close> for the response that the request got.\<close>

definition fetch_result :: "'ts chrono \<Rightarrow> i32 \<Rightarrow> rstring \<Rightarrow> i64 \<Rightarrow> FetchResponse \<Rightarrow>
    ('ts RecordAndOffset list \<times> i64) client_result" where
  "fetch_result C part topic offset response =
     bind_o (process_fetch_response part topic response offset) (\<lambda>p.
     bind_o (extract_records C (fsp_records p) offset) (\<lambda>rs.
     Ok (rs, fsp_high_watermark p)))"

text \<open>
  A stored batch, with the records it was made of, and a log of them with growing offsets from
  \<open>n\<close> on.
\<close>

definition stored_batch :: "'ts::linorder chrono \<Rightarrow> ('ts \<Rightarrow> bool) \<Rightarrow> RecordBatch \<Rightarrow>
    'ts client_record list \<Rightarrow> bool" where
  "stored_batch C exact batch rs \<longleftrightarrow>
     (\<exists>compr b. produce_batch C rs compr = Ok b \<and> batch = b\<lparr>base_offset := base_offset batch\<rparr>) \<and>
     (\<forall>r \<in> set rs. sendable_record exact r) \<and> length rs < 2 ^ 31"

fun stored_log :: "'ts::linorder chrono \<Rightarrow> ('ts \<Rightarrow> bool) \<Rightarrow> int \<Rightarrow>
    (RecordBatch \<times> 'ts client_record list) list \<Rightarrow> bool" where
  "stored_log C exact n [] \<longleftrightarrow> True"
| "stored_log C exact n ((batch, rs) # log) \<longleftrightarrow>
     stored_batch C exact batch rs \<and> n \<le> sint (base_offset batch) \<and>
     sint (base_offset batch) + int (length rs) < 2 ^ 63 \<and>
     stored_log C exact (sint (base_offset batch) + int (length rs)) log"

definition batch_records :: "RecordBatch \<times> 'ts client_record list \<Rightarrow> 'ts RecordAndOffset list" where
  "batch_records = (\<lambda>(batch, rs). at_offsets (base_offset batch) 0 rs)"

definition log_records :: "(RecordBatch \<times> 'ts client_record list) list \<Rightarrow> 'ts RecordAndOffset list" where
  "log_records log = concat (map batch_records log)"

text \<open>The batch ends before the offset.\<close>

definition batch_ended :: "i64 \<Rightarrow> RecordBatch \<times> 'ts client_record list \<Rightarrow> bool" where
  "batch_ended off = (\<lambda>(batch, rs). sint (base_offset batch) + int (length rs) \<le> sint off)"

text \<open>
  What a client for the log can answer.  When a fetch does not fail, the broker has sent batches
  of the log, from that with the offset on.
\<close>

definition log_behaviours :: "'ts chrono \<Rightarrow> i32 \<Rightarrow> rstring \<Rightarrow>
    (RecordBatch \<times> 'ts client_record list) list \<Rightarrow> 'ts fetch_client set" where
  "log_behaviours C part topic log = {a. \<forall>off bytes wait.
     (\<exists>e. fetch_records a off bytes wait = Err e) \<or>
     (\<exists>response. fetch_records a off bytes wait = fetch_result C part topic off response \<and>
        (\<forall>p. process_fetch_response part topic response off = Ok p \<longrightarrow>
           (\<exists>n. fsp_records p = map fst (take n (dropWhile (batch_ended off) log)))))}"

section \<open>The log is in order\<close>

lemma at_offsets_range:
  assumes "0 \<le> sint b" and "sint b + int (n + length rs) < 2 ^ 63" and "x \<in> set (at_offsets b n rs)"
  shows "sint b + int n \<le> sint (ro_offset x)" "sint (ro_offset x) < sint b + int (n + length rs)"
proof -
  have "\<exists>i. n \<le> i \<and> i < n + length rs \<and> ro_offset x = b + of_nat i"
    using assms(3)
  proof (induction rs arbitrary: n)
    case (Cons r rs)
    then consider "ro_offset x = b + of_nat n" | "x \<in> set (at_offsets b (Suc n) rs)" by auto
    then show ?case
    proof cases
      case 2
      with Cons.IH [of "Suc n"] obtain i where
        "Suc n \<le> i" "i < Suc n + length rs" "ro_offset x = b + of_nat i" by blast
      then show ?thesis by (intro exI [of _ i]) simp
    qed auto
  qed simp
  then obtain i where "n \<le> i" "i < n + length rs" "ro_offset x = b + of_nat i" by blast
  with add_offset(2) [of b i] assms(1,2)
  show "sint b + int n \<le> sint (ro_offset x)" "sint (ro_offset x) < sint b + int (n + length rs)"
    by auto
qed

lemma at_offsets_ordered:
  assumes "0 \<le> sint b" and "sint b + int (n + length rs) < 2 ^ 63"
  shows "ordered_log (at_offsets b n rs)"
  using assms
proof (induction rs arbitrary: n)
  case (Cons r rs)
  then have "ordered_log (at_offsets b (Suc n) rs)" by simp
  moreover have "sint (b + of_nat n) = sint b + int n"
    using Cons.prems by (intro add_offset(2)) auto
  moreover have "\<forall>y \<in> set (at_offsets b (Suc n) rs). sint b + int (Suc n) \<le> sint (ro_offset y)"
    using at_offsets_range(1) [of b "Suc n" rs] Cons.prems by simp
  ultimately show ?case by (fastforce simp: ordered_log_def)
qed (simp add: ordered_log_def)

lemma log_records_simps [simp]:
  "log_records [] = []"
  "log_records (b # log) = batch_records b @ log_records log"
  "log_records (log @ log') = log_records log @ log_records log'"
  by (simp_all add: log_records_def)

lemma log_records_range:
  assumes "stored_log C exact n log" and "0 \<le> n" and "x \<in> set (log_records log)"
  shows "n \<le> sint (ro_offset x) \<and> sint (ro_offset x) < 2 ^ 63 - 1"
  using assms
proof (induction C exact n log rule: stored_log.induct)
  case (2 C exact n batch rs log)
  show ?case
  proof (cases "x \<in> set (batch_records (batch, rs))")
    case True
    with 2 at_offsets_range [of "base_offset batch" 0 rs x] show ?thesis
      by (simp add: batch_records_def)
  next
    case False
    with 2 show ?thesis by fastforce
  qed
qed simp

lemma log_records_ordered:
  "stored_log C exact n log \<Longrightarrow> 0 \<le> n \<Longrightarrow> ordered_log (log_records log)"
proof (induction C exact n log rule: stored_log.induct)
  case (2 C exact n batch rs log)
  let ?stop = "sint (base_offset batch) + int (length rs)"
  have "ordered_log (batch_records (batch, rs))"
    using "2.prems" at_offsets_ordered [of "base_offset batch" 0 rs] by (simp add: batch_records_def)
  moreover have "ordered_log (log_records log)" using 2 by simp
  moreover have "\<forall>x \<in> set (batch_records (batch, rs)). sint (ro_offset x) < ?stop"
    using "2.prems" at_offsets_range(2) [of "base_offset batch" 0 rs] by (simp add: batch_records_def)
  moreover have "\<forall>y \<in> set (log_records log). ?stop \<le> sint (ro_offset y)"
    using "2.prems" log_records_range [of C exact ?stop log] by auto
  ultimately show ?case by (fastforce simp: ordered_append)
qed (simp add: ordered_log_def)

section \<open>What is extracted from the log\<close>

lemma extract_stored_batch:
  assumes C: "chrono_crate C exact" and stored: "stored_batch C exact batch rs"
    and b: "0 \<le> sint (base_offset batch)" "sint (base_offset batch) + int (length rs) < 2 ^ 63"
  shows "extract_batches C req (batch # batches) acc =
    extract_batches C req batches (acc @ from_offset req (batch_records (batch, rs)))"
proof -
  from stored obtain compr b where batch: "produce_batch C rs compr = Ok b"
    "batch = b\<lparr>base_offset := base_offset batch\<rparr>" and rs: "\<forall>r \<in> set rs. sendable_record exact r"
    "length rs < 2 ^ 31"
    by (auto simp: stored_batch_def)
  from batch(1) obtain r rs' where r: "rs = r # rs'"
    "first_timestamp b = timestamp_millis C (r_timestamp r)"
    "records b = Records (map (\<lambda>(i, x). protocol_record C (r_timestamp r) i x) (enumerate 0 rs))"
    by (rule produce_batch_Ok)
  have same: "first_timestamp batch = first_timestamp b" "records batch = records b"
    by (subst batch(2), simp)+
  have "exact (r_timestamp r)" using rs(1) r(1) by (simp add: sendable_record_def)
  with chrono_crate.extract_produced_batch [OF C rs(1), of "r_timestamp r" batch 0 req acc] rs(2) b r(2) same(1)
  have "extract_batch C batch req (map (\<lambda>(i, x). protocol_record C (r_timestamp r) i x) (enumerate 0 rs)) acc =
      Ok (acc @ from_offset req (batch_records (batch, rs)))"
    by (simp add: from_offset_def batch_records_def not_less)
  with same(2) r(3) show ?thesis by simp
qed

lemma from_offset_append [simp]: "from_offset off (xs @ ys) = from_offset off xs @ from_offset off ys"
  by (simp add: from_offset_def)

lemma extract_log:
  assumes "chrono_crate C exact"
  shows "stored_log C exact n log \<Longrightarrow> 0 \<le> n \<Longrightarrow>
    extract_batches C req (map fst log) acc = Ok (acc @ from_offset req (log_records log))"
proof (induction log arbitrary: n acc)
  case Nil
  show ?case by (simp add: from_offset_def)
next
  case (Cons b log)
  obtain batch rs where b: "b = (batch, rs)" by (cases b)
  with Cons.prems extract_stored_batch [OF assms, of batch rs req "map fst log" acc]
  have "extract_batches C req (map fst (b # log)) acc =
      extract_batches C req (map fst log) (acc @ from_offset req (batch_records b))"
    by simp
  also have "\<dots> = Ok (acc @ from_offset req (log_records (b # log)))"
    using Cons.IH [of "sint (base_offset batch) + int (length rs)"] Cons.prems b by simp
  finally show ?case .
qed

lemma stored_log_append:
  "stored_log C exact n (xs @ ys) \<Longrightarrow> stored_log C exact n xs \<and> (\<exists>n' \<ge> n. stored_log C exact n' ys)"
proof (induction xs arbitrary: n)
  case (Cons b xs)
  obtain batch rs where b: "b = (batch, rs)" by (cases b)
  with Cons.prems Cons.IH [of "sint (base_offset batch) + int (length rs)"] obtain n' where
    "stored_log C exact (sint (base_offset batch) + int (length rs)) xs"
    "sint (base_offset batch) + int (length rs) \<le> n'" "stored_log C exact n' ys"
    by auto
  with b Cons.prems show ?case by (auto intro: exI [of _ n'])
qed auto

lemma ended_batches:
  "stored_log C exact n log \<Longrightarrow> 0 \<le> n \<Longrightarrow> \<forall>b \<in> set log. batch_ended off b \<Longrightarrow>
    from_offset off (log_records log) = []"
proof (induction C exact n log rule: stored_log.induct)
  case (2 C exact n batch rs log)
  have "from_offset off (batch_records (batch, rs)) = []"
    using "2.prems" at_offsets_range(2) [of "base_offset batch" 0 rs]
    by (fastforce simp: from_offset_def filter_empty_conv batch_records_def batch_ended_def)
  with 2 show ?case by simp
qed (simp add: from_offset_def)

lemma extract_segment:
  assumes C: "chrono_crate C exact" and log: "stored_log C exact 0 log"
  obtains ys where "extract_records C (map fst (take k (dropWhile (batch_ended off) log))) off = Ok ys"
    "prefix ys (from_offset off (log_records log))"
    "k > 0 \<Longrightarrow> from_offset off (log_records log) \<noteq> [] \<Longrightarrow> ys \<noteq> []"
proof -
  let ?old = "takeWhile (batch_ended off) log" and ?new = "dropWhile (batch_ended off) log"
  obtain n' where old: "stored_log C exact 0 ?old" and new: "0 \<le> n'" "stored_log C exact n' ?new"
    using stored_log_append [of C exact 0 ?old ?new] log by auto
  have "stored_log C exact n' (take k ?new)"
    using stored_log_append [of C exact n' "take k ?new" "drop k ?new"] new(2) by simp
  from extract_log [OF C this new(1), of off "[]"]
  have ex: "extract_records C (map fst (take k ?new)) off = Ok (from_offset off (log_records (take k ?new)))"
    by (simp add: extract_records_def)
  have "from_offset off (log_records ?old) = []"
    using ended_batches [OF old] set_takeWhileD by fastforce
  moreover have "log_records log = log_records ?old @ log_records (take k ?new) @ log_records (drop k ?new)"
    by (metis append_take_drop_id log_records_simps(3) takeWhile_dropWhile_id)
  ultimately have all: "from_offset off (log_records log) =
      from_offset off (log_records (take k ?new)) @ from_offset off (log_records (drop k ?new))"
    by simp
  show thesis
  proof (rule that [OF ex])
    show "prefix (from_offset off (log_records (take k ?new))) (from_offset off (log_records log))"
      using all by simp
    assume k: "k > 0" and ne: "from_offset off (log_records log) \<noteq> []"
    have "from_offset off (log_records (take k [])) @ from_offset off (log_records (drop k [])) = []"
      by (simp add: from_offset_def)
    with ne all have "?new \<noteq> []" by metis
    then obtain batch rs more where b: "?new = (batch, rs) # more" by (cases ?new) auto
    with hd_dropWhile [of "batch_ended off" log] have open': "\<not> batch_ended off (batch, rs)" by simp
    from new b have sb: "stored_batch C exact batch rs" "0 \<le> sint (base_offset batch)"
      "sint (base_offset batch) + int (length rs) < 2 ^ 63" by auto
    have "rs \<noteq> []" using sb(1) by (auto simp: stored_batch_def produce_batch_def)
    then obtain rs' r where rs: "rs = rs' @ [r]" by (cases rs rule: rev_cases) auto
    have "sint (base_offset batch + of_nat (length rs')) = sint (base_offset batch) + int (length rs')"
      using sb(2,3) rs by (intro add_offset(2)) auto
    with open' rs have "\<lparr>ro_record = r, ro_offset = base_offset batch + of_nat (length rs')\<rparr> \<in>
        set (from_offset off (batch_records (batch, rs)))"
      by (auto simp: from_offset_def batch_ended_def batch_records_def at_offsets_def enumerate_append_eq)
    moreover have "take k ?new = (batch, rs) # take (k - 1) more" using b k by (cases k) auto
    ultimately show "from_offset off (log_records (take k ?new)) \<noteq> []" by auto
  qed
qed

text \<open>The contract of the consumer.\<close>

locale stored_partition = chrono_crate C exact
  for C :: "'ts::linorder chrono" and exact :: "'ts \<Rightarrow> bool" +
  fixes log :: "(RecordBatch \<times> 'ts client_record list) list" and part :: i32 and topic :: rstring
  assumes stored: "stored_log C exact 0 log"
begin

lemma fetch_result_log:
  assumes "fetch_result C part topic off response = Ok (rs, w)"
    and "\<And>p. process_fetch_response part topic response off = Ok p \<Longrightarrow>
      \<exists>n. fsp_records p = map fst (take n (dropWhile (batch_ended off) log))"
  shows "prefix rs (from_offset off (log_records log))"
proof -
  from assms(1) obtain p where "process_fetch_response part topic response off = Ok p"
    "extract_records C (fsp_records p) off = Ok rs"
    by (auto simp: fetch_result_def)
  moreover from this(1) assms(2) obtain n where
    "fsp_records p = map fst (take n (dropWhile (batch_ended off) log))" by blast
  moreover obtain ys where "extract_records C (map fst (take n (dropWhile (batch_ended off) log))) off = Ok ys"
    "prefix ys (from_offset off (log_records log))"
    using extract_segment [OF chrono_crate_axioms stored] by blast
  ultimately show ?thesis by simp
qed

end

sublocale stored_partition \<subseteq> partition_log "log_records log" "log_behaviours C part topic log"
proof
  show "ordered_log (log_records log)" using log_records_ordered [OF stored] by simp
  show "sint (ro_offset x) < 2 ^ 63 - 1" if "x \<in> set (log_records log)" for x
    using log_records_range [OF stored _ that] by simp
  fix a off bytes wait rs w
  assume "a \<in> log_behaviours C part topic log" and ok: "fetch_records a off bytes wait = Ok (rs, w)"
  then obtain response where "fetch_result C part topic off response = Ok (rs, w)"
    "\<And>p. process_fetch_response part topic response off = Ok p \<Longrightarrow>
      \<exists>n. fsp_records p = map fst (take n (dropWhile (batch_ended off) log))"
    unfolding log_behaviours_def mem_Collect_eq by (metis outcome.distinct(1))
  from fetch_result_log [OF this] show "\<exists>ys. prefix ys (from_offset off (log_records log)) \<and> mset rs = mset ys"
    by blast
qed

context stored_partition
begin

lemma is_partition_log: "partition_log (log_records log) (log_behaviours C part topic log)"
  by (rule partition_log_axioms)

end

lemma log_partition_log:
  assumes "chrono_crate C exact" and "stored_log C exact 0 log" and "A \<subseteq> log_behaviours C part topic log"
  shows "partition_log (log_records log) A"
proof -
  have "stored_partition C exact log"
    using assms(1,2) by (simp add: stored_partition_def stored_partition_axioms_def)
  from partition_log_mono [OF stored_partition.is_partition_log [OF this] assms(3)] show ?thesis .
qed

section \<open>A log of two batches\<close>

definition sample_client_record :: "int client_record" where
  "sample_client_record = \<lparr>r_key = None, r_value = Some [104, 105], r_headers = [], r_timestamp = 0\<rparr>"

definition sample_stored :: "i64 \<Rightarrow> int client_record list \<Rightarrow> RecordBatch \<times> int client_record list" where
  "sample_stored b rs =
     (case produce_batch utc rs CGzip of Ok batch \<Rightarrow> (batch\<lparr>base_offset := b\<rparr>, rs))"

definition sample_log :: "(RecordBatch \<times> int client_record list) list" where
  "sample_log = [sample_stored 7 [sample_client_record],
     sample_stored 8 [sample_client_record, sample_client_record]]"

text \<open>A client that gets one batch with each fetch.\<close>

definition sample_fetch_response :: "i64 \<Rightarrow> FetchResponse" where
  "sample_fetch_response off = \<lparr>fsr_throttle_time_ms = None,
     fsr_responses = [\<lparr>fst_topic = rstring_empty,
       fst_partitions = [\<lparr>fsp_partition_index = 3, fsp_error_code = None, fsp_high_watermark = 10,
         fsp_last_stable_offset = None, fsp_aborted_transactions = [],
         fsp_records = map fst (take 1 (dropWhile (batch_ended off) sample_log))\<rparr>]\<rparr>]\<rparr>"

definition sample_fetch_client :: "int fetch_client" where
  "sample_fetch_client = \<lparr>fetch_records = (\<lambda>off bytes wait.
       fetch_result utc 3 rstring_empty off (sample_fetch_response off)),
     get_offset = (\<lambda>at. Ok 7)\<rparr>"

lemma sample_sendable: "sendable_record utc_exact sample_client_record"
  by (simp add: sendable_record_def sample_client_record_def utc_exact_def utc_limit_def btree_inv_def)

lemma sample_produced:
  "rs = [sample_client_record] \<or> rs = [sample_client_record, sample_client_record] \<Longrightarrow>
    \<exists>batch. produce_batch utc rs CGzip = Ok batch"
  by (auto simp: produce_batch_def sub_panic_def Let_def)

lemma stored_sample:
  assumes "rs = [sample_client_record] \<or> rs = [sample_client_record, sample_client_record]"
  shows "stored_batch utc utc_exact (fst (sample_stored b rs)) rs"
    "snd (sample_stored b rs) = rs" "base_offset (fst (sample_stored b rs)) = b"
proof -
  obtain batch where "produce_batch utc rs CGzip = Ok batch" using sample_produced [OF assms] by blast
  then show "snd (sample_stored b rs) = rs" "base_offset (fst (sample_stored b rs)) = b"
    "stored_batch utc utc_exact (fst (sample_stored b rs)) rs"
    using assms sample_sendable by (auto simp: sample_stored_def stored_batch_def)
qed

lemma sample_log_stored: "stored_log utc utc_exact 0 sample_log"
proof -
  have b: "sample_stored b rs = (fst (sample_stored b rs), rs)"
    if "rs = [sample_client_record] \<or> rs = [sample_client_record, sample_client_record]" for b rs
    using stored_sample(2) [OF that, of b] by (metis prod.collapse)
  show ?thesis
    unfolding sample_log_def by (subst b, simp, subst b, simp) (simp add: stored_sample)
qed

interpretation sample: stored_partition utc utc_exact sample_log 3 rstring_empty
  by unfold_locales (rule sample_log_stored)

lemma sample_client_behaves: "sample_fetch_client \<in> log_behaviours utc 3 rstring_empty sample_log"
proof -
  have "\<exists>n. fsp_records p = map fst (take n (dropWhile (batch_ended off) sample_log))"
    if "process_fetch_response 3 rstring_empty (sample_fetch_response off) off = Ok p" for off p
    using that by (auto simp: process_fetch_response_def sample_fetch_response_def intro!: exI [of _ 1])
  then show ?thesis
    unfolding log_behaviours_def sample_fetch_client_def by (auto intro!: exI [of _ "sample_fetch_response off" for off])
qed

lemma sample_client_answers: "answering (log_records sample_log) {sample_fetch_client}"
proof -
  have "\<exists>rs w. fetch_result utc 3 rstring_empty off (sample_fetch_response off) = Ok (rs, w) \<and>
      (from_offset off (log_records sample_log) \<noteq> [] \<longrightarrow> rs \<noteq> [])" for off
  proof -
    obtain ys where "extract_records utc (map fst (take 1 (dropWhile (batch_ended off) sample_log))) off = Ok ys"
      "from_offset off (log_records sample_log) \<noteq> [] \<Longrightarrow> ys \<noteq> []"
      using extract_segment [OF utc.chrono_crate_axioms sample_log_stored, of 1 off] by auto
    then show ?thesis
      by (auto simp: fetch_result_def process_fetch_response_def sample_fetch_response_def)
  qed
  then show ?thesis by (simp add: answering_def sample_fetch_client_def)
qed

lemma sample_log_records: "log_records sample_log =
    map (\<lambda>off. \<lparr>ro_record = sample_client_record, ro_offset = off\<rparr>) [7, 8, 9]"
proof -
  have "batch_records (sample_stored b rs) = at_offsets b 0 rs"
    if "rs = [sample_client_record] \<or> rs = [sample_client_record, sample_client_record]" for b rs
    using stored_sample(2,3) [OF that, of b] by (simp add: batch_records_def split_def)
  then show ?thesis by (simp add: sample_log_def)
qed

end
