(* ===== verification/Aggregator.thy ===== *)
theory Aggregator
  imports Client_Record
begin

text \<open>
  \<open>src/src/client/producer/aggregator.rs\<close> and \<open>src/src/client/producer/broadcast.rs\<close>: what the
  producer is built from.

  The traits \<open>Aggregator\<close> and \<open>StatusDeaggregator\<close>, which users implement, are a record of their
  functions on the state of the aggregator; the locale \<open>aggregator_contract\<close> states what the
  producer relies on, and \<open>RecordAggregator\<close> is shown to keep it.
\<close>

section \<open>Aggregators\<close>

datatype ('i, 't) TryPush = NoCapacity 'i | Aggregated 't

fun unwrap_input :: "('i, 't) TryPush \<Rightarrow> ('e, 'i) outcome" where
  "unwrap_input (NoCapacity i) = Ok i"
| "unwrap_input (Aggregated _) = Panic ExpectFailed"

fun unwrap_tag :: "('i, 't) TryPush \<Rightarrow> ('e, 't) outcome" where
  "unwrap_tag (NoCapacity _) = Panic ExpectFailed"
| "unwrap_tag (Aggregated t) = Ok t"

text \<open>
  \<open>'g\<close> is the state of the aggregator, \<open>'i\<close> its input, \<open>'t\<close> the tags, \<open>'r\<close> the records, \<open>'d\<close> the
  deaggregator, \<open>'s\<close> the status.  The errors of aggregators are of a type of their own, here
  texts.
\<close>

record ('g, 'i, 't, 'r, 'd, 's) aggregator =
  ag_try_push :: "'g \<Rightarrow> 'i \<Rightarrow> (string, ('i, 't) TryPush) outcome \<times> 'g"
  ag_flush :: "'g \<Rightarrow> (string, 'r list \<times> 'd) outcome \<times> 'g"
  ag_deaggregate :: "'d \<Rightarrow> i64 list \<Rightarrow> 't \<Rightarrow> (string, 's) outcome"

record 'ts RecordAggregator =
  ra_max_batch_size :: usize
  ra_batch_size :: usize
  ra_records :: "'ts client_record list"

definition RecordAggregator_new :: "usize \<Rightarrow> 'ts RecordAggregator" where
  "RecordAggregator_new max_batch_size =
     \<lparr>ra_max_batch_size = max_batch_size, ra_batch_size = 0, ra_records = []\<rparr>"

definition ra_try_push :: "'ts RecordAggregator \<Rightarrow> 'ts client_record \<Rightarrow>
    (string, ('ts client_record, usize) TryPush) outcome \<times> 'ts RecordAggregator" where
  "ra_try_push g r =
     (let record_size = approximate_size r in
      if ra_batch_size g + record_size > ra_max_batch_size g then (Ok (NoCapacity r), g)
      else
        (Ok (Aggregated (length (ra_records g))),
         g\<lparr>ra_batch_size := ra_batch_size g + record_size, ra_records := ra_records g @ [r]\<rparr>))"

definition ra_flush :: "'ts RecordAggregator \<Rightarrow>
    (string, 'ts client_record list \<times> unit) outcome \<times> 'ts RecordAggregator" where
  "ra_flush g = (Ok (ra_records g, ()), g\<lparr>ra_batch_size := 0, ra_records := []\<rparr>)"

text \<open>\<open>input[tag]\<close>.\<close>

definition ra_deaggregate :: "unit \<Rightarrow> i64 list \<Rightarrow> usize \<Rightarrow> (string, i64) outcome" where
  "ra_deaggregate d input tag =
     (if tag < length input then Ok (input ! tag) else Panic IndexOutOfBounds)"

definition record_aggregator ::
    "('ts RecordAggregator, 'ts client_record, usize, 'ts client_record, unit, i64) aggregator" where
  "record_aggregator = \<lparr>ag_try_push = ra_try_push, ag_flush = ra_flush, ag_deaggregate = ra_deaggregate\<rparr>"

section \<open>The contract of aggregators\<close>

text \<open>
  \<open>contents\<close> is what the aggregator holds, with the tags it gave for it, \<open>wf\<close> its invariant.
  \<open>belongs x rs offs s\<close> says that \<open>s\<close> is a right status for the input \<open>x\<close>, when the records \<open>rs\<close>
  were written at the offsets \<open>offs\<close>.  A flush leaves no records out: if there are none, nothing
  was pushed.
\<close>

locale aggregator_contract =
  fixes ag :: "('g, 'i, 't, 'r, 'd, 's) aggregator"
    and wf :: "'g \<Rightarrow> bool"
    and contents :: "'g \<Rightarrow> ('i \<times> 't) list"
    and belongs :: "'i \<Rightarrow> 'r list \<Rightarrow> i64 list \<Rightarrow> 's \<Rightarrow> bool"
    and flushed :: "('i \<times> 't) list \<Rightarrow> 'r list \<Rightarrow> 'd \<Rightarrow> bool"
  assumes push_cases: "wf g \<Longrightarrow>
      ag_try_push ag g x = (Ok (NoCapacity x), g) \<or>
      (\<exists>t g'. ag_try_push ag g x = (Ok (Aggregated t), g') \<and> wf g' \<and>
         contents g' = contents g @ [(x, t)])"
    and flush_cases: "wf g \<Longrightarrow> \<exists>rs d g'. ag_flush ag g = (Ok (rs, d), g') \<and> wf g' \<and>
      contents g' = [] \<and> flushed (contents g) rs d"
    and flush_empty: "flushed c [] d \<Longrightarrow> c = []"
    and deaggregate: "flushed c rs d \<Longrightarrow> (x, t) \<in> set c \<Longrightarrow> length offs = length rs \<Longrightarrow>
      \<exists>s. ag_deaggregate ag d offs t = Ok s \<and> belongs x rs offs s"

text \<open>
  The stronger contract of an aggregator that makes the records of its inputs, and keeps its
  batches within limits.
\<close>

locale faithful_aggregator = aggregator_contract ag wf contents belongs flushed
  for ag :: "('g, 'i, 't, 'r, 'd, 's) aggregator" and wf contents belongs flushed +
  fixes inputs_of :: "'r \<Rightarrow> 'i list" and fits :: "'r list \<Rightarrow> bool"
  assumes flushed_inputs: "flushed c rs d \<Longrightarrow> concat (map inputs_of rs) = map fst c"
    and flushed_fits: "wf g \<Longrightarrow> flushed (contents g) rs d \<Longrightarrow> fits rs"

definition batch_fits :: "usize \<Rightarrow> 'ts client_record list \<Rightarrow> bool" where
  "batch_fits limit rs \<longleftrightarrow> sum_list (map approximate_size rs) \<le> limit"

definition ra_inv :: "usize \<Rightarrow> 'ts RecordAggregator \<Rightarrow> bool" where
  "ra_inv limit g \<longleftrightarrow> ra_max_batch_size g = limit \<and> ra_batch_size g = sum_list (map approximate_size (ra_records g)) \<and>
     ra_batch_size g \<le> ra_max_batch_size g"

definition ra_contents :: "'ts RecordAggregator \<Rightarrow> ('ts client_record \<times> usize) list" where
  "ra_contents g = zip (ra_records g) [0..<length (ra_records g)]"

definition own_offset :: "'r \<Rightarrow> 'r list \<Rightarrow> i64 list \<Rightarrow> i64 \<Rightarrow> bool" where
  "own_offset x rs offs off \<longleftrightarrow> (\<exists>k < length rs. rs ! k = x \<and> offs ! k = off)"

definition ra_flushed :: "('r \<times> usize) list \<Rightarrow> 'r list \<Rightarrow> unit \<Rightarrow> bool" where
  "ra_flushed c rs d \<longleftrightarrow> c = zip rs [0..<length rs]"

interpretation ra: faithful_aggregator record_aggregator "ra_inv limit" ra_contents own_offset ra_flushed
  "\<lambda>r. [r]" "batch_fits limit"
proof
  fix g :: "'a RecordAggregator" and x
  assume inv: "ra_inv limit g"
  show "ag_try_push record_aggregator g x = (Ok (NoCapacity x), g) \<or>
      (\<exists>t g'. ag_try_push record_aggregator g x = (Ok (Aggregated t), g') \<and> ra_inv limit g' \<and>
         ra_contents g' = ra_contents g @ [(x, t)])"
    using inv by (cases "ra_batch_size g + approximate_size x > ra_max_batch_size g")
      (auto simp: record_aggregator_def ra_try_push_def ra_inv_def ra_contents_def)
  show "\<exists>rs d g'. ag_flush record_aggregator g = (Ok (rs, d), g') \<and> ra_inv limit g' \<and>
      ra_contents g' = [] \<and> ra_flushed (ra_contents g) rs d"
    using inv by (simp add: record_aggregator_def ra_flush_def ra_inv_def ra_contents_def ra_flushed_def)
  show "batch_fits limit rs" if "ra_flushed (ra_contents g) rs d" for rs d
  proof -
    from that have "map fst (zip (ra_records g) [0..<length (ra_records g)]) = map fst (zip rs [0..<length rs])"
      by (simp add: ra_flushed_def ra_contents_def)
    with inv show ?thesis by (simp add: batch_fits_def ra_inv_def)
  qed
next
  fix c :: "('a client_record \<times> usize) list" and d rs x t and offs :: "i64 list"
  show "ra_flushed c [] d \<Longrightarrow> c = []" by (simp add: ra_flushed_def)
  show "concat (map (\<lambda>r. [r]) rs) = map fst c" if "ra_flushed c rs d"
    using that by (simp add: ra_flushed_def)
  assume c: "ra_flushed c rs d" "(x, t) \<in> set c" "length offs = length rs"
  then have "t < length rs" "rs ! t = x" by (auto simp: ra_flushed_def set_zip)
  with c(3) show "\<exists>s. ag_deaggregate record_aggregator d offs t = Ok s \<and> own_offset x rs offs s"
    by (auto simp: record_aggregator_def ra_deaggregate_def own_offset_def)
qed

section \<open>Broadcasting one value\<close>

text \<open>
  \<open>sh_notified\<close> counts the calls of \<open>notify_waiters\<close>: a future that was made by \<open>notified\<close>
  completes with the first call after it was made.
\<close>

datatype BroadcastError = Dropped

record 'v shared =
  sh_data :: "(BroadcastError + 'v) option"
  sh_notified :: nat

definition broadcast_default :: "'v shared" where
  "broadcast_default = \<lparr>sh_data = None, sh_notified = 0\<rparr>"

definition broadcast_drop :: "'v shared \<Rightarrow> 'v shared" where
  "broadcast_drop sh =
     (if sh_data sh = None then sh\<lparr>sh_data := Some (Inl Dropped), sh_notified := sh_notified sh + 1\<rparr>
      else sh)"

text \<open>\<open>broadcast\<close> takes the sender, which is dropped at its end.\<close>

definition broadcast :: "'v \<Rightarrow> 'v shared \<Rightarrow> ('e, 'v shared) outcome" where
  "broadcast r sh =
     (if sh_data sh \<noteq> None then Panic AssertFailed
      else Ok (broadcast_drop (sh\<lparr>sh_data := Some (Inr r), sh_notified := sh_notified sh + 1\<rparr>)))"

definition peek :: "'v shared \<Rightarrow> (BroadcastError + 'v) option" where
  "peek sh = sh_data sh"

text \<open>
  \<open>receive\<close>: up to the point where it waits, and its end, for the number of notifications it
  saw at its start.
\<close>

definition receive_start :: "'v shared \<Rightarrow> nat \<times> (BroadcastError + 'v) option" where
  "receive_start sh = (sh_notified sh, peek sh)"

definition receive_poll :: "nat \<Rightarrow> 'v shared \<Rightarrow> ('e, BroadcastError + 'v) outcome option" where
  "receive_poll n sh =
     (if sh_notified sh = n then None
      else Some (case peek sh of Some v \<Rightarrow> Ok v | None \<Rightarrow> Panic ExpectFailed))"

text \<open>
  What happens to a channel: nothing, one value, or the sender is dropped.  A receiver that
  waits is woken exactly when there is a value, and gets it.
\<close>

definition shared_inv :: "'v shared \<Rightarrow> bool" where
  "shared_inv sh \<longleftrightarrow> sh_notified sh = (if sh_data sh = None then 0 else 1)"

lemma shared_inv_default: "shared_inv broadcast_default"
  by (simp add: shared_inv_def broadcast_default_def)

lemma shared_inv_drop: "shared_inv sh \<Longrightarrow> shared_inv (broadcast_drop sh)"
  by (simp add: shared_inv_def broadcast_drop_def)

lemma shared_inv_broadcast: "shared_inv sh \<Longrightarrow> broadcast r sh = Ok sh' \<Longrightarrow> shared_inv sh'"
  by (auto simp: shared_inv_def broadcast_def broadcast_drop_def split: if_splits)

lemma receive_wakes:
  assumes "shared_inv sh" and "receive_start sh = (n, None)" and "shared_inv sh'"
  shows "receive_poll n sh' = map_option Ok (sh_data sh')"
  using assms by (auto simp: shared_inv_def receive_start_def receive_poll_def peek_def
      split: if_splits option.splits)

end
