(* ===== verification/Producer.thy ===== *)
theory Producer
  imports Aggregator Partition
begin

text \<open>
  \<open>src/src/client/producer.rs\<close> and \<open>src/src/client/producer/batch.rs\<close>: callers push their data
  into a common batch, and tasks in the background write the batches and broadcast the results.

  The channels and the tasks that were spawned are the lists of a \<open>runtime\<close>, an index stands for
  an \<open>Arc\<close> or a \<open>JoinHandle\<close>.  The functions under the lock are functions of the state under the
  lock and the runtime; callers, timers and tasks, which run between them in any order, are the
  steps of \<open>pstep\<close>.

  What is proved for any aggregator that keeps its contract: nothing panics, each caller gets
  the status of its own input, none waits in vain, and what the callers have pushed is written
  as it came, each input once.
\<close>

section \<open>Batches\<close>

datatype producer_error =
    AggregatorFailed string
  | ClientFailed client_error
  | FlushFailed BroadcastError
  | TooLarge

record 'd AggregatedStatus =
  aggregated_status :: "i64 list"
  status_deagg :: 'd

type_synonym 'd BatchWriteResult = "producer_error + 'd AggregatedStatus"

text \<open>The state of a task, with the answer of the client when it has ended.\<close>

datatype task_state = Running | Answered "client_error + i64 list" | Crashed | Aborted

record ('r, 'd) flush_task =
  ft_batch :: "'r list"
  ft_compression :: Compression
  ft_deagg :: 'd
  ft_channel :: nat
  ft_state :: task_state

record ('r, 'd) runtime =
  rt_channels :: "'d BatchWriteResult shared list"
  rt_tasks :: "('r, 'd) flush_task list"

record 't ResultHandle =
  h_receiver :: nat
  h_tag :: 't

record 'g BatchBuilder =
  bb_aggregator :: 'g
  bb_results :: nat

definition bb_new :: "'g \<Rightarrow> ('r, 'd) runtime \<Rightarrow> 'g BatchBuilder \<times> ('r, 'd) runtime" where
  "bb_new g rt =
     (\<lparr>bb_aggregator = g, bb_results = length (rt_channels rt)\<rparr>,
      rt\<lparr>rt_channels := rt_channels rt @ [broadcast_default]\<rparr>)"

text \<open>\<open>ResultHandle::result\<close>.\<close>

definition handle_result :: "('g, 'i, 't, 'r, 'd, 's) aggregator \<Rightarrow> 't ResultHandle \<Rightarrow>
    'd BatchWriteResult \<Rightarrow> (producer_error, 's) outcome" where
  "handle_result ag h status =
     (case status of
        Inl e \<Rightarrow> Err e
      | Inr st \<Rightarrow>
          map_err AggregatorFailed (ag_deaggregate ag (status_deagg st) (aggregated_status st) (h_tag h)))"

text \<open>\<open>ResultHandle::wait\<close> and then \<open>result\<close>, for what was received.\<close>

definition handle_received :: "('g, 'i, 't, 'r, 'd, 's) aggregator \<Rightarrow> 't ResultHandle \<Rightarrow>
    BroadcastError + 'd BatchWriteResult \<Rightarrow> (producer_error, 's) outcome" where
  "handle_received ag h v =
     (case v of Inl e \<Rightarrow> Err (FlushFailed e) | Inr status \<Rightarrow> handle_result ag h status)"

definition bb_try_push :: "('g, 'i, 't, 'r, 'd, 's) aggregator \<Rightarrow> 'i \<Rightarrow> 'g BatchBuilder \<Rightarrow>
    (producer_error, ('i, 't ResultHandle) TryPush) outcome \<times> 'g BatchBuilder" where
  "bb_try_push ag data b =
     (case ag_try_push ag (bb_aggregator b) data of
        (r, g) \<Rightarrow>
          (bind_o (map_err AggregatorFailed r) (\<lambda>p. case p of
             NoCapacity data \<Rightarrow> Ok (NoCapacity data)
           | Aggregated tag \<Rightarrow> Ok (Aggregated \<lparr>h_receiver = bb_results b, h_tag = tag\<rparr>)),
           b\<lparr>bb_aggregator := g\<rparr>))"

datatype 'b FlushResult = FlushOk 'b "nat option" | FlushError 'b producer_error

text \<open>Sending the result of a batch, and dropping its sender.\<close>

definition rt_broadcast :: "nat \<Rightarrow> 'd BatchWriteResult \<Rightarrow> ('r, 'd) runtime \<Rightarrow>
    ('e, ('r, 'd) runtime) outcome" where
  "rt_broadcast ch v rt =
     bind_o (broadcast v (rt_channels rt ! ch)) (\<lambda>sh.
     Ok (rt\<lparr>rt_channels := (rt_channels rt)[ch := sh]\<rparr>))"

definition rt_drop :: "nat \<Rightarrow> ('r, 'd) runtime \<Rightarrow> ('r, 'd) runtime" where
  "rt_drop ch rt = rt\<lparr>rt_channels := (rt_channels rt)[ch := broadcast_drop (rt_channels rt ! ch)]\<rparr>"

definition background_flush :: "('g, 'i, 't, 'r, 'd, 's) aggregator \<Rightarrow> Compression \<Rightarrow>
    'g BatchBuilder \<Rightarrow> ('r, 'd) runtime \<Rightarrow>
    (producer_error, 'g BatchBuilder FlushResult \<times> ('r, 'd) runtime) outcome" where
  "background_flush ag compr b rt =
     (case ag_flush ag (bb_aggregator b) of
        (Panic p, g) \<Rightarrow> Panic p
      | (Err e, g) \<Rightarrow>
          let (b', rt1) = bb_new g rt
          in Ok (FlushError b' (AggregatorFailed e), rt_drop (bb_results b) rt1)
      | (Ok (batch, deagg), g) \<Rightarrow>
          if batch = [] then
            bind_o (rt_broadcast (bb_results b)
              (Inr \<lparr>aggregated_status = [], status_deagg = deagg\<rparr>) rt) (\<lambda>rt1.
            let (b', rt2) = bb_new g rt1 in Ok (FlushOk b' None, rt2))
          else
            let rt1 = rt\<lparr>rt_tasks := rt_tasks rt @ [\<lparr>ft_batch = batch, ft_compression = compr,
                  ft_deagg = deagg, ft_channel = bb_results b, ft_state = Running\<rparr>]\<rparr>;
                (b', rt2) = bb_new g rt1
            in Ok (FlushOk b' (Some (length (rt_tasks rt))), rt2))"

text \<open>The end of a task, for the answer of the client.\<close>

definition write_result :: "'d \<Rightarrow> client_error + i64 list \<Rightarrow> 'd BatchWriteResult" where
  "write_result deagg a =
     (case a of
        Inr status \<Rightarrow> Inr \<lparr>aggregated_status = status, status_deagg = deagg\<rparr>
      | Inl e \<Rightarrow> Inl (ClientFailed e))"

definition end_task :: "nat \<Rightarrow> task_state \<Rightarrow> ('r, 'd) runtime \<Rightarrow> ('r, 'd) runtime" where
  "end_task k st rt = rt\<lparr>rt_tasks := (rt_tasks rt)[k := (rt_tasks rt ! k)\<lparr>ft_state := st\<rparr>]\<rparr>"

definition task_answered :: "nat \<Rightarrow> client_error + i64 list \<Rightarrow> ('r, 'd) runtime \<Rightarrow>
    (producer_error, ('r, 'd) runtime) outcome" where
  "task_answered k a rt =
     (let t = rt_tasks rt ! k in
      rt_broadcast (ft_channel t) (write_result (ft_deagg t) a) (end_task k (Answered a) rt))"

text \<open>A task that panics or is aborted drops the sender.\<close>

definition task_dropped :: "nat \<Rightarrow> task_state \<Rightarrow> ('r, 'd) runtime \<Rightarrow> ('r, 'd) runtime" where
  "task_dropped k st rt = rt_drop (ft_channel (rt_tasks rt ! k)) (end_task k st rt)"

definition is_finished :: "('r, 'd) runtime \<Rightarrow> nat \<Rightarrow> bool" where
  "is_finished rt k \<longleftrightarrow> ft_state (rt_tasks rt ! k) \<noteq> Running"

section \<open>The state under the lock\<close>

record 'g ProducerInner =
  pi_batch_builder :: "'g BatchBuilder option"
  pi_flush_clock :: u64
  pi_has_linger_waiter :: bool
  pi_compression :: Compression
  pi_pending_flushes :: "nat list"

definition ProducerInner_new :: "'g \<Rightarrow> Compression \<Rightarrow> ('r, 'd) runtime \<Rightarrow>
    'g ProducerInner \<times> ('r, 'd) runtime" where
  "ProducerInner_new g compr rt =
     (let (b, rt1) = bb_new g rt
      in (\<lparr>pi_batch_builder = Some b, pi_flush_clock = 0, pi_has_linger_waiter = False,
           pi_compression = compr, pi_pending_flushes = []\<rparr>, rt1))"

text \<open>The part of \<open>flush\<close> behind the match on \<open>background_flush\<close>.\<close>

definition next_batch :: "'g BatchBuilder \<Rightarrow> nat option \<Rightarrow> ('r, 'd) runtime \<Rightarrow> 'g ProducerInner \<Rightarrow>
    'g ProducerInner" where
  "next_batch b flush_task rt i =
     i\<lparr>pi_batch_builder := Some b,
       pi_pending_flushes := filter (\<lambda>k. \<not> is_finished rt k) (pi_pending_flushes i) @
         (case flush_task of Some k \<Rightarrow> [k] | None \<Rightarrow> []),
       pi_flush_clock := pi_flush_clock i + 1, pi_has_linger_waiter := False\<rparr>"

definition inner_flush :: "('g, 'i, 't, 'r, 'd, 's) aggregator \<Rightarrow> u64 option \<Rightarrow>
    'g ProducerInner \<times> ('r, 'd) runtime \<Rightarrow>
    (producer_error, unit) outcome \<times> 'g ProducerInner \<times> ('r, 'd) runtime" where
  "inner_flush ag flusher_token s =
     (case s of (i, rt) \<Rightarrow>
       if (\<exists>token. flusher_token = Some token \<and> token \<noteq> pi_flush_clock i) then (Ok (), i, rt)
       else case pi_batch_builder i of
         None \<Rightarrow> (Panic ExpectFailed, i, rt)
       | Some b \<Rightarrow>
           (case background_flush ag (pi_compression i) b rt of
              Ok (FlushOk b' flush_task, rt') \<Rightarrow> (Ok (), next_batch b' flush_task rt' i, rt')
            | Ok (FlushError b' e, rt') \<Rightarrow> (Err e, next_batch b' None rt' i, rt')
            | Err e \<Rightarrow> (Err e, i\<lparr>pi_batch_builder := None\<rparr>, rt)
            | Panic p \<Rightarrow> (Panic p, i\<lparr>pi_batch_builder := None\<rparr>, rt_drop (bb_results b) rt)))"

datatype 't CallerRole = JustWait "'t ResultHandle" | Linger "'t ResultHandle" u64

text \<open>The end of \<open>try_push\<close>, when the batch has taken the data.\<close>

definition caller_role :: "'t ResultHandle \<Rightarrow> 'g ProducerInner \<Rightarrow> 't CallerRole \<times> 'g ProducerInner" where
  "caller_role handle i =
     (if pi_has_linger_waiter i then (JustWait handle, i)
      else (Linger handle (pi_flush_clock i), i\<lparr>pi_has_linger_waiter := True\<rparr>))"

definition inner_push :: "('g, 'i, 't, 'r, 'd, 's) aggregator \<Rightarrow> 'i \<Rightarrow> 'g ProducerInner \<Rightarrow>
    (producer_error, ('i, 't ResultHandle) TryPush) outcome \<times> 'g ProducerInner" where
  "inner_push ag data i =
     (case pi_batch_builder i of
        None \<Rightarrow> (Panic ExpectFailed, i)
      | Some b \<Rightarrow> (case bb_try_push ag data b of (r, b') \<Rightarrow> (r, i\<lparr>pi_batch_builder := Some b'\<rparr>)))"

definition inner_try_push :: "('g, 'i, 't, 'r, 'd, 's) aggregator \<Rightarrow> 'i \<Rightarrow>
    'g ProducerInner \<times> ('r, 'd) runtime \<Rightarrow>
    (producer_error, 't CallerRole) outcome \<times> 'g ProducerInner \<times> ('r, 'd) runtime" where
  "inner_try_push ag data s =
     (case s of (i, rt) \<Rightarrow>
       (case inner_push ag data i of
          (Ok (Aggregated handle), i1) \<Rightarrow>
            (case caller_role handle i1 of (role, i2) \<Rightarrow> (Ok role, i2, rt))
        | (Ok (NoCapacity data), i1) \<Rightarrow>
            (case inner_flush ag None (i1, rt) of
               (Ok _, i2, rt2) \<Rightarrow>
                 (case inner_push ag data i2 of
                    (Ok (Aggregated handle), i3) \<Rightarrow>
                      (case caller_role handle i3 of (role, i4) \<Rightarrow> (Ok role, i4, rt2))
                  | (Ok (NoCapacity _), i3) \<Rightarrow> (Err TooLarge, i3, rt2)
                  | (Err e, i3) \<Rightarrow> (Err e, i3, rt2)
                  | (Panic p, i3) \<Rightarrow> (Panic p, i3, rt2))
             | (Err e, i2, rt2) \<Rightarrow> (Err e, i2, rt2)
             | (Panic p, i2, rt2) \<Rightarrow> (Panic p, i2, rt2))
        | (Err e, i1) \<Rightarrow> (Err e, i1, rt)
        | (Panic p, i1) \<Rightarrow> (Panic p, i1, rt)))"

end
