(* ===== verification/Producer_Steps.thy ===== *)
theory Producer_Steps
  imports Producer
begin

text \<open>
  The concurrent producer: callers of \<open>BatchProducer::produce\<close> and \<open>BatchProducer::flush\<close>, the
  linger timers and the tasks that write the batches, as a step relation on a \<open>pworld\<close>.  Each
  step is what happens between two points where the code waits.

  A step \<open>received\<close> is the end of \<open>ResultHandle::wait\<close>; that a receiver is woken exactly when
  there is a value is \<open>receive_wakes\<close> of theory \<open>Aggregator\<close>.
\<close>

section \<open>The world of a producer\<close>

datatype linger_state = NoLinger | LingerRunning u64 | LingerDone "producer_error option" | LingerPanicked

datatype ('t, 's) caller_state =
    Waiting "'t ResultHandle"
  | Returned "(producer_error, 's) outcome"
  | Cancelled

record ('i, 't, 's) caller =
  pc_input :: 'i
  pc_state :: "('t, 's) caller_state"
  pc_linger :: linger_state

datatype flush_state = FlushWaiting "nat list" | FlushReturned "(producer_error, unit) outcome"

text \<open>\<open>pw_pushed\<close> is history: the inputs that batches have taken, in order.\<close>

record ('g, 'i, 't, 'r, 'd, 's) pworld =
  pw_inner :: "'g ProducerInner"
  pw_runtime :: "('r, 'd) runtime"
  pw_callers :: "nat \<Rightarrow> ('i, 't, 's) caller option"
  pw_flushes :: "nat \<Rightarrow> flush_state option"
  pw_dropped :: bool
  pw_pushed :: "'i list"

definition producer_start :: "'g \<Rightarrow> Compression \<Rightarrow> ('g, 'i, 't, 'r, 'd, 's) pworld" where
  "producer_start g compr =
     (let (i, rt) = ProducerInner_new g compr \<lparr>rt_channels = [], rt_tasks = []\<rparr>
      in \<lparr>pw_inner = i, pw_runtime = rt, pw_callers = Map.empty, pw_flushes = Map.empty,
          pw_dropped = False, pw_pushed = []\<rparr>)"

definition set_locked :: "'g ProducerInner \<Rightarrow> ('r, 'd) runtime \<Rightarrow>
    ('g, 'i, 't, 'r, 'd, 's) pworld \<Rightarrow> ('g, 'i, 't, 'r, 'd, 's) pworld" where
  "set_locked i rt w = w\<lparr>pw_inner := i, pw_runtime := rt\<rparr>"

definition set_caller :: "nat \<Rightarrow> ('i, 't, 's) caller \<Rightarrow>
    ('g, 'i, 't, 'r, 'd, 's) pworld \<Rightarrow> ('g, 'i, 't, 'r, 'd, 's) pworld" where
  "set_caller n c w = w\<lparr>pw_callers := (pw_callers w)(n \<mapsto> c)\<rparr>"

text \<open>\<open>BatchProducer::produce\<close> up to the point where it waits.\<close>

definition produce_call :: "('g, 'i, 't, 'r, 'd, 's) aggregator \<Rightarrow> nat \<Rightarrow> 'i \<Rightarrow>
    ('g, 'i, 't, 'r, 'd, 's) pworld \<Rightarrow> ('g, 'i, 't, 'r, 'd, 's) pworld" where
  "produce_call ag n data w =
     (case inner_try_push ag data (pw_inner w, pw_runtime w) of
        (r, i, rt) \<Rightarrow>
          (case r of
             Ok (JustWait h) \<Rightarrow>
               (set_caller n \<lparr>pc_input = data, pc_state = Waiting h, pc_linger = NoLinger\<rparr>
                 (set_locked i rt w))\<lparr>pw_pushed := pw_pushed w @ [data]\<rparr>
           | Ok (Linger h token) \<Rightarrow>
               (set_caller n \<lparr>pc_input = data, pc_state = Waiting h, pc_linger = LingerRunning token\<rparr>
                 (set_locked i rt w))\<lparr>pw_pushed := pw_pushed w @ [data]\<rparr>
           | Err e \<Rightarrow>
               set_caller n \<lparr>pc_input = data, pc_state = Returned (Err e), pc_linger = NoLinger\<rparr>
                 (set_locked i rt w)
           | Panic p \<Rightarrow>
               set_caller n \<lparr>pc_input = data, pc_state = Returned (Panic p), pc_linger = NoLinger\<rparr>
                 (set_locked i rt w)))"

text \<open>The task of a linger timer, when the time is over.\<close>

fun linger_outcome :: "(producer_error, unit) outcome \<Rightarrow> linger_state" where
  "linger_outcome (Ok _) = LingerDone None"
| "linger_outcome (Err e) = LingerDone (Some e)"
| "linger_outcome (Panic _) = LingerPanicked"

definition linger_call :: "('g, 'i, 't, 'r, 'd, 's) aggregator \<Rightarrow> nat \<Rightarrow> ('i, 't, 's) caller \<Rightarrow> u64 \<Rightarrow>
    ('g, 'i, 't, 'r, 'd, 's) pworld \<Rightarrow> ('g, 'i, 't, 'r, 'd, 's) pworld" where
  "linger_call ag n c token w =
     (case inner_flush ag (Some token) (pw_inner w, pw_runtime w) of
        (r, i, rt) \<Rightarrow> set_caller n (c\<lparr>pc_linger := linger_outcome r\<rparr>) (set_locked i rt w))"

text \<open>\<open>BatchProducer::flush\<close> up to the loop that waits for the tasks.\<close>

definition flush_call :: "('g, 'i, 't, 'r, 'd, 's) aggregator \<Rightarrow> nat \<Rightarrow>
    ('g, 'i, 't, 'r, 'd, 's) pworld \<Rightarrow> ('g, 'i, 't, 'r, 'd, 's) pworld" where
  "flush_call ag f w =
     (case inner_flush ag None (pw_inner w, pw_runtime w) of
        (Ok _, i, rt) \<Rightarrow>
          (set_locked (i\<lparr>pi_pending_flushes := []\<rparr>) rt w)\<lparr>pw_flushes :=
            (pw_flushes w)(f \<mapsto> FlushWaiting (pi_pending_flushes i))\<rparr>
      | (Err e, i, rt) \<Rightarrow>
          (set_locked i rt w)\<lparr>pw_flushes := (pw_flushes w)(f \<mapsto> FlushReturned (Err e))\<rparr>
      | (Panic p, i, rt) \<Rightarrow>
          (set_locked i rt w)\<lparr>pw_flushes := (pw_flushes w)(f \<mapsto> FlushReturned (Panic p))\<rparr>)"

text \<open>The drop of the last reference, which aborts the tasks that are still pending.\<close>

definition producer_drop :: "('g, 'i, 't, 'r, 'd, 's) pworld \<Rightarrow> ('g, 'i, 't, 'r, 'd, 's) pworld" where
  "producer_drop w =
     (case pi_batch_builder (pw_inner w) of
        Some b \<Rightarrow> (set_locked ((pw_inner w)\<lparr>pi_batch_builder := None\<rparr>) (rt_drop (bb_results b) (pw_runtime w)) w)
          \<lparr>pw_dropped := True\<rparr>
      | None \<Rightarrow> w\<lparr>pw_dropped := True\<rparr>)"

definition in_use :: "('g, 'i, 't, 'r, 'd, 's) pworld \<Rightarrow> bool" where
  "in_use w \<longleftrightarrow>
     (\<exists>n c. pw_callers w n = Some c \<and>
        ((\<exists>h. pc_state c = Waiting h) \<or> (\<exists>token. pc_linger c = LingerRunning token))) \<or>
     (\<exists>f ks. pw_flushes w f = Some (FlushWaiting ks))"

inductive pstep :: "('g, 'i, 't, 'r, 'd, 's) aggregator \<Rightarrow>
    ('r list \<Rightarrow> Compression \<Rightarrow> client_error + i64 list \<Rightarrow> bool) \<Rightarrow>
    ('g, 'i, 't, 'r, 'd, 's) pworld \<Rightarrow> ('g, 'i, 't, 'r, 'd, 's) pworld \<Rightarrow> bool" for ag ans where
  produce: "\<not> pw_dropped w \<Longrightarrow> pw_callers w n = None \<Longrightarrow> pstep ag ans w (produce_call ag n data w)"
| linger: "pw_callers w n = Some c \<Longrightarrow> pc_linger c = LingerRunning token \<Longrightarrow>
    pstep ag ans w (linger_call ag n c token w)"
| received: "pw_callers w n = Some c \<Longrightarrow> pc_state c = Waiting h \<Longrightarrow>
    sh_data (rt_channels (pw_runtime w) ! h_receiver h) = Some v \<Longrightarrow>
    pstep ag ans w (set_caller n (c\<lparr>pc_state := Returned (handle_received ag h v)\<rparr>) w)"
| linger_failed: "pw_callers w n = Some c \<Longrightarrow> pc_state c = Waiting h \<Longrightarrow>
    pc_linger c = LingerDone (Some e) \<Longrightarrow>
    pstep ag ans w (set_caller n (c\<lparr>pc_state := Returned (Err e)\<rparr>) w)"
| linger_panicked: "pw_callers w n = Some c \<Longrightarrow> pc_state c = Waiting h \<Longrightarrow>
    pc_linger c = LingerPanicked \<Longrightarrow>
    pstep ag ans w (set_caller n (c\<lparr>pc_state := Returned (Panic ExpectFailed)\<rparr>) w)"
| cancelled: "pw_callers w n = Some c \<Longrightarrow> pc_state c = Waiting h \<Longrightarrow>
    pstep ag ans w (set_caller n (c\<lparr>pc_state := Cancelled\<rparr>) w)"
| answered: "k < length (rt_tasks (pw_runtime w)) \<Longrightarrow> rt_tasks (pw_runtime w) ! k = t \<Longrightarrow>
    ft_state t = Running \<Longrightarrow> ans (ft_batch t) (ft_compression t) a \<Longrightarrow>
    task_answered k a (pw_runtime w) = Ok rt \<Longrightarrow> pstep ag ans w (w\<lparr>pw_runtime := rt\<rparr>)"
| published_twice: "k < length (rt_tasks (pw_runtime w)) \<Longrightarrow> rt_tasks (pw_runtime w) ! k = t \<Longrightarrow>
    ft_state t = Running \<Longrightarrow> ans (ft_batch t) (ft_compression t) a \<Longrightarrow>
    is_panic (task_answered k a (pw_runtime w)) \<Longrightarrow>
    pstep ag ans w (w\<lparr>pw_runtime := end_task k Crashed (pw_runtime w)\<rparr>)"
| crashed: "k < length (rt_tasks (pw_runtime w)) \<Longrightarrow>
    ft_state (rt_tasks (pw_runtime w) ! k) = Running \<Longrightarrow>
    pstep ag ans w (w\<lparr>pw_runtime := task_dropped k Crashed (pw_runtime w)\<rparr>)"
| flush: "\<not> pw_dropped w \<Longrightarrow> pw_flushes w f = None \<Longrightarrow> pstep ag ans w (flush_call ag f w)"
| flush_waited: "pw_flushes w f = Some (FlushWaiting (k # ks)) \<Longrightarrow> is_finished (pw_runtime w) k \<Longrightarrow>
    pstep ag ans w (w\<lparr>pw_flushes := (pw_flushes w)(f \<mapsto> FlushWaiting ks)\<rparr>)"
| flush_panicked: "pw_flushes w f = Some (FlushWaiting (k # ks)) \<Longrightarrow>
    ft_state (rt_tasks (pw_runtime w) ! k) = Crashed \<Longrightarrow>
    pstep ag ans w (w\<lparr>pw_flushes := (pw_flushes w)(f \<mapsto> FlushReturned (Panic ExpectFailed))\<rparr>)"
| flush_returned: "pw_flushes w f = Some (FlushWaiting []) \<Longrightarrow>
    pstep ag ans w (w\<lparr>pw_flushes := (pw_flushes w)(f \<mapsto> FlushReturned (Ok ()))\<rparr>)"
| flush_cancelled: "pw_flushes w f = Some (FlushWaiting ks) \<Longrightarrow>
    pstep ag ans w (w\<lparr>pw_flushes := (pw_flushes w)(f := None)\<rparr>)"
| dropped: "\<not> pw_dropped w \<Longrightarrow> \<not> in_use w \<Longrightarrow> pstep ag ans w (producer_drop w)"
| aborted: "pw_dropped w \<Longrightarrow> k \<in> set (pi_pending_flushes (pw_inner w)) \<Longrightarrow>
    k < length (rt_tasks (pw_runtime w)) \<Longrightarrow>
    ft_state (rt_tasks (pw_runtime w) ! k) = Running \<Longrightarrow>
    pstep ag ans w (w\<lparr>pw_runtime := task_dropped k Aborted (pw_runtime w)\<rparr>)"

section \<open>The specification\<close>

text \<open>
  The abstract view: a queue that is cut into batches.  Inputs are put into the open batch,
  which can be closed; when the producer is dropped the open batch is abandoned.
\<close>

record 'i batch_queue =
  bq_closed :: "'i list list"
  bq_open :: "'i list"

datatype 'i queue_op = Enqueue 'i | Close | Abandon

fun queue_apply :: "'i queue_op \<Rightarrow> 'i batch_queue \<Rightarrow> 'i batch_queue" where
  "queue_apply (Enqueue x) q = q\<lparr>bq_open := bq_open q @ [x]\<rparr>"
| "queue_apply Close q = \<lparr>bq_closed = bq_closed q @ [bq_open q], bq_open = []\<rparr>"
| "queue_apply Abandon q = q\<lparr>bq_open := []\<rparr>"

definition enqueued :: "'i queue_op list \<Rightarrow> 'i list" where
  "enqueued ops = concat (map (\<lambda>p. case p of Enqueue x \<Rightarrow> [x] | _ \<Rightarrow> []) ops)"

definition queue_contents :: "'i batch_queue \<Rightarrow> 'i list" where
  "queue_contents q = concat (bq_closed q) @ bq_open q"

lemma queue_contents_apply:
  "Abandon \<notin> set ops \<Longrightarrow> queue_contents (fold queue_apply ops q) = queue_contents q @ enqueued ops"
proof (induction ops arbitrary: q)
  case (Cons p ops)
  then show ?case by (cases p) (auto simp: queue_contents_def enqueued_def)
qed (simp add: enqueued_def)

text \<open>The queue that a state of the producer stands for.\<close>

definition queue_of :: "('r \<Rightarrow> 'i list) \<Rightarrow> ('g \<Rightarrow> ('i \<times> 't) list) \<Rightarrow> 'g ProducerInner \<Rightarrow> ('r, 'd) runtime \<Rightarrow>
    'i batch_queue" where
  "queue_of inputs_of contents i rt =
     \<lparr>bq_closed = map (\<lambda>t. concat (map inputs_of (ft_batch t))) (rt_tasks rt),
      bq_open = (case pi_batch_builder i of Some b \<Rightarrow> map fst (contents (bb_aggregator b)) | None \<Rightarrow> [])\<rparr>"

section \<open>Contracts\<close>

text \<open>What the producer relies on of its client: there is an offset for each record.\<close>

locale producer_client =
  fixes ans :: "'r list \<Rightarrow> Compression \<Rightarrow> client_error + i64 list \<Rightarrow> bool"
  assumes answers_length: "ans rs compr (Inr offs) \<Longrightarrow> length offs = length rs"

section \<open>The invariant\<close>

locale batch_producer =
  aggregator_contract ag wf contents belongs flushed + producer_client ans
  for ag :: "('g, 'i, 't, 'r, 'd, 's) aggregator" and wf contents belongs flushed
    and ans :: "'r list \<Rightarrow> Compression \<Rightarrow> client_error + i64 list \<Rightarrow> bool"
begin

text \<open>The channel of a task has its result when it has ended.\<close>

definition task_channel :: "('r, 'd) flush_task \<Rightarrow> (BroadcastError + 'd BatchWriteResult) option \<Rightarrow> bool" where
  "task_channel t data =
     (case ft_state t of
        Running \<Rightarrow> data = None
      | Answered a \<Rightarrow> data = Some (Inr (write_result (ft_deagg t) a)) \<and> ans (ft_batch t) (ft_compression t) a
      | _ \<Rightarrow> data = Some (Inl Dropped))"

definition tasks_inv :: "('r, 'd) runtime \<Rightarrow> bool" where
  "tasks_inv rt \<longleftrightarrow> distinct (map ft_channel (rt_tasks rt)) \<and>
     (\<forall>t \<in> set (rt_tasks rt). ft_channel t < length (rt_channels rt) \<and>
        task_channel t (sh_data (rt_channels rt ! ft_channel t)))"

definition builder_inv :: "'g BatchBuilder \<Rightarrow> ('r, 'd) runtime \<Rightarrow> bool" where
  "builder_inv b rt \<longleftrightarrow> wf (bb_aggregator b) \<and> bb_results b < length (rt_channels rt) \<and>
     sh_data (rt_channels rt ! bb_results b) = None \<and>
     (\<forall>t \<in> set (rt_tasks rt). ft_channel t \<noteq> bb_results b)"

text \<open>The input \<open>x\<close> of the holder of a handle is in the open batch or in that of a task.\<close>

definition in_open :: "'g ProducerInner \<Rightarrow> 'i \<Rightarrow> 't ResultHandle \<Rightarrow> bool" where
  "in_open i x h \<longleftrightarrow> (\<exists>b. pi_batch_builder i = Some b \<and> h_receiver h = bb_results b \<and>
     (x, h_tag h) \<in> set (contents (bb_aggregator b)))"

definition in_task :: "('r, 'd) flush_task \<Rightarrow> 'i \<Rightarrow> 't ResultHandle \<Rightarrow> bool" where
  "in_task t x h \<longleftrightarrow> ft_channel t = h_receiver h \<and>
     (\<exists>c. flushed c (ft_batch t) (ft_deagg t) \<and> (x, h_tag h) \<in> set c)"

definition served :: "('r, 'd) runtime \<Rightarrow> 'i \<Rightarrow> 's \<Rightarrow> bool" where
  "served rt x s \<longleftrightarrow> (\<exists>t \<in> set (rt_tasks rt). \<exists>offs.
     ft_state t = Answered (Inr offs) \<and> belongs x (ft_batch t) offs s)"

definition caller_inv :: "'g ProducerInner \<Rightarrow> ('r, 'd) runtime \<Rightarrow> ('i, 't, 's) caller \<Rightarrow> bool" where
  "caller_inv i rt c \<longleftrightarrow> pc_linger c \<noteq> LingerPanicked \<and>
     (case pc_state c of
        Waiting h \<Rightarrow> in_open i (pc_input c) h \<or> (\<exists>t \<in> set (rt_tasks rt). in_task t (pc_input c) h)
      | Returned (Ok s) \<Rightarrow> served rt (pc_input c) s
      | Returned (Panic p) \<Rightarrow> False
      | _ \<Rightarrow> True)"

definition callers_inv :: "'g ProducerInner \<Rightarrow> ('r, 'd) runtime \<Rightarrow> (nat \<Rightarrow> ('i, 't, 's) caller option) \<Rightarrow> bool" where
  "callers_inv i rt cs \<longleftrightarrow> (\<forall>n c. cs n = Some c \<longrightarrow> caller_inv i rt c)"

definition lingers :: "'g ProducerInner \<Rightarrow> (nat \<Rightarrow> ('i, 't, 's) caller option) \<Rightarrow> bool" where
  "lingers i cs \<longleftrightarrow> (\<exists>n c. cs n = Some c \<and> pc_linger c = LingerRunning (pi_flush_clock i))"

definition linger_inv :: "'g ProducerInner \<Rightarrow> (nat \<Rightarrow> ('i, 't, 's) caller option) \<Rightarrow> bool" where
  "linger_inv i cs \<longleftrightarrow>
     (\<forall>b. pi_batch_builder i = Some b \<and> contents (bb_aggregator b) \<noteq> [] \<longrightarrow> pi_has_linger_waiter i) \<and>
     (pi_has_linger_waiter i \<longrightarrow> lingers i cs)"

definition pinv :: "('g, 'i, 't, 'r, 'd, 's) pworld \<Rightarrow> bool" where
  "pinv w \<longleftrightarrow> tasks_inv (pw_runtime w) \<and> callers_inv (pw_inner w) (pw_runtime w) (pw_callers w) \<and>
     (if pw_dropped w then \<not> in_use w
      else (\<exists>b. pi_batch_builder (pw_inner w) = Some b \<and> builder_inv b (pw_runtime w)) \<and>
        linger_inv (pw_inner w) (pw_callers w))"

text \<open>A flush closes the open batch: its inputs are then in a task, if there are any.\<close>

definition new_runtime :: "'g BatchBuilder \<Rightarrow> ('r, 'd) runtime \<Rightarrow> ('r, 'd) runtime \<Rightarrow> nat option \<Rightarrow> Compression \<Rightarrow> bool" where
  "new_runtime b rt rt' k compr \<longleftrightarrow> (\<exists>rs d. flushed (contents (bb_aggregator b)) rs d \<and>
     (if rs = [] then k = None \<and> (\<exists>sh. sh_data sh \<noteq> None \<and>
        rt' = rt\<lparr>rt_channels := (rt_channels rt)[bb_results b := sh] @ [broadcast_default]\<rparr>)
      else k = Some (length (rt_tasks rt)) \<and>
        rt' = rt\<lparr>rt_tasks := rt_tasks rt @ [\<lparr>ft_batch = rs, ft_compression = compr, ft_deagg = d,
          ft_channel = bb_results b, ft_state = Running\<rparr>],
          rt_channels := rt_channels rt @ [broadcast_default]\<rparr>))"

lemma inner_flush_cut:
  assumes "pi_batch_builder i = Some b" and "builder_inv b rt"
  obtains b' k rt' where "inner_flush ag None (i, rt) = (Ok (), next_batch b' k rt' i, rt')"
    "wf (bb_aggregator b')" "contents (bb_aggregator b') = []" "bb_results b' = length (rt_channels rt)"
    "new_runtime b rt rt' k (pi_compression i)"
proof -
  from assms(2) obtain rs d g where fl: "ag_flush ag (bb_aggregator b) = (Ok (rs, d), g)" "wf g"
    "contents g = []" "flushed (contents (bb_aggregator b)) rs d"
    using flush_cases [of "bb_aggregator b"] by (auto simp: builder_inv_def)
  have none: "sh_data (rt_channels rt ! bb_results b) = None"
    and len: "bb_results b < length (rt_channels rt)"
    using assms(2) by (simp_all add: builder_inv_def)
  show thesis
  proof (cases "rs = []")
    case True
    let ?sh = "(rt_channels rt ! bb_results b)
      \<lparr>sh_data := Some (Inr (Inr \<lparr>aggregated_status = [], status_deagg = d\<rparr>)),
       sh_notified := Suc (sh_notified (rt_channels rt ! bb_results b))\<rparr>"
    show thesis
      by (rule that [of "\<lparr>bb_aggregator = g, bb_results = length (rt_channels rt)\<rparr>" None
            "rt\<lparr>rt_channels := (rt_channels rt)[bb_results b := ?sh] @ [broadcast_default]\<rparr>"])
        (use fl True none in \<open>auto simp: inner_flush_def background_flush_def assms(1) bb_new_def
          rt_broadcast_def broadcast_def broadcast_drop_def new_runtime_def intro!: exI [of _ ?sh]\<close>)
  next
    case False
    show thesis
      by (rule that [of "\<lparr>bb_aggregator = g, bb_results = length (rt_channels rt)\<rparr>" "Some (length (rt_tasks rt))"
            "rt\<lparr>rt_tasks := rt_tasks rt @ [\<lparr>ft_batch = rs, ft_compression = pi_compression i, ft_deagg = d,
              ft_channel = bb_results b, ft_state = Running\<rparr>],
              rt_channels := rt_channels rt @ [broadcast_default]\<rparr>"])
        (use fl False in \<open>auto simp: inner_flush_def background_flush_def assms(1) bb_new_def
          new_runtime_def Let_def\<close>)
  qed
qed

text \<open>Tasks only go from running to ended.\<close>

definition tasks_le :: "('r, 'd) runtime \<Rightarrow> ('r, 'd) runtime \<Rightarrow> bool" where
  "tasks_le rt rt' \<longleftrightarrow> (\<forall>t \<in> set (rt_tasks rt). \<exists>t' \<in> set (rt_tasks rt').
     ft_batch t' = ft_batch t \<and> ft_deagg t' = ft_deagg t \<and> ft_channel t' = ft_channel t \<and>
     (ft_state t \<noteq> Running \<longrightarrow> ft_state t' = ft_state t))"

lemma tasks_le_subset: "set (rt_tasks rt) \<subseteq> set (rt_tasks rt') \<Longrightarrow> tasks_le rt rt'"
  by (fastforce simp: tasks_le_def)

lemma in_task_le:
  assumes "tasks_le rt rt'" and "t \<in> set (rt_tasks rt)" and "in_task t x h"
  shows "\<exists>t' \<in> set (rt_tasks rt'). in_task t' x h"
  using assms unfolding tasks_le_def in_task_def by metis

lemma served_le:
  assumes "tasks_le rt rt'" and "served rt x s"
  shows "served rt' x s"
proof -
  from assms(2) obtain t offs where t: "t \<in> set (rt_tasks rt)" "ft_state t = Answered (Inr offs)"
    "belongs x (ft_batch t) offs s"
    by (auto simp: served_def)
  with assms(1) obtain t' where "t' \<in> set (rt_tasks rt')" "ft_batch t' = ft_batch t"
    "ft_state t' = Answered (Inr offs)"
    unfolding tasks_le_def by (metis task_state.distinct(1))
  with t(3) show ?thesis unfolding served_def by metis
qed

lemma caller_inv_mono:
  assumes "caller_inv i rt c" and "tasks_le rt rt'"
    and "\<And>x h. in_open i x h \<Longrightarrow> in_open i' x h \<or> (\<exists>t \<in> set (rt_tasks rt'). in_task t x h)"
  shows "caller_inv i' rt' c"
proof (cases "pc_state c")
  case (Waiting h)
  with assms(1) consider "in_open i (pc_input c) h" | t where "t \<in> set (rt_tasks rt)" "in_task t (pc_input c) h"
    by (auto simp: caller_inv_def)
  then have "in_open i' (pc_input c) h \<or> (\<exists>t \<in> set (rt_tasks rt'). in_task t (pc_input c) h)"
    by cases (use assms(3) in_task_le [OF assms(2)] in blast)+
  with Waiting assms(1) show ?thesis by (simp add: caller_inv_def)
next
  case (Returned r)
  with assms(1) served_le [OF assms(2)] show ?thesis by (cases r) (auto simp: caller_inv_def)
next
  case Cancelled
  with assms(1) show ?thesis by (simp add: caller_inv_def)
qed

lemma callers_inv_mono:
  assumes "callers_inv i rt cs" and "tasks_le rt rt'"
    and "\<And>x h. in_open i x h \<Longrightarrow> in_open i' x h \<or> (\<exists>t \<in> set (rt_tasks rt'). in_task t x h)"
  shows "callers_inv i' rt' cs"
  using assms caller_inv_mono unfolding callers_inv_def by blast

lemma callers_inv_update:
  "callers_inv i rt cs \<Longrightarrow> caller_inv i rt c \<Longrightarrow> callers_inv i rt (cs(n \<mapsto> c))"
  by (simp add: callers_inv_def)

lemma new_runtime_le: "new_runtime b rt rt' k compr \<Longrightarrow> tasks_le rt rt'"
  by (rule tasks_le_subset) (auto simp: new_runtime_def split: if_splits)

lemma new_runtime_tasks:
  assumes "new_runtime b rt rt' k compr" and "tasks_inv rt" and "builder_inv b rt"
  shows "tasks_inv rt'"
proof -
  from assms(1) obtain rs d where "flushed (contents (bb_aggregator b)) rs d"
    and rt': "if rs = [] then k = None \<and> (\<exists>sh. sh_data sh \<noteq> None \<and>
        rt' = rt\<lparr>rt_channels := (rt_channels rt)[bb_results b := sh] @ [broadcast_default]\<rparr>)
      else k = Some (length (rt_tasks rt)) \<and>
        rt' = rt\<lparr>rt_tasks := rt_tasks rt @ [\<lparr>ft_batch = rs, ft_compression = compr, ft_deagg = d,
          ft_channel = bb_results b, ft_state = Running\<rparr>],
          rt_channels := rt_channels rt @ [broadcast_default]\<rparr>"
    unfolding new_runtime_def by blast
  show ?thesis
  proof (cases "rs = []")
    case True
    with rt' obtain sh where
      "rt' = rt\<lparr>rt_channels := (rt_channels rt)[bb_results b := sh] @ [broadcast_default]\<rparr>" by auto
    moreover have "\<forall>t \<in> set (rt_tasks rt). ft_channel t < length (rt_channels rt) \<and> bb_results b \<noteq> ft_channel t"
      using assms(2,3) by (auto simp: tasks_inv_def builder_inv_def)
    ultimately show ?thesis
      using assms(2) by (simp add: tasks_inv_def nth_append less_SucI)
  next
    case False
    with rt' have "rt' = rt\<lparr>rt_tasks := rt_tasks rt @ [\<lparr>ft_batch = rs, ft_compression = compr, ft_deagg = d,
          ft_channel = bb_results b, ft_state = Running\<rparr>],
          rt_channels := rt_channels rt @ [broadcast_default]\<rparr>" by simp
    with assms(2,3) show ?thesis
      by (fastforce simp: tasks_inv_def builder_inv_def nth_append task_channel_def)
  qed
qed

lemma new_runtime_builder:
  assumes "new_runtime b rt rt' k compr" and "tasks_inv rt" and "builder_inv b rt"
    and "wf (bb_aggregator b')" and "bb_results b' = length (rt_channels rt)"
  shows "builder_inv b' rt'"
proof -
  have "\<forall>t \<in> set (rt_tasks rt). ft_channel t < length (rt_channels rt)"
    using assms(2) by (simp add: tasks_inv_def)
  with assms(1,3-5) show ?thesis
    by (fastforce simp: new_runtime_def builder_inv_def broadcast_default_def nth_append split: if_splits)
qed

lemma new_runtime_in_task:
  assumes "new_runtime b rt rt' k compr" and "pi_batch_builder i = Some b" and "in_open i x h"
  shows "\<exists>t \<in> set (rt_tasks rt'). in_task t x h"
proof -
  from assms(2,3) have x: "h_receiver h = bb_results b" "(x, h_tag h) \<in> set (contents (bb_aggregator b))"
    by (auto simp: in_open_def)
  with assms(1) flush_empty show ?thesis
    by (fastforce simp: new_runtime_def in_task_def split: if_splits)
qed

text \<open>What a flush and a push under the lock keep.\<close>

definition locked_inv :: "'g ProducerInner \<Rightarrow> ('r, 'd) runtime \<Rightarrow> (nat \<Rightarrow> ('i, 't, 's) caller option) \<Rightarrow> bool" where
  "locked_inv i rt cs \<longleftrightarrow> tasks_inv rt \<and> callers_inv i rt cs \<and>
     (\<exists>b. pi_batch_builder i = Some b \<and> builder_inv b rt)"

lemma flush_locked:
  assumes "locked_inv i rt cs" and "inner_flush ag None (i, rt) = (r, i', rt')"
  shows "r = Ok ()" "locked_inv i' rt' cs" "linger_inv i' cs"
    "pi_batch_builder i' = Some b' \<Longrightarrow> contents (bb_aggregator b') = []"
    "\<not> pi_has_linger_waiter i'" "pi_flush_clock i' = pi_flush_clock i + 1" "tasks_le rt rt'"
proof -
  from assms(1) obtain b where b: "pi_batch_builder i = Some b" "builder_inv b rt"
    and inv: "tasks_inv rt" "callers_inv i rt cs"
    by (auto simp: locked_inv_def)
  obtain b1 k rt1 where cut: "inner_flush ag None (i, rt) = (Ok (), next_batch b1 k rt1 i, rt1)"
    "wf (bb_aggregator b1)" "contents (bb_aggregator b1) = []" "bb_results b1 = length (rt_channels rt)"
    "new_runtime b rt rt1 k (pi_compression i)"
    by (rule inner_flush_cut [OF b])
  with assms(2) have eqs: "r = Ok ()" "i' = next_batch b1 k rt1 i" "rt' = rt1" by auto
  show "r = Ok ()" "linger_inv i' cs" "\<not> pi_has_linger_waiter i'"
    "pi_flush_clock i' = pi_flush_clock i + 1"
    "pi_batch_builder i' = Some b' \<Longrightarrow> contents (bb_aggregator b') = []"
    using cut(3) by (auto simp: eqs next_batch_def linger_inv_def)
  show "tasks_le rt rt'" using new_runtime_le [OF cut(5)] eqs by simp
  have "callers_inv i' rt' cs"
    using callers_inv_mono [OF inv(2) new_runtime_le [OF cut(5)]] new_runtime_in_task [OF cut(5) b(1)] eqs
    by blast
  moreover have "tasks_inv rt'" using new_runtime_tasks [OF cut(5) inv(1) b(2)] eqs by simp
  moreover have "builder_inv b1 rt'" using new_runtime_builder [OF cut(5) inv(1) b(2) cut(2,4)] eqs by simp
  ultimately show "locked_inv i' rt' cs" by (simp add: locked_inv_def eqs next_batch_def)
qed

lemma push_locked:
  assumes "locked_inv i rt cs" and "inner_push ag x i = (r, i')"
  shows "r = Ok (NoCapacity x) \<and> i' = i \<or>
    (\<exists>h. r = Ok (Aggregated h) \<and> locked_inv i' rt cs \<and> in_open i' x h \<and>
       pi_has_linger_waiter i' = pi_has_linger_waiter i \<and> pi_flush_clock i' = pi_flush_clock i)"
proof -
  from assms(1) obtain b where b: "pi_batch_builder i = Some b" "builder_inv b rt"
    and inv: "tasks_inv rt" "callers_inv i rt cs"
    by (auto simp: locked_inv_def)
  have "wf (bb_aggregator b)" using b(2) by (simp add: builder_inv_def)
  from push_cases [OF this, of x] consider
      "ag_try_push ag (bb_aggregator b) x = (Ok (NoCapacity x), bb_aggregator b)"
    | t g where "ag_try_push ag (bb_aggregator b) x = (Ok (Aggregated t), g)" "wf g"
      "contents g = contents (bb_aggregator b) @ [(x, t)]"
    by blast
  then show ?thesis
  proof cases
    case 1
    with assms(2) b(1) show ?thesis by (auto simp: inner_push_def bb_try_push_def)
  next
    case 2
    let ?h = "\<lparr>h_receiver = bb_results b, h_tag = t\<rparr>"
    have eqs: "r = Ok (Aggregated ?h)" "i' = i\<lparr>pi_batch_builder := Some (b\<lparr>bb_aggregator := g\<rparr>)\<rparr>"
      using assms(2) b(1) 2(1) by (auto simp: inner_push_def bb_try_push_def)
    have "callers_inv i' rt cs"
      using inv(2) by (rule callers_inv_mono) (auto simp: tasks_le_subset in_open_def eqs b(1) 2(3))
    moreover have "builder_inv (b\<lparr>bb_aggregator := g\<rparr>) rt" using b(2) 2(2) by (simp add: builder_inv_def)
    ultimately have "locked_inv i' rt cs" using inv(1) by (simp add: locked_inv_def eqs)
    moreover have "in_open i' x ?h" by (simp add: in_open_def eqs 2(3))
    ultimately show ?thesis by (simp add: eqs)
  qed
qed

lemma caller_role_locked:
  assumes "locked_inv i rt cs" and "linger_inv i0 cs" and "in_open i x h"
    and "pi_has_linger_waiter i \<Longrightarrow> pi_has_linger_waiter i0 \<and> pi_flush_clock i0 = pi_flush_clock i"
    and "caller_role h i = (role, i')"
  shows "locked_inv i' rt cs \<and> in_open i' x h \<and>
    (role = JustWait h \<and> linger_inv i' cs \<or>
     role = Linger h (pi_flush_clock i') \<and> pi_has_linger_waiter i')"
proof (cases "pi_has_linger_waiter i")
  case True
  with assms(4) have "pi_has_linger_waiter i0" "pi_flush_clock i0 = pi_flush_clock i" by simp_all
  with assms(2) True have "linger_inv i cs" by (simp add: linger_inv_def lingers_def)
  with True assms show ?thesis by (auto simp: caller_role_def)
next
  case False
  have open': "in_open (i\<lparr>pi_has_linger_waiter := True\<rparr>) = in_open i" for i :: "'g ProducerInner"
    by (simp add: in_open_def fun_eq_iff)
  have "caller_inv (i\<lparr>pi_has_linger_waiter := True\<rparr>) = caller_inv i"
    unfolding caller_inv_def open' by simp
  with False assms show ?thesis
    by (auto simp: caller_role_def locked_inv_def callers_inv_def open')
qed

lemma try_push_locked:
  assumes inv: "locked_inv i rt cs" "linger_inv i cs"
    and push: "inner_try_push ag x (i, rt) = (r, i', rt')"
  shows "locked_inv i' rt' cs \<and> tasks_le rt rt' \<and>
    (r = Err TooLarge \<and> linger_inv i' cs \<or>
     (\<exists>h. in_open i' x h \<and> (r = Ok (JustWait h) \<and> linger_inv i' cs \<or>
        r = Ok (Linger h (pi_flush_clock i')) \<and> pi_has_linger_waiter i')))"
proof -
  obtain r1 i1 where p1: "inner_push ag x i = (r1, i1)" by (cases "inner_push ag x i")
  from push_locked [OF inv(1) p1] consider (full) "r1 = Ok (NoCapacity x)" "i1 = i"
    | (room) h where "r1 = Ok (Aggregated h)" "locked_inv i1 rt cs" "in_open i1 x h"
      "pi_has_linger_waiter i1 = pi_has_linger_waiter i" "pi_flush_clock i1 = pi_flush_clock i"
    by blast
  then show ?thesis
  proof cases
    case room
    obtain role i2 where role: "caller_role h i1 = (role, i2)" by (cases "caller_role h i1")
    with push p1 room have "r = Ok role" "i' = i2" "rt' = rt" by (auto simp: inner_try_push_def)
    with caller_role_locked [OF room(2) inv(2) room(3) _ role] room(4,5) show ?thesis
      by (auto simp: tasks_le_subset)
  next
    case full
    obtain r2 i2 rt2 where fl: "inner_flush ag None (i, rt) = (r2, i2, rt2)"
      by (cases "inner_flush ag None (i, rt)") auto
    note cut = flush_locked [OF inv(1) fl]
    obtain r3 i3 where p3: "inner_push ag x i2 = (r3, i3)" by (cases "inner_push ag x i2")
    from push_locked [OF cut(2) p3] consider (large) "r3 = Ok (NoCapacity x)" "i3 = i2"
      | (room) h where "r3 = Ok (Aggregated h)" "locked_inv i3 rt2 cs" "in_open i3 x h"
        "pi_has_linger_waiter i3 = pi_has_linger_waiter i2" "pi_flush_clock i3 = pi_flush_clock i2"
      by blast
    then show ?thesis
    proof cases
      case large
      with push p1 full fl cut(1) p3 have "r = Err TooLarge" "i' = i2" "rt' = rt2"
        by (auto simp: inner_try_push_def)
      with cut show ?thesis by auto
    next
      case room
      obtain role i4 where role: "caller_role h i3 = (role, i4)" by (cases "caller_role h i3")
      with push p1 full fl cut(1) p3 room(1) have "r = Ok role" "i' = i4" "rt' = rt2"
        by (auto simp: inner_try_push_def)
      with caller_role_locked [OF room(2) cut(3) room(3) _ role] room(4,5) cut(5,7) show ?thesis by auto
    qed
  qed
qed

text \<open>The end of a task.\<close>

lemma end_task_inv:
  assumes inv: "tasks_inv rt" and k: "k < length (rt_tasks rt)" and run: "ft_state (rt_tasks rt ! k) = Running"
    and sh: "task_channel ((rt_tasks rt ! k)\<lparr>ft_state := st\<rparr>) (sh_data sh)"
    and rt': "rt' = (end_task k st rt)\<lparr>rt_channels := (rt_channels rt)[ft_channel (rt_tasks rt ! k) := sh]\<rparr>"
  shows "tasks_inv rt'" "tasks_le rt rt'" "builder_inv b rt \<Longrightarrow> builder_inv b rt'"
proof -
  let ?t = "rt_tasks rt ! k" and ?t' = "(rt_tasks rt ! k)\<lparr>ft_state := st\<rparr>"
  have tasks: "rt_tasks rt' = (rt_tasks rt)[k := ?t']"
    and chans: "rt_channels rt' = (rt_channels rt)[ft_channel ?t := sh]"
    by (simp_all add: rt' end_task_def)
  have ft: "map ft_channel (rt_tasks rt') = map ft_channel (rt_tasks rt)"
    using k by (simp add: tasks map_update) (metis list_update_id nth_map)
  have other: "ft_channel t \<noteq> ft_channel ?t" if "t \<in> set (rt_tasks rt')" "t \<noteq> ?t'" for t
  proof -
    from that(1) obtain j where j: "j < length (rt_tasks rt)" "t = (rt_tasks rt)[k := ?t'] ! j"
      by (auto simp: tasks in_set_conv_nth)
    with that(2) k have "j \<noteq> k" by auto
    with j k inv show ?thesis by (auto simp: tasks_inv_def distinct_conv_nth)
  qed
  have len: "ft_channel t < length (rt_channels rt)" if "t \<in> set (rt_tasks rt)" for t
    using inv that by (simp add: tasks_inv_def)
  have "ft_channel t < length (rt_channels rt') \<and> task_channel t (sh_data (rt_channels rt' ! ft_channel t))"
    if t: "t \<in> set (rt_tasks rt')" for t
  proof (cases "t = ?t'")
    case True
    with sh len [of ?t] k show ?thesis by (simp add: chans)
  next
    case False
    with t have "t \<in> set (rt_tasks rt)" unfolding tasks using set_update_subset_insert by fastforce
    with inv other [OF t False] show ?thesis by (auto simp: tasks_inv_def chans)
  qed
  with inv show "tasks_inv rt'" by (simp add: tasks_inv_def ft)
  show "tasks_le rt rt'"
    unfolding tasks_le_def
  proof
    fix t assume "t \<in> set (rt_tasks rt)"
    then obtain j where j: "j < length (rt_tasks rt)" "t = rt_tasks rt ! j" by (auto simp: in_set_conv_nth)
    then have "rt_tasks rt' ! j \<in> set (rt_tasks rt')" by (simp add: tasks)
    with j run show "\<exists>t' \<in> set (rt_tasks rt'). ft_batch t' = ft_batch t \<and> ft_deagg t' = ft_deagg t \<and>
        ft_channel t' = ft_channel t \<and> (ft_state t \<noteq> Running \<longrightarrow> ft_state t' = ft_state t)"
      by (intro bexI [of _ "rt_tasks rt' ! j"]; cases "j = k") (auto simp: tasks)
  qed
  show "builder_inv b rt'" if b: "builder_inv b rt"
  proof -
    have "ft_channel ` set (rt_tasks rt') = ft_channel ` set (rt_tasks rt)"
      using ft by (metis set_map)
    then have "\<forall>t \<in> set (rt_tasks rt'). ft_channel t \<noteq> bb_results b"
      using b by (auto simp: builder_inv_def) (metis image_iff)
    moreover have "ft_channel ?t \<noteq> bb_results b" using b k by (simp add: builder_inv_def)
    ultimately show ?thesis using b by (simp add: builder_inv_def chans)
  qed
qed

lemma task_answered_inv:
  assumes inv: "tasks_inv rt" and k: "k < length (rt_tasks rt)" and t: "rt_tasks rt ! k = t"
    and run: "ft_state t = Running" and a: "ans (ft_batch t) (ft_compression t) a"
  obtains rt' where "task_answered k a rt = Ok rt'" "tasks_inv rt'" "tasks_le rt rt'"
    "\<And>b. builder_inv b rt \<Longrightarrow> builder_inv b rt'"
    "sh_data (rt_channels rt' ! ft_channel t) = Some (Inr (write_result (ft_deagg t) a))"
    "rt_tasks rt' = (rt_tasks rt)[k := t\<lparr>ft_state := Answered a\<rparr>]"
proof -
  have "t \<in> set (rt_tasks rt)" using k t by auto
  with inv run have none: "sh_data (rt_channels rt ! ft_channel t) = None"
    and len: "ft_channel t < length (rt_channels rt)"
    by (auto simp: tasks_inv_def task_channel_def)
  let ?sh = "(rt_channels rt ! ft_channel t)\<lparr>sh_data := Some (Inr (write_result (ft_deagg t) a)),
    sh_notified := Suc (sh_notified (rt_channels rt ! ft_channel t))\<rparr>"
  let ?rt = "(end_task k (Answered a) rt)\<lparr>rt_channels := (rt_channels rt)[ft_channel (rt_tasks rt ! k) := ?sh]\<rparr>"
  have "task_channel ((rt_tasks rt ! k)\<lparr>ft_state := Answered a\<rparr>) (sh_data ?sh)"
    using a t by (simp add: task_channel_def)
  note ended = end_task_inv [OF inv k _ this, of ?rt]
  show thesis
    by (rule that [of ?rt])
      (use ended run t none len in \<open>simp_all add: task_answered_def rt_broadcast_def broadcast_def
        broadcast_drop_def end_task_def Let_def\<close>)
qed

lemma task_dropped_inv:
  assumes inv: "tasks_inv rt" and k: "k < length (rt_tasks rt)" and run: "ft_state (rt_tasks rt ! k) = Running"
    and st: "st = Crashed \<or> st = Aborted"
  shows "tasks_inv (task_dropped k st rt)" "tasks_le rt (task_dropped k st rt)"
    "builder_inv b rt \<Longrightarrow> builder_inv b (task_dropped k st rt)"
proof -
  let ?sh = "broadcast_drop (rt_channels rt ! ft_channel (rt_tasks rt ! k))"
  have "rt_tasks rt ! k \<in> set (rt_tasks rt)" using k by simp
  with inv run have "sh_data (rt_channels rt ! ft_channel (rt_tasks rt ! k)) = None"
    by (auto simp: tasks_inv_def task_channel_def)
  with st have sh: "task_channel ((rt_tasks rt ! k)\<lparr>ft_state := st\<rparr>) (sh_data ?sh)"
    by (auto simp: task_channel_def broadcast_drop_def)
  have rt': "task_dropped k st rt = (end_task k st rt)
      \<lparr>rt_channels := (rt_channels rt)[ft_channel (rt_tasks rt ! k) := ?sh]\<rparr>"
    by (simp add: task_dropped_def rt_drop_def end_task_def)
  show "tasks_inv (task_dropped k st rt)" "tasks_le rt (task_dropped k st rt)"
    "builder_inv b rt \<Longrightarrow> builder_inv b (task_dropped k st rt)"
    by (fact end_task_inv [OF inv k run sh rt'])+
qed

text \<open>A caller gets the status of its own input, or an error.\<close>

lemma received_inv:
  assumes inv: "tasks_inv rt" and t: "t \<in> set (rt_tasks rt)" and x: "in_task t x h"
    and v: "sh_data (rt_channels rt ! h_receiver h) = Some v"
  shows "(\<exists>s. handle_received ag h v = Ok s \<and> served rt x s) \<or> (\<exists>e. handle_received ag h v = Err e)"
proof -
  from x obtain c where c: "ft_channel t = h_receiver h" "flushed c (ft_batch t) (ft_deagg t)"
    "(x, h_tag h) \<in> set c"
    by (auto simp: in_task_def)
  from inv t have tc: "task_channel t (Some v)" using c(1) v by (auto simp: tasks_inv_def)
  show ?thesis
  proof (cases "ft_state t")
    case (Answered a)
    with tc have a: "v = Inr (write_result (ft_deagg t) a)" "ans (ft_batch t) (ft_compression t) a"
      by (simp_all add: task_channel_def)
    show ?thesis
    proof (cases a)
      case (Inl e)
      with a(1) show ?thesis by (simp add: handle_received_def handle_result_def write_result_def)
    next
      case (Inr offs)
      with a(2) have "length offs = length (ft_batch t)" using answers_length by blast
      from deaggregate [OF c(2,3) this] obtain s where
        "ag_deaggregate ag (ft_deagg t) offs (h_tag h) = Ok s" "belongs x (ft_batch t) offs s"
        by blast
      with a(1) Inr Answered t show ?thesis
        by (auto simp: handle_received_def handle_result_def write_result_def served_def)
    qed
  qed (use tc in \<open>auto simp: task_channel_def handle_received_def\<close>)
qed

lemma pinv_live: "\<not> pw_dropped w \<Longrightarrow> pinv w \<longleftrightarrow> locked_inv (pw_inner w) (pw_runtime w) (pw_callers w) \<and>
    linger_inv (pw_inner w) (pw_callers w)"
  by (auto simp: pinv_def locked_inv_def)

lemma pinv_start: "wf g \<Longrightarrow> contents g = [] \<Longrightarrow> pinv (producer_start g compr)"
  by (simp add: pinv_live locked_inv_def tasks_inv_def callers_inv_def linger_inv_def builder_inv_def
      producer_start_def ProducerInner_new_def bb_new_def broadcast_default_def)

lemma pinv_waiting:
  assumes "pinv w" and "pw_callers w n = Some c" and "pc_state c = Waiting h"
  shows "\<not> pw_dropped w"
proof
  assume "pw_dropped w"
  with assms show False by (auto simp: pinv_def in_use_def)
qed

lemma pinv_lingering:
  assumes "pinv w" and "pw_callers w n = Some c" and "pc_linger c = LingerRunning token"
  shows "\<not> pw_dropped w"
proof
  assume "pw_dropped w"
  with assms show False by (auto simp: pinv_def in_use_def)
qed

lemma in_use_simps [simp]:
  "in_use (w\<lparr>pw_runtime := rt\<rparr>) = in_use w" "in_use (w\<lparr>pw_dropped := d\<rparr>) = in_use w"
  "in_use (w\<lparr>pw_inner := i\<rparr>) = in_use w"
  by (simp_all add: in_use_def)

lemma pinv_runtime:
  assumes "pinv w" and "tasks_inv rt" and "tasks_le (pw_runtime w) rt"
    and "\<And>b. builder_inv b (pw_runtime w) \<Longrightarrow> builder_inv b rt"
  shows "pinv (w\<lparr>pw_runtime := rt\<rparr>)"
proof -
  have "callers_inv (pw_inner w) rt (pw_callers w)"
    using assms(1,3) by (auto simp: pinv_def intro: callers_inv_mono)
  with assms show ?thesis by (auto simp: pinv_def)
qed

lemma linger_inv_state:
  "cs n = Some c \<Longrightarrow> pc_linger c' = pc_linger c \<Longrightarrow> linger_inv i (cs(n \<mapsto> c')) = linger_inv i cs"
proof -
  assume c: "cs n = Some c" "pc_linger c' = pc_linger c"
  then have "lingers i (cs(n \<mapsto> c')) = lingers i cs"
    unfolding lingers_def by (metis fun_upd_apply option.inject)
  then show "linger_inv i (cs(n \<mapsto> c')) = linger_inv i cs" by (simp add: linger_inv_def)
qed

lemma pinv_state:
  assumes "pinv w" and "pw_callers w n = Some c" and "pc_state c = Waiting h"
    and "caller_inv (pw_inner w) (pw_runtime w) (c\<lparr>pc_state := st\<rparr>)"
  shows "pinv (set_caller n (c\<lparr>pc_state := st\<rparr>) w)"
proof -
  have "\<not> pw_dropped w" using pinv_waiting [OF assms(1-3)] .
  with assms show ?thesis
    by (simp add: pinv_live set_caller_def locked_inv_def callers_inv_update linger_inv_state [of _ n c])
qed

lemma pinv_caller:
  "pinv w \<Longrightarrow> pw_callers w n = Some c \<Longrightarrow> caller_inv (pw_inner w) (pw_runtime w) c"
  by (auto simp: pinv_def callers_inv_def)

lemma pinv_produce:
  assumes "pinv w" and live: "\<not> pw_dropped w" and new: "pw_callers w n = None"
  shows "pinv (produce_call ag n x w)"
proof -
  obtain r i rt where push: "inner_try_push ag x (pw_inner w, pw_runtime w) = (r, i, rt)"
    by (cases "inner_try_push ag x (pw_inner w, pw_runtime w)") auto
  have inv: "locked_inv (pw_inner w) (pw_runtime w) (pw_callers w)" "linger_inv (pw_inner w) (pw_callers w)"
    using assms(1) live by (simp_all add: pinv_live)
  let ?cs = "\<lambda>c. (pw_callers w)(n \<mapsto> c)"
  have lingers: "lingers i (?cs c)" if "lingers i (pw_callers w)" for c
    using that new unfolding lingers_def by (metis fun_upd_other option.distinct(1))
  then have linger: "linger_inv i (?cs c)" if "linger_inv i (pw_callers w)" for c
    using that by (simp add: linger_inv_def)
  have locked: "locked_inv i rt (?cs c)" if "caller_inv i rt c" "locked_inv i rt (pw_callers w)" for c
    using that by (simp add: locked_inv_def callers_inv_update)
  from try_push_locked [OF inv push] have after: "locked_inv i rt (pw_callers w)"
    and "r = Err TooLarge \<and> linger_inv i (pw_callers w) \<or>
     (\<exists>h. in_open i x h \<and> (r = Ok (JustWait h) \<and> linger_inv i (pw_callers w) \<or>
        r = Ok (Linger h (pi_flush_clock i)) \<and> pi_has_linger_waiter i))"
    by simp_all
  then consider "r = Err TooLarge" "linger_inv i (pw_callers w)"
    | h where "in_open i x h" "r = Ok (JustWait h)" "linger_inv i (pw_callers w)"
    | h where "in_open i x h" "r = Ok (Linger h (pi_flush_clock i))" "pi_has_linger_waiter i"
    by blast
  then show ?thesis
  proof cases
    case 1
    with after linger locked live push show ?thesis
      by (simp add: produce_call_def pinv_live set_caller_def set_locked_def caller_inv_def)
  next
    case 2
    with after linger locked live push show ?thesis
      by (simp add: produce_call_def pinv_live set_caller_def set_locked_def caller_inv_def)
  next
    case 3
    then have "linger_inv i (?cs \<lparr>pc_input = x, pc_state = Waiting h, pc_linger = LingerRunning (pi_flush_clock i)\<rparr>)"
      by (auto simp: linger_inv_def lingers_def)
    with 3 after locked live push show ?thesis
      by (simp add: produce_call_def pinv_live set_caller_def set_locked_def caller_inv_def)
  qed
qed

lemma pinv_linger:
  assumes "pinv w" and c: "pw_callers w n = Some c" "pc_linger c = LingerRunning token"
  shows "pinv (linger_call ag n c token w)"
proof -
  have live: "\<not> pw_dropped w" using pinv_lingering [OF assms] .
  then have inv: "locked_inv (pw_inner w) (pw_runtime w) (pw_callers w)" "linger_inv (pw_inner w) (pw_callers w)"
    using assms(1) by (simp_all add: pinv_live)
  have done': "caller_inv i rt (c\<lparr>pc_linger := LingerDone None\<rparr>)" if "caller_inv i rt c" for i rt
    using that by (cases "pc_state c") (auto simp: caller_inv_def split: outcome.splits)
  show ?thesis
  proof (cases "token = pi_flush_clock (pw_inner w)")
    case False
    then have "inner_flush ag (Some token) (pw_inner w, pw_runtime w) = (Ok (), pw_inner w, pw_runtime w)"
      by (simp add: inner_flush_def)
    moreover have "lingers (pw_inner w) ((pw_callers w)(n \<mapsto> c\<lparr>pc_linger := LingerDone None\<rparr>)) =
        lingers (pw_inner w) (pw_callers w)"
      using c False by (auto simp: lingers_def) (metis linger_state.inject(1) option.inject)
    ultimately show ?thesis
      using inv live done' [OF pinv_caller [OF assms(1) c(1)]]
      by (simp add: linger_call_def pinv_live set_caller_def set_locked_def locked_inv_def callers_inv_update
          linger_inv_def)
  next
    case True
    then have same: "inner_flush ag (Some token) (pw_inner w, pw_runtime w) =
        inner_flush ag None (pw_inner w, pw_runtime w)"
      by (simp add: inner_flush_def)
    obtain r i rt where fl: "inner_flush ag None (pw_inner w, pw_runtime w) = (r, i, rt)"
      by (cases "inner_flush ag None (pw_inner w, pw_runtime w)") auto
    note cut = flush_locked [OF inv(1) fl]
    have "caller_inv i rt c" using cut(2) c(1) by (simp add: locked_inv_def callers_inv_def)
    moreover have "linger_inv i cs" for cs using cut(3,5) by (simp add: linger_inv_def)
    ultimately show ?thesis
      using cut(1,2) live done' fl same
      by (simp add: linger_call_def pinv_live set_caller_def set_locked_def locked_inv_def callers_inv_update)
  qed
qed

lemma pinv_received:
  assumes "pinv w" and c: "pw_callers w n = Some c" "pc_state c = Waiting h"
    and v: "sh_data (rt_channels (pw_runtime w) ! h_receiver h) = Some v"
  shows "pinv (set_caller n (c\<lparr>pc_state := Returned (handle_received ag h v)\<rparr>) w)"
proof (rule pinv_state [OF assms(1) c])
  have inv: "caller_inv (pw_inner w) (pw_runtime w) c" using pinv_caller [OF assms(1) c(1)] .
  have live: "\<not> pw_dropped w" using pinv_waiting [OF assms(1) c] .
  have "\<not> in_open (pw_inner w) (pc_input c) h"
    using assms(1) live v by (auto simp: pinv_def in_open_def builder_inv_def)
  with inv c(2) obtain t where t: "t \<in> set (rt_tasks (pw_runtime w))" "in_task t (pc_input c) h"
    by (auto simp: caller_inv_def)
  have "tasks_inv (pw_runtime w)" using assms(1) by (simp add: pinv_def)
  from received_inv [OF this t v] inv
  show "caller_inv (pw_inner w) (pw_runtime w) (c\<lparr>pc_state := Returned (handle_received ag h v)\<rparr>)"
    by (auto simp: caller_inv_def)
qed

lemma pinv_flush:
  assumes "pinv w" and live: "\<not> pw_dropped w"
  shows "pinv (flush_call ag f w)"
proof -
  have inv: "locked_inv (pw_inner w) (pw_runtime w) (pw_callers w)"
    using assms by (simp add: pinv_live)
  obtain r i rt where fl: "inner_flush ag None (pw_inner w, pw_runtime w) = (r, i, rt)"
    by (cases "inner_flush ag None (pw_inner w, pw_runtime w)") auto
  note cut = flush_locked [OF inv fl]
  have open': "in_open (i\<lparr>pi_pending_flushes := []\<rparr>) = in_open i"
    by (simp add: in_open_def fun_eq_iff)
  have "caller_inv (i\<lparr>pi_pending_flushes := []\<rparr>) = caller_inv i"
    unfolding caller_inv_def open' by simp
  moreover have "lingers (i\<lparr>pi_pending_flushes := []\<rparr>) = lingers i"
    by (simp add: lingers_def fun_eq_iff)
  ultimately show ?thesis
    using cut(1-3) fl live
    by (simp add: flush_call_def pinv_live set_locked_def locked_inv_def callers_inv_def linger_inv_def)
qed

lemma pinv_drop:
  assumes "pinv w" and live: "\<not> pw_dropped w" and unused: "\<not> in_use w"
  shows "pinv (producer_drop w)"
proof -
  from assms obtain b where b: "pi_batch_builder (pw_inner w) = Some b" "builder_inv b (pw_runtime w)"
    and inv: "tasks_inv (pw_runtime w)" "callers_inv (pw_inner w) (pw_runtime w) (pw_callers w)"
    by (auto simp: pinv_def)
  let ?rt = "rt_drop (bb_results b) (pw_runtime w)"
  have tasks: "rt_tasks ?rt = rt_tasks (pw_runtime w)" by (simp add: rt_drop_def)
  have "tasks_inv ?rt"
    using inv(1) b(2) by (auto simp: tasks_inv_def builder_inv_def rt_drop_def)
  moreover have "callers_inv ((pw_inner w)\<lparr>pi_batch_builder := None\<rparr>) ?rt (pw_callers w)"
    unfolding callers_inv_def
  proof (intro allI impI)
    fix n c
    assume c: "pw_callers w n = Some c"
    with inv(2) have "caller_inv (pw_inner w) (pw_runtime w) c" by (simp add: callers_inv_def)
    moreover have "\<nexists>h. pc_state c = Waiting h" using unused c unfolding in_use_def by blast
    ultimately show "caller_inv ((pw_inner w)\<lparr>pi_batch_builder := None\<rparr>) ?rt c"
      by (auto simp: caller_inv_def served_def tasks split: caller_state.splits outcome.splits)
  qed
  ultimately show ?thesis using unused b(1) by (simp add: producer_drop_def set_locked_def pinv_def)
qed

lemma pinv_pstep: "pstep ag ans w w' \<Longrightarrow> pinv w \<Longrightarrow> pinv w'"
proof (induction rule: pstep.induct)
  case (answered k w t a rt)
  have "tasks_inv (pw_runtime w)" using answered.prems by (simp add: pinv_def)
  with answered obtain rt' where "task_answered k a (pw_runtime w) = Ok rt'" "tasks_inv rt'"
    "tasks_le (pw_runtime w) rt'" "\<And>b. builder_inv b (pw_runtime w) \<Longrightarrow> builder_inv b rt'"
    by (metis task_answered_inv)
  with answered show ?case by (intro pinv_runtime) auto
next
  case (published_twice k w t a)
  have "tasks_inv (pw_runtime w)" using published_twice.prems by (simp add: pinv_def)
  with published_twice obtain rt' where "task_answered k a (pw_runtime w) = Ok rt'"
    by (metis task_answered_inv)
  with published_twice.hyps(5) show ?case by simp
next
  case (crashed k w)
  then show ?case by (intro pinv_runtime task_dropped_inv) (auto simp: pinv_def)
next
  case (aborted w k)
  then show ?case by (intro pinv_runtime task_dropped_inv) (auto simp: pinv_def)
next
  case (linger_failed w n c h e)
  with pinv_caller [OF linger_failed.prems linger_failed.hyps(1)] show ?case
    by (intro pinv_state) (auto simp: caller_inv_def)
next
  case (linger_panicked w n c h)
  with pinv_caller [OF linger_panicked.prems linger_panicked.hyps(1)] show ?case
    by (auto simp: caller_inv_def)
next
  case (cancelled w n c h)
  with pinv_caller [OF cancelled.prems cancelled.hyps(1)] show ?case
    by (intro pinv_state) (auto simp: caller_inv_def)
next
  case (flush_waited w f k ks)
  then show ?case by (auto simp: pinv_def in_use_def split: if_splits)
next
  case (flush_panicked w f k ks)
  then show ?case by (auto simp: pinv_def in_use_def split: if_splits)
next
  case (flush_returned w f)
  then show ?case by (auto simp: pinv_def in_use_def split: if_splits)
next
  case (flush_cancelled w f ks)
  then show ?case by (auto simp: pinv_def in_use_def split: if_splits)
qed (auto intro: pinv_produce pinv_linger pinv_received pinv_flush pinv_drop)

lemma pinv_reachable:
  assumes "(pstep ag ans)\<^sup>*\<^sup>* (producer_start g compr) w" and "wf g" and "contents g = []"
  shows "pinv w"
  using assms(1)
proof (induction rule: rtranclp_induct)
  case base
  show ?case using pinv_start [OF assms(2,3)] .
next
  case (step y z)
  then show ?case using pinv_pstep by blast
qed

text \<open>Each caller gets the status of its own input.\<close>

theorem caller_status:
  assumes "(pstep ag ans)\<^sup>*\<^sup>* (producer_start g compr) w" and "wf g" and "contents g = []"
    and "pw_callers w n = Some c" and "pc_state c = Returned r"
  shows "case r of
      Ok s \<Rightarrow> \<exists>t \<in> set (rt_tasks (pw_runtime w)). \<exists>offs.
        ft_state t = Answered (Inr offs) \<and> belongs (pc_input c) (ft_batch t) offs s
    | Err e \<Rightarrow> True
    | Panic p \<Rightarrow> False"
  using pinv_caller [OF pinv_reachable [OF assms(1-3)] assms(4)] assms(5)
  by (cases r) (auto simp: caller_inv_def served_def)

text \<open>No caller waits in vain: timer, task and receiver can always bring it to its end.\<close>

lemma task_caller_returns:
  assumes inv: "pinv w" and c: "pw_callers w n = Some c" "pc_state c = Waiting h"
    and k: "k < length (rt_tasks (pw_runtime w))" "ft_channel (rt_tasks (pw_runtime w) ! k) = h_receiver h"
    and total: "\<And>rs compr. \<exists>a. ans rs compr a"
  shows "\<exists>w' c' r. (pstep ag ans)\<^sup>*\<^sup>* w w' \<and> pw_callers w' n = Some c' \<and> pc_state c' = Returned r"
proof -
  have tasks: "tasks_inv (pw_runtime w)" using inv by (simp add: pinv_def)
  have returns: "\<exists>w' c' r. pstep ag ans w1 w' \<and> pw_callers w' n = Some c' \<and> pc_state c' = Returned r"
    if "pw_callers w1 n = Some c" "sh_data (rt_channels (pw_runtime w1) ! h_receiver h) = Some v" for w1 v
    using pstep.received [OF that(1) c(2) that(2), of ag ans]
    by (intro exI [of _ "set_caller n (c\<lparr>pc_state := Returned (handle_received ag h v)\<rparr>) w1"]
        exI [of _ "c\<lparr>pc_state := Returned (handle_received ag h v)\<rparr>"] exI [of _ "handle_received ag h v"])
      (simp add: set_caller_def)
  show ?thesis
  proof (cases "sh_data (rt_channels (pw_runtime w) ! h_receiver h)")
    case (Some v)
    from returns [OF c(1) this] show ?thesis by (meson r_into_rtranclp)
  next
    case None
    let ?t = "rt_tasks (pw_runtime w) ! k"
    have "?t \<in> set (rt_tasks (pw_runtime w))" using k(1) by simp
    with tasks k(2) None have "task_channel ?t None" unfolding tasks_inv_def by metis
    then have run: "ft_state ?t = Running" by (cases "ft_state ?t") (simp_all add: task_channel_def)
    obtain a where a: "ans (ft_batch ?t) (ft_compression ?t) a" using total by blast
    obtain rt' where rt': "task_answered k a (pw_runtime w) = Ok rt'"
      "sh_data (rt_channels rt' ! ft_channel ?t) = Some (Inr (write_result (ft_deagg ?t) a))"
      by (rule task_answered_inv [OF tasks k(1) refl run a])
    have step: "pstep ag ans w (w\<lparr>pw_runtime := rt'\<rparr>)"
      by (rule pstep.answered [where ans = ans, OF k(1) refl run a rt'(1)])
    from returns [of "w\<lparr>pw_runtime := rt'\<rparr>"] c(1) rt'(2) k(2) obtain w' c' r where
      "pstep ag ans (w\<lparr>pw_runtime := rt'\<rparr>) w'" "pw_callers w' n = Some c'" "pc_state c' = Returned r"
      by fastforce
    with step show ?thesis by (meson converse_rtranclp_into_rtranclp r_into_rtranclp)
  qed
qed

theorem caller_returns:
  assumes "(pstep ag ans)\<^sup>*\<^sup>* (producer_start g compr) w" and "wf g" and "contents g = []"
    and c: "pw_callers w n = Some c" "pc_state c = Waiting h"
    and total: "\<And>rs compr. \<exists>a. ans rs compr a"
  shows "\<exists>w' c' r. (pstep ag ans)\<^sup>*\<^sup>* w w' \<and> pw_callers w' n = Some c' \<and> pc_state c' = Returned r"
proof -
  have inv: "pinv w" using pinv_reachable [OF assms(1-3)] .
  from pinv_caller [OF inv c(1)] c(2) consider
      (task) t where "t \<in> set (rt_tasks (pw_runtime w))" "in_task t (pc_input c) h"
    | (in_open) "in_open (pw_inner w) (pc_input c) h"
    by (auto simp: caller_inv_def)
  then show ?thesis
  proof cases
    case task
    then obtain k where "k < length (rt_tasks (pw_runtime w))"
      "ft_channel (rt_tasks (pw_runtime w) ! k) = h_receiver h"
      by (auto simp: in_set_conv_nth in_task_def)
    with task_caller_returns [OF inv c _ _ total] show ?thesis by blast
  next
    case in_open
    have live: "\<not> pw_dropped w" using pinv_waiting [OF inv c] .
    then have locked: "locked_inv (pw_inner w) (pw_runtime w) (pw_callers w)"
      and linger: "linger_inv (pw_inner w) (pw_callers w)"
      using inv by (simp_all add: pinv_live)
    from in_open linger obtain m d where m: "pw_callers w m = Some d"
      "pc_linger d = LingerRunning (pi_flush_clock (pw_inner w))"
      by (auto simp: in_open_def linger_inv_def lingers_def)
    let ?w = "linger_call ag m d (pi_flush_clock (pw_inner w)) w"
    have step: "pstep ag ans w ?w" by (rule pstep.linger [OF m])
    then have inv': "pinv ?w" using pinv_pstep inv by blast
    obtain r i rt where fl: "inner_flush ag None (pw_inner w, pw_runtime w) = (r, i, rt)"
      by (cases "inner_flush ag None (pw_inner w, pw_runtime w)") auto
    have w: "?w = set_caller m (d\<lparr>pc_linger := linger_outcome r\<rparr>) (set_locked i rt w)"
      using fl by (simp add: linger_call_def inner_flush_def)
    then have "pw_callers ?w = (pw_callers w)(m \<mapsto> d\<lparr>pc_linger := linger_outcome r\<rparr>)"
      by (simp add: set_caller_def set_locked_def)
    with c m obtain c' where c': "pw_callers ?w n = Some c'" "pc_state c' = Waiting h"
      "pc_input c' = pc_input c"
      by (cases "m = n") auto
    have "\<not> in_open (pw_inner ?w) (pc_input c') h"
      using flush_locked(4) [OF locked fl] by (auto simp: w set_caller_def set_locked_def in_open_def)
    with pinv_caller [OF inv' c'(1)] c'(2) obtain t where
      "t \<in> set (rt_tasks (pw_runtime ?w))" "in_task t (pc_input c') h"
      by (auto simp: caller_inv_def)
    then obtain k where "k < length (rt_tasks (pw_runtime ?w))"
      "ft_channel (rt_tasks (pw_runtime ?w) ! k) = h_receiver h"
      by (auto simp: in_set_conv_nth in_task_def)
    with task_caller_returns [OF inv' c'(1,2) _ _ total] step show ?thesis
      by (meson converse_rtranclp_into_rtranclp)
  qed
qed

end

section \<open>Refinement\<close>

locale faithful_producer =
  batch_producer ag wf contents belongs flushed ans +
  faithful_aggregator ag wf contents belongs flushed inputs_of fits
  for ag :: "('g, 'i, 't, 'r, 'd, 's) aggregator" and wf contents belongs flushed
    and ans :: "'r list \<Rightarrow> Compression \<Rightarrow> client_error + i64 list \<Rightarrow> bool"
    and inputs_of :: "'r \<Rightarrow> 'i list" and fits :: "'r list \<Rightarrow> bool"
begin

definition queue :: "'g ProducerInner \<Rightarrow> ('r, 'd) runtime \<Rightarrow> 'i batch_queue" where
  "queue = queue_of inputs_of contents"

text \<open>All batches fit.\<close>

definition fits_inv :: "('r, 'd) runtime \<Rightarrow> bool" where
  "fits_inv rt \<longleftrightarrow> (\<forall>t \<in> set (rt_tasks rt). fits (ft_batch t))"

lemma queue_cong:
  "pi_batch_builder i' = pi_batch_builder i \<Longrightarrow> map ft_batch (rt_tasks rt') = map ft_batch (rt_tasks rt) \<Longrightarrow>
    queue i' rt' = queue i rt"
proof -
  assume same: "pi_batch_builder i' = pi_batch_builder i" "map ft_batch (rt_tasks rt') = map ft_batch (rt_tasks rt)"
  have q: "map (\<lambda>t. concat (map inputs_of (ft_batch t))) ts =
      map (\<lambda>rs. concat (map inputs_of rs)) (map ft_batch ts)" for ts :: "('r, 'd) flush_task list"
    by simp
  show ?thesis unfolding queue_def queue_of_def q same ..
qed

lemma fits_cong: "map ft_batch (rt_tasks rt') = map ft_batch (rt_tasks rt) \<Longrightarrow> fits_inv rt' = fits_inv rt"
  unfolding fits_inv_def by (metis (mono_tags, lifting) image_iff list.set_map)

lemma flush_queue:
  assumes "locked_inv i rt cs" and "fits_inv rt" and "inner_flush ag None (i, rt) = (r, i', rt')"
  obtains ops where "queue i' rt' = fold queue_apply ops (queue i rt)" "enqueued ops = []" "fits_inv rt'"
    "Abandon \<notin> set ops"
proof -
  from assms(1) obtain b where b: "pi_batch_builder i = Some b" "builder_inv b rt"
    by (auto simp: locked_inv_def)
  obtain b1 k rt1 where cut: "inner_flush ag None (i, rt) = (Ok (), next_batch b1 k rt1 i, rt1)"
    "contents (bb_aggregator b1) = []" "new_runtime b rt rt1 k (pi_compression i)"
    by (rule inner_flush_cut [OF b])
  with assms(3) have eqs: "i' = next_batch b1 k rt1 i" "rt' = rt1" by auto
  from cut(3) obtain rs d where rs: "flushed (contents (bb_aggregator b)) rs d"
    "rs = [] \<longrightarrow> rt_tasks rt1 = rt_tasks rt"
    "rs \<noteq> [] \<longrightarrow> (\<exists>t. rt_tasks rt1 = rt_tasks rt @ [t] \<and> ft_batch t = rs)"
    unfolding new_runtime_def by (auto split: if_splits)
  have fit: "fits rs" using flushed_fits rs(1) b(2) by (auto simp: builder_inv_def)
  show thesis
  proof (cases "rs = []")
    case True
    then have "contents (bb_aggregator b) = []" using rs(1) flush_empty by blast
    with True rs(2) cut(2) b(1) assms(2) show thesis
      by (intro that [of "[]"]) (simp_all add: queue_def queue_of_def eqs next_batch_def fits_inv_def enqueued_def)
  next
    case False
    with rs(3) obtain t where t: "rt_tasks rt1 = rt_tasks rt @ [t]" "ft_batch t = rs" by blast
    with cut(2) b(1) fit assms(2) flushed_inputs [OF rs(1)] show thesis
      by (intro that [of "[Close]"]) (auto simp: queue_def queue_of_def eqs next_batch_def fits_inv_def enqueued_def)
  qed
qed

lemma push_queue:
  assumes "locked_inv i rt cs" and "inner_push ag x i = (r, i')"
  shows "r = Ok (NoCapacity x) \<and> i' = i \<or>
    (\<exists>h. r = Ok (Aggregated h) \<and> queue i' rt = queue_apply (Enqueue x) (queue i rt))"
proof -
  from assms(1) obtain b where b: "pi_batch_builder i = Some b" "wf (bb_aggregator b)"
    by (auto simp: locked_inv_def builder_inv_def)
  with push_cases [OF b(2), of x] assms(2) show ?thesis
    by (auto simp: inner_push_def bb_try_push_def queue_def queue_of_def)
qed

lemma caller_role_queue: "caller_role h i = (role, i') \<Longrightarrow> queue i' rt = queue i rt"
  by (rule queue_cong) (auto simp: caller_role_def split: if_splits)

lemma try_push_queue:
  assumes inv: "locked_inv i rt cs" "fits_inv rt" and push: "inner_try_push ag x (i, rt) = (r, i', rt')"
  obtains ops where "queue i' rt' = fold queue_apply ops (queue i rt)" "fits_inv rt'"
    "enqueued ops = (if \<exists>role. r = Ok role then [x] else [])" "Abandon \<notin> set ops"
proof -
  obtain r1 i1 where p1: "inner_push ag x i = (r1, i1)" by (cases "inner_push ag x i")
  from push_queue [OF inv(1) p1] consider (full) "r1 = Ok (NoCapacity x)" "i1 = i"
    | (room) h where "r1 = Ok (Aggregated h)" "queue i1 rt = queue_apply (Enqueue x) (queue i rt)"
    by blast
  then show thesis
  proof cases
    case room
    obtain role i2 where role: "caller_role h i1 = (role, i2)" by (cases "caller_role h i1")
    with push p1 room have "r = Ok role" "i' = i2" "rt' = rt" by (auto simp: inner_try_push_def)
    with caller_role_queue [OF role] room(2) inv(2) show thesis
      by (intro that [of "[Enqueue x]"]) (simp_all add: enqueued_def)
  next
    case full
    obtain r2 i2 rt2 where fl: "inner_flush ag None (i, rt) = (r2, i2, rt2)"
      by (cases "inner_flush ag None (i, rt)") auto
    note cut = flush_locked [OF inv(1) fl]
    obtain ops where ops: "queue i2 rt2 = fold queue_apply ops (queue i rt)" "enqueued ops = []" "fits_inv rt2"
      "Abandon \<notin> set ops"
      by (rule flush_queue [OF inv fl])
    obtain r3 i3 where p3: "inner_push ag x i2 = (r3, i3)" by (cases "inner_push ag x i2")
    from push_queue [OF cut(2) p3] consider (large) "r3 = Ok (NoCapacity x)" "i3 = i2"
      | (room) h where "r3 = Ok (Aggregated h)" "queue i3 rt2 = queue_apply (Enqueue x) (queue i2 rt2)"
      by blast
    then show thesis
    proof cases
      case large
      with push p1 full fl cut(1) p3 have "r = Err TooLarge" "i' = i2" "rt' = rt2"
        by (auto simp: inner_try_push_def)
      with ops show thesis by (intro that [of ops]) simp_all
    next
      case room
      obtain role i4 where role: "caller_role h i3 = (role, i4)" by (cases "caller_role h i3")
      with push p1 full fl cut(1) p3 room(1) have "r = Ok role" "i' = i4" "rt' = rt2"
        by (auto simp: inner_try_push_def)
      with ops room(2) caller_role_queue [OF role] show thesis
        by (intro that [of "ops @ [Enqueue x]"]) (simp_all add: enqueued_def)
    qed
  qed
qed

text \<open>The simulation: each step of the producer is some operations of the queue.\<close>

definition simulates :: "('g, 'i, 't, 'r, 'd, 's) pworld \<Rightarrow> ('g, 'i, 't, 'r, 'd, 's) pworld \<Rightarrow> bool" where
  "simulates w w' \<longleftrightarrow> fits_inv (pw_runtime w') \<and> (\<exists>ops.
     queue (pw_inner w') (pw_runtime w') = fold queue_apply ops (queue (pw_inner w) (pw_runtime w)) \<and>
     pw_pushed w' = pw_pushed w @ enqueued ops \<and> (\<not> pw_dropped w' \<longrightarrow> Abandon \<notin> set ops))"

lemma simulates_same:
  assumes "fits_inv (pw_runtime w)" and "pi_batch_builder (pw_inner w') = pi_batch_builder (pw_inner w)"
    and "map ft_batch (rt_tasks (pw_runtime w')) = map ft_batch (rt_tasks (pw_runtime w))"
    and "pw_pushed w' = pw_pushed w"
  shows "simulates w w'"
  unfolding simulates_def
  using assms(1,4) fits_cong [OF assms(3)] queue_cong [OF assms(2,3)]
  by (auto simp: enqueued_def intro!: exI [of _ "[]"])

lemma end_task_batches: "map ft_batch (rt_tasks (end_task k st rt)) = map ft_batch (rt_tasks rt)"
  by (simp add: end_task_def map_update) (metis list_update_beyond list_update_id map_update not_le_imp_less nth_map)

lemma simulates_flush:
  assumes "pinv w" and "\<not> pw_dropped w" and "fits_inv (pw_runtime w)"
    and "inner_flush ag None (pw_inner w, pw_runtime w) = (r, i, rt)"
    and "pi_batch_builder (pw_inner w') = pi_batch_builder i" and "pw_runtime w' = rt"
    and "pw_pushed w' = pw_pushed w"
  shows "simulates w w'"
proof -
  have "locked_inv (pw_inner w) (pw_runtime w) (pw_callers w)" using assms(1,2) by (simp add: pinv_live)
  from this assms(3,4) obtain ops where ops: "queue i rt = fold queue_apply ops (queue (pw_inner w) (pw_runtime w))"
    "enqueued ops = []" "fits_inv rt" "Abandon \<notin> set ops"
    by (rule flush_queue)
  moreover have "queue (pw_inner w') rt = queue i rt" by (rule queue_cong [OF assms(5) refl])
  ultimately show ?thesis using assms(6,7) unfolding simulates_def by auto
qed

lemma simulates_produce:
  assumes "pinv w" and "\<not> pw_dropped w" and "fits_inv (pw_runtime w)"
  shows "simulates w (produce_call ag n x w)"
proof -
  obtain r i rt where push: "inner_try_push ag x (pw_inner w, pw_runtime w) = (r, i, rt)"
    by (cases "inner_try_push ag x (pw_inner w, pw_runtime w)") auto
  have "locked_inv (pw_inner w) (pw_runtime w) (pw_callers w)" using assms(1,2) by (simp add: pinv_live)
  from this assms(3) push obtain ops where ops:
    "queue i rt = fold queue_apply ops (queue (pw_inner w) (pw_runtime w))" "fits_inv rt"
    "enqueued ops = (if \<exists>role. r = Ok role then [x] else [])" "Abandon \<notin> set ops"
    by (rule try_push_queue)
  have "pw_inner (produce_call ag n x w) = i" "pw_runtime (produce_call ag n x w) = rt"
    "pw_pushed (produce_call ag n x w) = pw_pushed w @ (if \<exists>role. r = Ok role then [x] else [])"
    using push by (auto simp: produce_call_def set_caller_def set_locked_def split: outcome.splits CallerRole.splits)
  with ops show ?thesis unfolding simulates_def by auto
qed

lemma simulation:
  "pstep ag ans w w' \<Longrightarrow> pinv w \<Longrightarrow> fits_inv (pw_runtime w) \<Longrightarrow> simulates w w'"
proof (induction rule: pstep.induct)
  case (produce w n x)
  then show ?case using simulates_produce by blast
next
  case (linger w n c token)
  have live: "\<not> pw_dropped w" using pinv_lingering [OF linger.prems(1) linger.hyps] .
  show ?case
  proof (cases "token = pi_flush_clock (pw_inner w)")
    case True
    obtain r i rt where fl: "inner_flush ag None (pw_inner w, pw_runtime w) = (r, i, rt)"
      by (cases "inner_flush ag None (pw_inner w, pw_runtime w)") auto
    then have "inner_flush ag (Some token) (pw_inner w, pw_runtime w) = (r, i, rt)"
      using True by (simp add: inner_flush_def)
    then show ?thesis
      by (intro simulates_flush [OF linger.prems(1) live linger.prems(2) fl])
        (simp_all add: linger_call_def set_caller_def set_locked_def)
  next
    case False
    then show ?thesis using linger.prems(2)
      by (intro simulates_same) (simp_all add: linger_call_def inner_flush_def set_caller_def set_locked_def)
  qed
next
  case (flush w f)
  obtain r i rt where fl: "inner_flush ag None (pw_inner w, pw_runtime w) = (r, i, rt)"
    by (cases "inner_flush ag None (pw_inner w, pw_runtime w)") auto
  then show ?case
    by (intro simulates_flush [OF flush.prems(1) flush.hyps(1) flush.prems(2) fl])
      (auto simp: flush_call_def set_locked_def split: outcome.splits)
next
  case (answered k w t a rt)
  then have "map ft_batch (rt_tasks rt) = map ft_batch (rt_tasks (pw_runtime w))"
    using end_task_batches [of k "Answered a" "pw_runtime w"]
    by (auto simp: task_answered_def rt_broadcast_def Let_def)
  with answered show ?case by (intro simulates_same) simp_all
next
  case (dropped w)
  then obtain b where "pi_batch_builder (pw_inner w) = Some b" by (auto simp: pinv_def)
  with dropped.prems(2) show ?case
    unfolding simulates_def
    by (intro conjI exI [of _ "[Abandon]"])
      (simp_all add: producer_drop_def set_locked_def rt_drop_def fits_inv_def queue_def queue_of_def enqueued_def)
qed (auto intro!: simulates_same simp: set_caller_def task_dropped_def rt_drop_def end_task_batches)

lemma fits_reachable:
  assumes "(pstep ag ans)\<^sup>*\<^sup>* (producer_start g compr) w" and "wf g" and "contents g = []"
  shows "fits_inv (pw_runtime w)"
  using assms(1)
proof (induction rule: rtranclp_induct)
  case base
  show ?case by (simp add: fits_inv_def producer_start_def ProducerInner_new_def bb_new_def)
next
  case (step y z)
  then show ?case using simulation pinv_reachable [OF _ assms(2,3)] by (auto simp: simulates_def)
qed

theorem producer_refines:
  assumes "(pstep ag ans)\<^sup>*\<^sup>* (producer_start g compr) w" and "wf g" and "contents g = []"
    and "pstep ag ans w w'"
  shows "\<exists>ops. queue_of inputs_of contents (pw_inner w') (pw_runtime w') =
      fold queue_apply ops (queue_of inputs_of contents (pw_inner w) (pw_runtime w)) \<and>
    pw_pushed w' = pw_pushed w @ enqueued ops \<and> (\<not> pw_dropped w' \<longrightarrow> Abandon \<notin> set ops)"
  using simulation [OF assms(4) pinv_reachable [OF assms(1-3)] fits_reachable [OF assms(1-3)]]
  by (simp add: simulates_def queue_def)

theorem batches_fit:
  assumes "(pstep ag ans)\<^sup>*\<^sup>* (producer_start g compr) w" and "wf g" and "contents g = []"
    and "t \<in> set (rt_tasks (pw_runtime w))"
  shows "fits (ft_batch t)"
  using fits_reachable [OF assms(1-3)] assms(4) by (simp add: fits_inv_def)

lemma pstep_dropped: "pstep ag ans w w' \<Longrightarrow> pw_dropped w \<Longrightarrow> pw_dropped w'"
  by (induction rule: pstep.induct)
    (auto simp: set_caller_def linger_call_def set_locked_def split: prod.splits)

theorem inputs_in_order:
  assumes "(pstep ag ans)\<^sup>*\<^sup>* (producer_start g compr) w" and "wf g" and "contents g = []"
    and "\<not> pw_dropped w"
  shows "queue_contents (queue_of inputs_of contents (pw_inner w) (pw_runtime w)) = pw_pushed w"
  using assms(1,4)
proof (induction rule: rtranclp_induct)
  case base
  show ?case using assms(3)
    by (simp add: queue_of_def queue_contents_def producer_start_def ProducerInner_new_def bb_new_def)
next
  case (step y z)
  then have y: "\<not> pw_dropped y" using pstep_dropped by blast
  from producer_refines [OF step.hyps(1) assms(2,3) step.hyps(2)] obtain ops where
    "queue_of inputs_of contents (pw_inner z) (pw_runtime z) =
      fold queue_apply ops (queue_of inputs_of contents (pw_inner y) (pw_runtime y))"
    "pw_pushed z = pw_pushed y @ enqueued ops" "Abandon \<notin> set ops"
    using step.prems by blast
  with step.IH [OF y] show ?case by (simp add: queue_contents_apply)
qed

end

section \<open>Producing records to a partition\<close>

text \<open>\<open>PartitionClient::produce\<close> for the response that the request got.\<close>

definition produce_result :: "'ts::linorder chrono \<Rightarrow> i32 \<Rightarrow> rstring \<Rightarrow> 'ts client_record list \<Rightarrow>
    Compression \<Rightarrow> ProduceResponse \<Rightarrow> i64 list client_result" where
  "produce_result C part topic rs compr response =
     (if rs = [] then Ok []
      else bind_o (build_produce_request C part topic rs compr) (\<lambda>request.
        process_produce_response part topic (of_nat (length rs)) response))"

text \<open>What the client can answer.  The length of a vector is below \<open>2 ^ 63\<close>.\<close>

definition partition_answers :: "'ts::linorder chrono \<Rightarrow> i32 \<Rightarrow> rstring \<Rightarrow> 'ts client_record list \<Rightarrow>
    Compression \<Rightarrow> client_error + i64 list \<Rightarrow> bool" where
  "partition_answers C part topic rs compr a =
     (case a of
        Inl e \<Rightarrow> True
      | Inr offs \<Rightarrow> length rs < 2 ^ 63 \<and> (\<exists>response. produce_result C part topic rs compr response = Ok offs))"

lemma offsets_from_length: "offsets_from base x n = Ok offs \<Longrightarrow> length offs = n"
  by (induction base x n arbitrary: offs rule: offsets_from.induct) auto

lemma process_produce_length:
  "process_produce_response part topic n response = Ok offs \<Longrightarrow> length offs = nat (sint n)"
  by (auto simp: process_produce_response_def split: if_splits option.splits dest: offsets_from_length)

interpretation pc: producer_client "partition_answers C part topic"
  by unfold_locales
    (auto simp: partition_answers_def produce_result_def sint_of_nat_i64 split: if_splits
      dest!: process_produce_length)

interpretation rp: faithful_producer record_aggregator "ra_inv limit" ra_contents own_offset ra_flushed
  "partition_answers C part topic" "\<lambda>r. [r]" "batch_fits limit"
  by unfold_locales

type_synonym 'ts record_producer =
  "('ts RecordAggregator, 'ts client_record, usize, 'ts client_record, unit, i64) pworld"

text \<open>The states that a producer of records can come to.\<close>

definition producer_reaches :: "'ts::linorder chrono \<Rightarrow> i32 \<Rightarrow> rstring \<Rightarrow> usize \<Rightarrow> Compression \<Rightarrow>
    'ts record_producer \<Rightarrow> bool" where
  "producer_reaches C part topic limit compr =
     (pstep record_aggregator (partition_answers C part topic))\<^sup>*\<^sup>*
       (producer_start (RecordAggregator_new limit) compr)"

lemma ra_start: "ra_inv limit (RecordAggregator_new limit)" "ra_contents (RecordAggregator_new limit) = []"
  by (simp_all add: ra_inv_def ra_contents_def RecordAggregator_new_def)

end
