(* ===== verification/Clients.thy ===== *)
theory Clients
  imports Establish Log_Service Producer_Steps Messages_Admin
begin

text \<open>
  The clients of \<open>src/src/client/\<close>: the controller client (\<open>controller.rs\<close>), the partition client
  (\<open>partition.rs\<close>), the list of topics and the construction of a client (\<open>mod.rs\<close>).  Each of the
  two clients caches the connection to its broker and retries by its policy.

  The world of a client is its own cache, of type \<open>'b\<close>, and the connector.  Sending a request
  over a connection is a parameter, a function on that world, which theory \<open>Wire\<close> gives.
\<close>

section \<open>Retries\<close>

type_synonym ('b, 'c, 'e) client_world = "'b \<times> ('c, 'e) connector"

type_synonym ('w, 'e, 'a) action = "'w \<Rightarrow> (('e, 'a) outcome \<times> 'w) option"

text \<open>The error of an attempt, with the generation of the connection that was used.\<close>

type_synonym attempt_error = "(client_error \<times> usize option) ErrorOrThrottle"

definition on_connector :: "(('c, 'e) connector \<Rightarrow> 'r \<times> ('c, 'e) connector) \<Rightarrow>
    ('b, 'c, 'e) client_world \<Rightarrow> 'r \<times> ('b, 'c, 'e) client_world" where
  "on_connector f w = (case f (snd w) of (r, s) \<Rightarrow> (r, (fst w, s)))"

definition draw_of :: "('c, 'e) network \<Rightarrow> ('b, 'c, 'e) client_world draw" where
  "draw_of nw lo hi = on_connector (nw_draw nw lo hi)"

definition sleep_of :: "('c, 'e) network \<Rightarrow> real \<Rightarrow> ('b, 'c, 'e) client_world \<Rightarrow> ('b, 'c, 'e) client_world" where
  "sleep_of nw d w = (fst w, nw_sleep nw d (snd w))"

text \<open>The closure that both versions of \<open>maybe_retry\<close> give to the loop, for their policies.\<close>

definition retry_attempt :: "(client_error \<Rightarrow> verdict) \<Rightarrow> (usize \<Rightarrow> 'w \<Rightarrow> 'w) \<Rightarrow>
    ('w, attempt_error, 'a) action \<Rightarrow> 'w \<Rightarrow>
    ((panic + (client_error + 'a, client_error) ControlFlow) \<times> 'w) option" where
  "retry_attempt policy invalidate f w =
     (case f w of
        None \<Rightarrow> None
      | Some (Ok v, w1) \<Rightarrow> Some (Inr (Break (Inr v)), w1)
      | Some (Panic p, w1) \<Rightarrow> Some (Inl p, w1)
      | Some (Err (Throttle t), w1) \<Rightarrow> Some (Inr (Continue (Throttle t)), w1)
      | Some (Err (Error (e, cache_gen)), w1) \<Rightarrow>
          let w2 = (if v_invalidate (policy e)
                then (case cache_gen of Some gen \<Rightarrow> invalidate gen w1 | None \<Rightarrow> w1) else w1)
          in Some (Inr (if v_retry (policy e) then Continue (Error e) else Break (Inl e)), w2))"

definition maybe_retry :: "'w draw \<Rightarrow> (real \<Rightarrow> 'w \<Rightarrow> 'w) \<Rightarrow> BackoffConfig \<Rightarrow> (client_error \<Rightarrow> verdict) \<Rightarrow>
    (usize \<Rightarrow> 'w \<Rightarrow> 'w) \<Rightarrow> ('w, attempt_error, 'a) action \<Rightarrow> ('w, client_error, 'a) action" where
  "maybe_retry draw sleep config policy invalidate f w =
     map_option (\<lambda>(r, _, w1). (case r of
          Ok (Inr v) \<Rightarrow> Ok v
        | Ok (Inl e) \<Rightarrow> Err e
        | Err (DeadlineExceeded _ e) \<Rightarrow> Err (RetryFailed e)
        | Panic p \<Rightarrow> Panic p, w1))
     (retry_with_backoff draw sleep (retry_attempt policy invalidate f) (Backoff_new config) w)"

text \<open>The closures of the requests: get the broker, send, wait if throttled, look at the answer.\<close>

definition request_attempt :: "('w, client_error, 'c \<times> usize) action \<Rightarrow>
    ('c \<Rightarrow> 'w \<Rightarrow> (request_error, 'r) outcome \<times> 'w) \<Rightarrow> ('r \<Rightarrow> Int32 option) \<Rightarrow>
    ('r \<Rightarrow> 'a client_result) \<Rightarrow> ('w, attempt_error, 'a) action" where
  "request_attempt get send throttle_time process w =
     (case get w of
        None \<Rightarrow> None
      | Some (Err e, w1) \<Rightarrow> Some (Err (Error (e, None)), w1)
      | Some (Panic p, w1) \<Rightarrow> Some (Panic p, w1)
      | Some (Ok (broker, gen), w1) \<Rightarrow>
          Some (case send broker w1 of
             (Err e, w2) \<Rightarrow> (Err (Error (Request e, Some gen)), w2)
           | (Panic p, w2) \<Rightarrow> (Panic p, w2)
           | (Ok response, w2) \<Rightarrow>
               (bind_o (maybe_throttle (throttle_time response)) (\<lambda>_.
                map_err (\<lambda>e. Error (e, Some gen)) (process response)), w2)))"

section \<open>The controller client\<close>

type_synonym ('c, 'e) controller_world = "('c broker_cache, 'c, 'e) client_world"

definition get_controller_id :: "('c, 'e) network \<Rightarrow> (('c, 'e) connector, client_error, i32) action" where
  "get_controller_id nw s =
     map_option (\<lambda>(r, s1).
       (bind_o (map_err Connection r) (\<lambda>(metadata, _).
         case msr_controller_id metadata of
           Some controller_id \<Rightarrow> Ok controller_id
         | None \<Rightarrow> Err (InvalidResponse NullController)), s1))
     (request_metadata nw ArbitraryBroker (Some []) s)"

definition controller_get :: "('c, 'e) network \<Rightarrow>
    (('c, 'e) controller_world, client_error, 'c \<times> usize) action" where
  "controller_get nw w =
     (case w of (cache, s) \<Rightarrow>
       (case bc_broker cache of
          Some broker \<Rightarrow> Some (Ok (broker, bc_gen cache), w)
        | None \<Rightarrow>
            (case get_controller_id nw s of
               None \<Rightarrow> None
             | Some (Err e, s1) \<Rightarrow> Some (Err e, (cache, s1))
             | Some (Panic p, s1) \<Rightarrow> Some (Panic p, (cache, s1))
             | Some (Ok controller_id, s1) \<Rightarrow>
                 map_option (\<lambda>(r, s2). case r of
                    Ok (Some broker) \<Rightarrow>
                      let cache1 = broker_store broker cache
                      in (Ok (broker, bc_gen cache1), (cache1, s2))
                  | Ok None \<Rightarrow> (Err (InvalidResponse (NoSuchController controller_id)), (cache, s2))
                  | Err e \<Rightarrow> (Err (Connection e), (cache, s2))
                  | Panic p \<Rightarrow> (Panic p, (cache, s2)))
                 (connector_connect nw controller_id s1))))"

definition controller_invalidate :: "usize \<Rightarrow> ('c, 'e) controller_world \<Rightarrow> ('c, 'e) controller_world" where
  "controller_invalidate gen w = (broker_invalidate gen (fst w), snd w)"

definition controller_retry :: "('c, 'e) network \<Rightarrow> BackoffConfig \<Rightarrow>
    (('c, 'e) controller_world, attempt_error, 'a) action \<Rightarrow> (('c, 'e) controller_world, client_error, 'a) action" where
  "controller_retry nw config = maybe_retry (draw_of nw) (sleep_of nw) config controller_verdict controller_invalidate"

definition create_topic_request :: "rstring \<Rightarrow> i32 \<Rightarrow> i16 \<Rightarrow> i32 \<Rightarrow> CreateTopicsRequest" where
  "create_topic_request name num_partitions replication_factor timeout_ms =
     \<lparr>ctq_topics = [\<lparr>ctr_name = name, ctr_num_partitions = num_partitions,
        ctr_replication_factor = replication_factor, ctr_assignments = [], ctr_configs = [],
        ctr_tagged_fields = None\<rparr>],
      ctq_timeout_ms = timeout_ms, ctq_validate_only = None, ctq_tagged_fields = None\<rparr>"

definition delete_topic_request :: "rstring \<Rightarrow> i32 \<Rightarrow> DeleteTopicsRequest" where
  "delete_topic_request name timeout_ms =
     \<lparr>dtq_topic_names = Some [name], dtq_timeout_ms = timeout_ms, dtq_tagged_fields = None\<rparr>"

text \<open>The outcome for the one topic of a response.\<close>

definition topic_result :: "Error option \<Rightarrow> rstring option option \<Rightarrow> rstring \<Rightarrow> unit client_result" where
  "topic_result err message name =
     (case err of
        None \<Rightarrow> Ok ()
      | Some e \<Rightarrow> Err (ServerError e (Option.bind message id) (OfTopic name) None False))"

definition process_create_topics :: "CreateTopicsResponse \<Rightarrow> unit client_result" where
  "process_create_topics response =
     bind_o (only_one NotOneTopic (cts_topics response)) (\<lambda>t.
     topic_result (ctp_error t) (ctp_error_message t) (ctp_name t))"

definition process_delete_topics :: "DeleteTopicsResponse \<Rightarrow> unit client_result" where
  "process_delete_topics response =
     bind_o (only_one NotOneTopic (dtr_responses response)) (\<lambda>t.
     topic_result (dtt_error t) (dtt_error_message t) (dtt_name t))"

text \<open>A change of topics is followed by a refresh, the result of which is not looked at.\<close>

definition then_refresh :: "('c, 'e) network \<Rightarrow> (('c, 'e) controller_world, client_error, unit) action \<Rightarrow>
    (('c, 'e) controller_world, client_error, unit) action" where
  "then_refresh nw f w =
     (case f w of
        None \<Rightarrow> None
      | Some (Ok _, (cache, s)) \<Rightarrow>
          (case refresh_metadata nw s of
             None \<Rightarrow> None
           | Some (Panic p, s1) \<Rightarrow> Some (Panic p, (cache, s1))
           | Some (_, s1) \<Rightarrow> Some (Ok (), (cache, s1)))
      | Some (Err e, w1) \<Rightarrow> Some (Err e, w1)
      | Some (Panic p, w1) \<Rightarrow> Some (Panic p, w1))"

definition create_topic :: "('c, 'e) network \<Rightarrow> BackoffConfig \<Rightarrow>
    ('c \<Rightarrow> CreateTopicsRequest \<Rightarrow> ('c, 'e) controller_world \<Rightarrow>
       (request_error, CreateTopicsResponse) outcome \<times> ('c, 'e) controller_world) \<Rightarrow>
    rstring \<Rightarrow> i32 \<Rightarrow> i16 \<Rightarrow> i32 \<Rightarrow> (('c, 'e) controller_world, client_error, unit) action" where
  "create_topic nw config send name num_partitions replication_factor timeout_ms =
     then_refresh nw (controller_retry nw config
       (request_attempt (controller_get nw)
          (\<lambda>broker. send broker (create_topic_request name num_partitions replication_factor timeout_ms))
          cts_throttle_time_ms process_create_topics))"

definition delete_topic :: "('c, 'e) network \<Rightarrow> BackoffConfig \<Rightarrow>
    ('c \<Rightarrow> DeleteTopicsRequest \<Rightarrow> ('c, 'e) controller_world \<Rightarrow>
       (request_error, DeleteTopicsResponse) outcome \<times> ('c, 'e) controller_world) \<Rightarrow>
    rstring \<Rightarrow> i32 \<Rightarrow> (('c, 'e) controller_world, client_error, unit) action" where
  "delete_topic nw config send name timeout_ms =
     then_refresh nw (controller_retry nw config
       (request_attempt (controller_get nw) (\<lambda>broker. send broker (delete_topic_request name timeout_ms))
          dtr_throttle_time_ms process_delete_topics))"

section \<open>The partition client\<close>

record 'c CurrentBroker =
  cb_broker :: "'c option"
  cb_gen_broker :: usize
  cb_gen_leader_from_arbitrary :: "usize option"
  cb_gen_leader_from_self :: "usize option"

definition current_broker_start :: "'c CurrentBroker" where
  "current_broker_start = \<lparr>cb_broker = None, cb_gen_broker = 0, cb_gen_leader_from_arbitrary = None,
     cb_gen_leader_from_self = None\<rparr>"

type_synonym ('c, 'e) partition_world = "('c CurrentBroker, 'c, 'e) client_world"

text \<open>The leader of the partition by a metadata response.\<close>

definition leader_of :: "rstring \<Rightarrow> i32 \<Rightarrow> MetadataResponse \<Rightarrow> i32 client_result" where
  "leader_of topic part metadata =
     bind_o (only_one NotOneTopic (msr_topics metadata)) (\<lambda>t.
       if mst_name t \<noteq> topic then Err (InvalidResponse (OtherTopic topic (mst_name t)))
       else case mst_error t of
         Some e \<Rightarrow> Err (ServerError e None (OfTopic topic) None False)
       | None \<Rightarrow>
           (case find (\<lambda>p. mrp_partition_index p = part) (mst_partitions t) of
              None \<Rightarrow> Err (InvalidResponse (NoSuchPartition part topic))
            | Some p \<Rightarrow>
                (case mrp_error p of
                   Some e \<Rightarrow> Err (ServerError e None (OfPartition topic part) None False)
                 | None \<Rightarrow>
                     if mrp_leader_id p = -1
                     then Err (ServerError LeaderNotAvailable None (OfPartition topic part) None True)
                     else Ok (mrp_leader_id p))))"

definition get_leader :: "('c, 'e) network \<Rightarrow> rstring \<Rightarrow> i32 \<Rightarrow> 'c MetadataLookupMode \<Rightarrow>
    (('c, 'e) connector, client_error, i32 \<times> usize option) action" where
  "get_leader nw topic part mode s =
     map_option (\<lambda>(r, s1).
       (bind_o (map_err Connection r) (\<lambda>(metadata, gen).
        bind_o (leader_of topic part metadata) (\<lambda>leader. Ok (leader, gen))), s1))
     (request_metadata nw mode (Some [topic]) s)"

definition forget_metadata :: "usize option \<Rightarrow> ('c, 'e) connector \<Rightarrow> ('c, 'e) connector" where
  "forget_metadata gen s = (case gen of Some g \<Rightarrow> invalidate_metadata_cache g s | None \<Rightarrow> s)"

text \<open>Connecting to the leader that the metadata names, and asking it whether it is.\<close>

definition connect_leader :: "('c, 'e) network \<Rightarrow> rstring \<Rightarrow> i32 \<Rightarrow>
    (('c, 'e) connector, client_error, 'c \<times> usize option \<times> usize option) action" where
  "connect_leader nw topic part s =
     (case get_leader nw topic part CachedArbitrary s of
        None \<Rightarrow> None
      | Some (Err e, s1) \<Rightarrow> Some (Err e, s1)
      | Some (Panic p, s1) \<Rightarrow> Some (Panic p, s1)
      | Some (Ok (leader, gen_arbitrary), s1) \<Rightarrow>
          (case connector_connect nw leader s1 of
             None \<Rightarrow> None
           | Some (Ok None, s2) \<Rightarrow> Some (Err (InvalidResponse (NoSuchLeader leader)), forget_metadata gen_arbitrary s2)
           | Some (Err e, s2) \<Rightarrow> Some (Err (Connection e), forget_metadata gen_arbitrary s2)
           | Some (Panic p, s2) \<Rightarrow> Some (Panic p, s2)
           | Some (Ok (Some broker), s2) \<Rightarrow>
               (case get_leader nw topic part (SpecificBroker broker) s2 of
                  None \<Rightarrow> None
                | Some (Err e, s3) \<Rightarrow> Some (Err e, s3)
                | Some (Panic p, s3) \<Rightarrow> Some (Panic p, s3)
                | Some (Ok (leader_self, gen_self), s3) \<Rightarrow>
                    if leader \<noteq> leader_self
                    then Some (Err (ServerError NotLeaderOrFollower None (OfPartition topic part)
                      (Some (LeaderForward leader leader_self)) True), forget_metadata gen_self s3)
                    else Some (Ok (broker, gen_arbitrary, gen_self), s3))))"

definition partition_store :: "'c \<Rightarrow> usize option \<Rightarrow> usize option \<Rightarrow> 'c CurrentBroker \<Rightarrow> 'c CurrentBroker" where
  "partition_store broker gen_arbitrary gen_self b =
     \<lparr>cb_broker = Some broker, cb_gen_broker = cb_gen_broker b + 1,
      cb_gen_leader_from_arbitrary = gen_arbitrary, cb_gen_leader_from_self = gen_self\<rparr>"

definition partition_get :: "('c, 'e) network \<Rightarrow> rstring \<Rightarrow> i32 \<Rightarrow>
    (('c, 'e) partition_world, client_error, 'c \<times> usize) action" where
  "partition_get nw topic part w =
     (case w of (b, s) \<Rightarrow>
       (case cb_broker b of
          Some broker \<Rightarrow> Some (Ok (broker, cb_gen_broker b), w)
        | None \<Rightarrow>
            map_option (\<lambda>(r, s1). case r of
               Ok (broker, gen_arbitrary, gen_self) \<Rightarrow>
                 let b1 = partition_store broker gen_arbitrary gen_self b
                 in (Ok (broker, cb_gen_broker b1), (b1, s1))
             | Err e \<Rightarrow> (Err e, (b, s1))
             | Panic p \<Rightarrow> (Panic p, (b, s1)))
            (connect_leader nw topic part s)))"

definition partition_invalidate :: "usize \<Rightarrow> ('c, 'e) partition_world \<Rightarrow> ('c, 'e) partition_world" where
  "partition_invalidate gen w =
     (case w of (b, s) \<Rightarrow>
       if cb_gen_broker b \<noteq> gen then (b, s)
       else (b\<lparr>cb_broker := None\<rparr>,
         forget_metadata (cb_gen_leader_from_self b) (forget_metadata (cb_gen_leader_from_arbitrary b) s)))"

text \<open>The settings of a partition client.\<close>

record partition_client =
  pcl_topic :: rstring
  pcl_partition :: i32
  pcl_backoff_config :: BackoffConfig
  pcl_unknown_topic_handling :: UnknownTopicHandling

definition partition_retry :: "('c, 'e) network \<Rightarrow> partition_client \<Rightarrow>
    (('c, 'e) partition_world, attempt_error, 'a) action \<Rightarrow> (('c, 'e) partition_world, client_error, 'a) action" where
  "partition_retry nw pcl =
     maybe_retry (draw_of nw) (sleep_of nw) (pcl_backoff_config pcl)
       (partition_verdict (pcl_unknown_topic_handling pcl)) partition_invalidate"

definition partition_request :: "('c, 'e) network \<Rightarrow> partition_client \<Rightarrow>
    ('c \<Rightarrow> ('c, 'e) partition_world \<Rightarrow> (request_error, 'r) outcome \<times> ('c, 'e) partition_world) \<Rightarrow>
    ('r \<Rightarrow> Int32 option) \<Rightarrow> ('r \<Rightarrow> 'a client_result) \<Rightarrow>
    (('c, 'e) partition_world, client_error, 'a) action" where
  "partition_request nw pcl send throttle_time process =
     partition_retry nw pcl
       (request_attempt (partition_get nw (pcl_topic pcl) (pcl_partition pcl)) send throttle_time process)"

text \<open>A computation behind an action.\<close>

definition and_then :: "('w, 'e, 'a) action \<Rightarrow> ('a \<Rightarrow> ('e, 'b) outcome) \<Rightarrow> ('w, 'e, 'b) action" where
  "and_then f g w = map_option (\<lambda>(r, w1). (bind_o r g, w1)) (f w)"

text \<open>\<open>PartitionClient::new\<close>; the cache that its \<open>maybe_retry\<close> invalidates is the arbitrary broker.\<close>

definition partition_client_new :: "('c, 'e) network \<Rightarrow> partition_client \<Rightarrow> ('c, 'e) connector \<Rightarrow>
    ((client_error, unit) outcome \<times> ('c, 'e) partition_world) option" where
  "partition_client_new nw pcl s =
     maybe_retry (draw_of nw) (sleep_of nw) (pcl_backoff_config pcl)
       (partition_verdict (pcl_unknown_topic_handling pcl))
       (\<lambda>gen w. (fst w, arbitrary_invalidate gen (snd w)))
       (\<lambda>w. map_option (\<lambda>(r, w1). (bind_o (map_err (\<lambda>e. Error (e, None)) r) (\<lambda>_. Ok ()), w1))
          (partition_get nw (pcl_topic pcl) (pcl_partition pcl) w))
       (current_broker_start, s)"

definition partition_produce :: "('c, 'e) network \<Rightarrow> 'ts::linorder chrono \<Rightarrow> partition_client \<Rightarrow>
    ('c \<Rightarrow> ProduceRequest \<Rightarrow> ('c, 'e) partition_world \<Rightarrow>
       (request_error, ProduceResponse) outcome \<times> ('c, 'e) partition_world) \<Rightarrow>
    'ts client_record list \<Rightarrow> Compression \<Rightarrow> (('c, 'e) partition_world, client_error, i64 list) action" where
  "partition_produce nw C pcl send rs compr w =
     (if rs = [] then Some (Ok [], w)
      else case build_produce_request C (pcl_partition pcl) (pcl_topic pcl) rs compr of
        Ok request \<Rightarrow>
          partition_request nw pcl (\<lambda>broker. send broker request) psr_throttle_time_ms
            (process_produce_response (pcl_partition pcl) (pcl_topic pcl) (of_nat (length rs))) w
      | Err e \<Rightarrow> Some (Err e, w)
      | Panic p \<Rightarrow> Some (Panic p, w))"

definition partition_fetch :: "('c, 'e) network \<Rightarrow> 'ts chrono \<Rightarrow> partition_client \<Rightarrow>
    ('c \<Rightarrow> FetchRequest \<Rightarrow> ('c, 'e) partition_world \<Rightarrow>
       (request_error, FetchResponse) outcome \<times> ('c, 'e) partition_world) \<Rightarrow>
    i64 \<Rightarrow> i32 \<times> i32 \<Rightarrow> i32 \<Rightarrow>
    (('c, 'e) partition_world, client_error, 'ts RecordAndOffset list \<times> i64) action" where
  "partition_fetch nw C pcl send offset bytes max_wait_ms =
     and_then (partition_request nw pcl
       (\<lambda>broker. send broker
          (build_fetch_request offset bytes max_wait_ms (pcl_partition pcl) (pcl_topic pcl)))
       fsr_throttle_time_ms
       (\<lambda>response. process_fetch_response (pcl_partition pcl) (pcl_topic pcl) response offset))
     (\<lambda>p. bind_o (extract_records C (fsp_records p) offset) (\<lambda>rs. Ok (rs, fsp_high_watermark p)))"

definition partition_get_offset :: "('c, 'e) network \<Rightarrow> partition_client \<Rightarrow>
    ('c \<Rightarrow> ListOffsetsRequest \<Rightarrow> ('c, 'e) partition_world \<Rightarrow>
       (request_error, ListOffsetsResponse) outcome \<times> ('c, 'e) partition_world) \<Rightarrow>
    OffsetAt \<Rightarrow> (('c, 'e) partition_world, client_error, i64) action" where
  "partition_get_offset nw pcl send which =
     and_then (partition_request nw pcl
       (\<lambda>broker. send broker (build_list_offsets_request (pcl_partition pcl) (pcl_topic pcl) which))
       lsr_throttle_time_ms (process_list_offsets_response (pcl_partition pcl) (pcl_topic pcl)))
     extract_offset"

definition partition_delete_records :: "('c, 'e) network \<Rightarrow> partition_client \<Rightarrow>
    ('c \<Rightarrow> DeleteRecordsRequest \<Rightarrow> ('c, 'e) partition_world \<Rightarrow>
       (request_error, DeleteRecordsResponse) outcome \<times> ('c, 'e) partition_world) \<Rightarrow>
    i64 \<Rightarrow> i32 \<Rightarrow> (('c, 'e) partition_world, client_error, unit) action" where
  "partition_delete_records nw pcl send offset timeout_ms =
     and_then (partition_request nw pcl
       (\<lambda>broker. send broker
          (build_delete_records_request offset timeout_ms (pcl_topic pcl) (pcl_partition pcl)))
       (\<lambda>response. Some (dsr_throttle_time_ms response))
       (process_delete_records_response (pcl_topic pcl) (pcl_partition pcl)))
     (\<lambda>_. Ok ())"

section \<open>The client\<close>

record Topic =
  tp_name :: rstring
  tp_partitions :: "i32 list"

text \<open>A \<open>BTreeSet\<close> of signed numbers is the list of its elements in order.\<close>

definition btree_set :: "i32 list \<Rightarrow> i32 list" where
  "btree_set xs = map word_of_int (sorted_list_of_set (sint ` set xs))"

definition list_topics :: "('c, 'e) network \<Rightarrow> (('c, 'e) connector, client_error, Topic list) action" where
  "list_topics nw s =
     map_option (\<lambda>(r, s1).
       (bind_o (map_err Connection r) (\<lambda>(response, _).
         Ok (map (\<lambda>t. \<lparr>tp_name = mst_name t, tp_partitions = btree_set (map mrp_partition_index (mst_partitions t))\<rparr>)
           (filter (\<lambda>t. mst_is_internal t \<noteq> Some True) (msr_topics response)))), s1))
     (request_metadata nw ArbitraryBroker None s)"

record ClientBuilder =
  clb_bootstrap_brokers :: "rstring list"
  clb_client_id :: "rstring option"
  clb_max_message_size :: usize
  clb_socks5_proxy :: "rstring option"
  clb_tls_config :: "ClientConfig option"
  clb_sasl_config :: "SaslConfig option"
  clb_backoff_config :: BackoffConfig

definition ClientBuilder_new :: "rstring list \<Rightarrow> ClientBuilder" where
  "ClientBuilder_new bootstrap_brokers =
     \<lparr>clb_bootstrap_brokers = bootstrap_brokers, clb_client_id = None,
      clb_max_message_size = 100 * 1024 * 1024, clb_socks5_proxy = None, clb_tls_config = None,
      clb_sasl_config = None, clb_backoff_config = default_backoff\<rparr>"

definition with_client_id :: "rstring \<Rightarrow> ClientBuilder \<Rightarrow> ClientBuilder" where
  "with_client_id x b = b\<lparr>clb_client_id := Some x\<rparr>"

definition with_max_message_size :: "usize \<Rightarrow> ClientBuilder \<Rightarrow> ClientBuilder" where
  "with_max_message_size x b = b\<lparr>clb_max_message_size := x\<rparr>"

definition with_backoff_config :: "BackoffConfig \<Rightarrow> ClientBuilder \<Rightarrow> ClientBuilder" where
  "with_backoff_config x b = b\<lparr>clb_backoff_config := x\<rparr>"

definition with_socks5_proxy :: "rstring \<Rightarrow> ClientBuilder \<Rightarrow> ClientBuilder" where
  "with_socks5_proxy x b = b\<lparr>clb_socks5_proxy := Some x\<rparr>"

definition with_tls_config :: "ClientConfig \<Rightarrow> ClientBuilder \<Rightarrow> ClientBuilder" where
  "with_tls_config x b = b\<lparr>clb_tls_config := Some x\<rparr>"

definition with_sasl_config :: "SaslConfig \<Rightarrow> ClientBuilder \<Rightarrow> ClientBuilder" where
  "with_sasl_config x b = b\<lparr>clb_sasl_config := Some x\<rparr>"

text \<open>The name of the package.\<close>

definition DEFAULT_CLIENT_ID :: rstring where
  "DEFAULT_CLIENT_ID = str ''rskafka''"

definition builder_settings :: "ClientBuilder \<Rightarrow> connection_settings" where
  "builder_settings b =
     \<lparr>st_client_id = (case clb_client_id b of Some x \<Rightarrow> x | None \<Rightarrow> DEFAULT_CLIENT_ID),
      st_tls_config = clb_tls_config b, st_socks5_proxy = clb_socks5_proxy b,
      st_sasl_config = clb_sasl_config b, st_max_message_size = clb_max_message_size b\<rparr>"

text \<open>\<open>ClientBuilder::build\<close>: a new connector, with fresh metadata.\<close>

definition build_client :: "('c, 'e) network \<Rightarrow> ClientBuilder \<Rightarrow> 'e \<Rightarrow>
    ((client_error, unit) outcome \<times> ('c, 'e) connector) option" where
  "build_client nw b e =
     map_option (\<lambda>(r, s1). (map_err Connection r, s1))
     (refresh_metadata nw
       (connector_new (clb_bootstrap_brokers b) (builder_settings b) (clb_backoff_config b) e))"

text \<open>\<open>Client::controller_client\<close> and \<open>Client::partition_client\<close>; the configuration for backoffs is
  that of the connector.\<close>

definition client_controller :: "('c, 'e) connector \<Rightarrow> ('c, 'e) controller_world" where
  "client_controller s = (broker_cache_start, s)"

definition client_partition :: "('c, 'e) network \<Rightarrow> rstring \<Rightarrow> i32 \<Rightarrow> UnknownTopicHandling \<Rightarrow>
    ('c, 'e) connector \<Rightarrow> ((client_error, unit) outcome \<times> ('c, 'e) partition_world) option" where
  "client_partition nw topic part unknown_topic_handling s =
     partition_client_new nw \<lparr>pcl_topic = topic, pcl_partition = part,
       pcl_backoff_config = cn_backoff_config s,
       pcl_unknown_topic_handling = unknown_topic_handling\<rparr> s"

text \<open>\<open>BatchProducerBuilder\<close>.  The linger time, in seconds, is only stored: the model lets a timer
  fire at any moment.\<close>

record BatchProducerBuilder =
  pb_linger :: real
  pb_compression :: Compression

definition producer_builder :: BatchProducerBuilder where
  "producer_builder = \<lparr>pb_linger = 5 / 1000, pb_compression = CNone\<rparr>"

definition with_linger :: "real \<Rightarrow> BatchProducerBuilder \<Rightarrow> BatchProducerBuilder" where
  "with_linger x b = b\<lparr>pb_linger := x\<rparr>"

definition with_compression :: "Compression \<Rightarrow> BatchProducerBuilder \<Rightarrow> BatchProducerBuilder" where
  "with_compression x b = b\<lparr>pb_compression := x\<rparr>"

definition build_producer :: "BatchProducerBuilder \<Rightarrow> 'g \<Rightarrow> ('g, 'i, 't, 'r, 'd, 's) pworld" where
  "build_producer b g = producer_start g (pb_compression b)"

section \<open>What the operations return\<close>

text \<open>A loop returns what its last attempt broke off with, or the error of it.\<close>

definition attempt_ends :: "('w \<Rightarrow> ((panic + ('b, 'x) ControlFlow) \<times> 'w) option) \<Rightarrow>
    ('x BackoffError, 'b) outcome \<Rightarrow> bool" where
  "attempt_ends f r =
     (case r of
        Ok v \<Rightarrow> \<exists>w1 w2. f w1 = Some (Inr (Break v), w2)
      | Err (DeadlineExceeded _ e) \<Rightarrow> \<exists>w1 w2. f w1 = Some (Inr (Continue (Error e)), w2)
      | Panic p \<Rightarrow> True)"

lemma attempt_ends_intros:
  "f w1 = Some (Inr (Break v), w2) \<Longrightarrow> attempt_ends f (Ok v)"
  "f w1 = Some (Inr (Continue (Error e)), w2) \<Longrightarrow> attempt_ends f (Err (DeadlineExceeded d e))"
  "attempt_ends f (Panic p)"
  unfolding attempt_ends_def by auto

lemma retry_ends:
  fixes draw :: "'w draw" and f :: "'w \<Rightarrow> ((panic + ('b, 'x) ControlFlow) \<times> 'w) option"
  assumes "retry_with_backoff draw sleep f b w = Some (r, b', w')"
  shows "attempt_ends f r"
proof -
  have "attempt_ends f (fst (r, b', w'))"
    using assms
  proof (rule retry_with_backoff.raw_induct [where P = "\<lambda>draw sleep f b w y. attempt_ends f (fst y)", rotated])
    fix retry and draw :: "'w draw" and sleep
      and f :: "'w \<Rightarrow> ((panic + ('b, 'x) ControlFlow) \<times> 'w) option" and b w y
    assume IH: "\<And>draw sleep f b w y. retry draw sleep f b w = Some y \<Longrightarrow> attempt_ends f (fst y)"
      and body: "(case f w of
        None \<Rightarrow> None
      | Some (r, w1) \<Rightarrow>
          (case r of
             Inl p \<Rightarrow> Some (Panic p, b, w1)
           | Inr (Break v) \<Rightarrow> Some (Ok v, b, w1)
           | Inr (Continue (Error e)) \<Rightarrow>
               (case next_interval draw b w1 of
                  (Inr (Some backoff), b2, w2) \<Rightarrow> retry draw sleep f b2 (sleep backoff w2)
                | (Inr None, b2, w2) \<Rightarrow>
                    (case bo_deadline b2 of
                       Some deadline \<Rightarrow> Some (Err (DeadlineExceeded deadline e), b2, w2)
                     | None \<Rightarrow> Some (Panic ExpectFailed, b2, w2))
                | (Inl p, b2, w2) \<Rightarrow> Some (Panic p, b2, w2))
           | Inr (Continue (Throttle millis)) \<Rightarrow>
               retry draw sleep f b (sleep (real millis / 1000) w1))) = Some y"
    show "attempt_ends f (fst y)"
      using body by (auto split: option.splits prod.splits sum.splits ControlFlow.splits
          ErrorOrThrottle.splits intro: attempt_ends_intros dest: IH)
  qed
  then show ?thesis by simp
qed

lemma retry_attempt_ends:
  "retry_attempt policy invalidate f w = Some (Inr (Break (Inr v)), w') \<Longrightarrow> \<exists>w1. f w = Some (Ok v, w1)"
  "retry_attempt policy invalidate f w = Some (Inr (Break (Inl e)), w') \<Longrightarrow>
    \<not> v_retry (policy e) \<and> (\<exists>w1 gen. f w = Some (Err (Error (e, gen)), w1))"
  "retry_attempt policy invalidate f w = Some (Inr (Continue (Error e)), w') \<Longrightarrow>
    v_retry (policy e) \<and> (\<exists>w1 gen. f w = Some (Err (Error (e, gen)), w1))"
  by (auto simp: retry_attempt_def Let_def split: option.splits prod.splits outcome.splits
      ErrorOrThrottle.splits if_splits)

lemma maybe_retry_ends:
  assumes "maybe_retry draw sleep config policy invalidate f w = Some (r, w')"
  shows "(\<forall>v. r = Ok v \<longrightarrow> (\<exists>w1 w2. f w1 = Some (Ok v, w2))) \<and>
    (\<forall>e. r = Err e \<longrightarrow>
       (\<exists>w1 w2 gen. f w1 = Some (Err (Error (e, gen)), w2) \<and> \<not> v_retry (policy e)) \<or>
       (\<exists>e' w1 w2 gen. e = RetryFailed e' \<and> f w1 = Some (Err (Error (e', gen)), w2) \<and> v_retry (policy e')))"
proof -
  from assms obtain r' b' where r': "retry_with_backoff draw sleep (retry_attempt policy invalidate f)
      (Backoff_new config) w = Some (r', b', w')"
    "r = (case r' of
          Ok (Inr v) \<Rightarrow> Ok v
        | Ok (Inl e) \<Rightarrow> Err e
        | Err (DeadlineExceeded _ e) \<Rightarrow> Err (RetryFailed e)
        | Panic p \<Rightarrow> Panic p)"
    by (auto simp: maybe_retry_def)
  note ends = retry_ends [OF r'(1)]
  show ?thesis
  proof (cases r')
    case (Ok x)
    with ends obtain w1 w2 where at: "retry_attempt policy invalidate f w1 = Some (Inr (Break x), w2)"
      by (auto simp: attempt_ends_def)
    show ?thesis
    proof (cases x)
      case (Inl e)
      with Ok r'(2) have "r = Err e" by simp
      with retry_attempt_ends(2) [OF at [unfolded Inl]] show ?thesis by blast
    next
      case (Inr v)
      with Ok r'(2) have "r = Ok v" by simp
      with retry_attempt_ends(1) [OF at [unfolded Inr]] show ?thesis by blast
    qed
  next
    case (Err x)
    obtain d e where x: "x = DeadlineExceeded d e" by (cases x)
    with Err ends obtain w1 w2 where at: "retry_attempt policy invalidate f w1 = Some (Inr (Continue (Error e)), w2)"
      by (auto simp: attempt_ends_def)
    from Err x r'(2) have "r = Err (RetryFailed e)" by simp
    with retry_attempt_ends(3) [OF at] show ?thesis by blast
  qed (use r'(2) in simp)
qed

lemma request_attempt_Ok:
  assumes "request_attempt get send throttle_time process w = Some (Ok v, w')"
  shows "\<exists>broker gen w1 response. get w = Some (Ok (broker, gen), w1) \<and>
    send broker w1 = (Ok response, w') \<and> process response = Ok v"
  using assms by (auto simp: request_attempt_def split: option.splits prod.splits outcome.splits)

text \<open>The answers of the partition client come from responses of the broker.\<close>

lemma partition_request_Ok:
  assumes "partition_request nw pcl send throttle_time process w = Some (Ok v, w')"
  shows "\<exists>broker w1 w2 response. send broker w1 = (Ok response, w2) \<and> process response = Ok v"
proof -
  from assms maybe_retry_ends obtain w1 w2 where
    "request_attempt (partition_get nw (pcl_topic pcl) (pcl_partition pcl)) send throttle_time process w1 =
      Some (Ok v, w2)"
    unfolding partition_request_def partition_retry_def by meson
  from request_attempt_Ok [OF this] show ?thesis by blast
qed

lemma produce_Ok_result:
  assumes "partition_produce nw C pcl send rs compr w = Some (Ok offs, w')"
  shows "\<exists>response. produce_result C (pcl_partition pcl) (pcl_topic pcl) rs compr response = Ok offs"
proof (cases "rs = []")
  case True
  with assms show ?thesis by (simp add: partition_produce_def produce_result_def)
next
  case False
  with assms obtain request where "build_produce_request C (pcl_partition pcl) (pcl_topic pcl) rs compr = Ok request"
    "partition_request nw pcl (\<lambda>broker. send broker request) psr_throttle_time_ms
      (process_produce_response (pcl_partition pcl) (pcl_topic pcl) (of_nat (length rs))) w = Some (Ok offs, w')"
    by (auto simp: partition_produce_def split: outcome.splits)
  with partition_request_Ok [OF this(2)] False show ?thesis by (auto simp: produce_result_def)
qed

lemma fetch_Ok_result:
  assumes "partition_fetch nw C pcl send off bytes max_wait w = Some (Ok (rs, hw), w')"
  shows "\<exists>broker w1 w2 response.
    send broker (build_fetch_request off bytes max_wait (pcl_partition pcl) (pcl_topic pcl)) w1 = (Ok response, w2) \<and>
    fetch_result C (pcl_partition pcl) (pcl_topic pcl) off response = Ok (rs, hw)"
proof -
  from assms obtain p where "partition_request nw pcl
      (\<lambda>broker. send broker (build_fetch_request off bytes max_wait (pcl_partition pcl) (pcl_topic pcl)))
      fsr_throttle_time_ms
      (\<lambda>response. process_fetch_response (pcl_partition pcl) (pcl_topic pcl) response off) w = Some (Ok p, w')"
    "extract_records C (fsp_records p) off = Ok rs" "hw = fsp_high_watermark p"
    by (auto simp: partition_fetch_def and_then_def)
  with partition_request_Ok [OF this(1)] show ?thesis by (fastforce simp: fetch_result_def)
qed

lemma produce_Err_result:
  assumes "partition_produce nw C pcl send rs compr w = Some (Err err, w')"
  shows "\<exists>e. (err = e \<and> \<not> v_retry (partition_verdict (pcl_unknown_topic_handling pcl) e)) \<or>
    (err = RetryFailed e \<and> v_retry (partition_verdict (pcl_unknown_topic_handling pcl) e))"
proof -
  have "build_produce_request C (pcl_partition pcl) (pcl_topic pcl) rs compr \<noteq> Err err"
    by (auto simp: build_produce_request_def produce_batch_def bind_o_Err_iff sub_panic_def Let_def
        split: list.splits)
  with assms obtain request where "partition_request nw pcl (\<lambda>broker. send broker request) psr_throttle_time_ms
      (process_produce_response (pcl_partition pcl) (pcl_topic pcl) (of_nat (length rs))) w = Some (Err err, w')"
    by (auto simp: partition_produce_def split: if_splits outcome.splits)
  with maybe_retry_ends show ?thesis unfolding partition_request_def partition_retry_def by metis
qed

section \<open>The leader\<close>

lemma request_metadata_gen:
  assumes "request_metadata nw (SpecificBroker broker) topics s = Some (Ok (m, gen), s')"
  shows "gen = None"
proof -
  from assms obtain r s2 where "metadata_request_with_retry nw (SpecificBroker broker)
      (metadata_request topics) (Backoff_new (cn_backoff_config s)) s = Some (r, s2)"
    and "(case r of
        Ok response \<Rightarrow> (Ok (response, None), remember_response (metadata_request topics) response s2)
      | Err e \<Rightarrow> (Err e, s2)
      | Panic p \<Rightarrow> (Panic p, s2)) = (Ok (m, gen), s')"
    by (auto simp: request_metadata_def Let_def)
  then show ?thesis by (cases r) auto
qed

lemma connect_leader_Ok:
  assumes "connect_leader nw topic part s = Some (Ok (broker, ga, gs), s')"
  obtains leader b s1 s2 m s3 where
    "get_leader nw topic part CachedArbitrary s = Some (Ok (leader, ga), s1)"
    "get_broker (cn_topology s1) leader = Some b" "nw_connect nw (Topology b) s1 = Some (Ok broker, s2)"
    "request_metadata nw (SpecificBroker broker) (Some [topic]) s2 = Some (Ok (m, None), s3)"
    "leader_of topic part m = Ok leader" "gs = None" "s' = s3"
proof -
  from assms obtain leader s1 s2 s3 where
    1: "get_leader nw topic part CachedArbitrary s = Some (Ok (leader, ga), s1)" and
    2: "connector_connect nw leader s1 = Some (Ok (Some broker), s2)" and
    3: "get_leader nw topic part (SpecificBroker broker) s2 = Some (Ok (leader, gs), s3)" "s' = s3"
    by (auto simp: connect_leader_def split: option.splits prod.splits outcome.splits if_splits)
  from 2 obtain b where b: "get_broker (cn_topology s1) leader = Some b"
    "nw_connect nw (Topology b) s1 = Some (Ok broker, s2)"
    by (auto simp: connector_connect_def split: option.splits prod.splits)
  from 3(1) obtain m where m: "request_metadata nw (SpecificBroker broker) (Some [topic]) s2 = Some (Ok (m, gs), s3)"
    "leader_of topic part m = Ok leader"
    by (auto simp: get_leader_def)
  with request_metadata_gen [OF m(1)] 1 b 3(2) show thesis by (intro that) auto
qed

lemma partition_get_Ok:
  assumes "partition_get nw topic part (b, s) = Some (Ok (broker, gen), (b', s'))"
  shows "cb_broker b' = Some broker \<and> gen = cb_gen_broker b' \<and>
    (cb_broker b = None \<longrightarrow> (\<exists>leader bk s1 s2 m.
       get_broker (cn_topology s1) leader = Some bk \<and> nw_connect nw (Topology bk) s1 = Some (Ok broker, s2) \<and>
       request_metadata nw (SpecificBroker broker) (Some [topic]) s2 = Some (Ok (m, None), s') \<and>
       leader_of topic part m = Ok leader \<and> gen = cb_gen_broker b + 1))"
proof (cases "cb_broker b")
  case (Some c)
  with assms show ?thesis by (auto simp: partition_get_def)
next
  case None
  with assms obtain r s1 where r: "connect_leader nw topic part s = Some (r, s1)"
    "(case r of
        Ok (broker, ga, gs) \<Rightarrow>
          let b1 = partition_store broker ga gs b in (Ok (broker, cb_gen_broker b1), (b1, s1))
      | Err e \<Rightarrow> (Err e, (b, s1))
      | Panic p \<Rightarrow> (Panic p, (b, s1))) = (Ok (broker, gen), (b', s'))"
    by (auto simp: partition_get_def)
  then obtain ga gs where ok: "r = Ok (broker, ga, gs)" "b' = partition_store broker ga gs b"
    "gen = cb_gen_broker b'" "s' = s1"
    by (cases r) (auto simp: Let_def)
  with r(1) have "connect_leader nw topic part s = Some (Ok (broker, ga, gs), s1)" by simp
  then show ?thesis
  proof (rule connect_leader_Ok, goal_cases)
    case (1 leader bk s0 s2 m s3)
    with ok show ?case by (auto simp: partition_store_def) blast
  qed
qed

section \<open>The caches of the clients\<close>

definition partition_cached :: "('c, 'e) partition_world \<Rightarrow> ('c \<times> usize option \<times> usize option) option" where
  "partition_cached w =
     map_option (\<lambda>c. (c, cb_gen_leader_from_arbitrary (fst w), cb_gen_leader_from_self (fst w))) (cb_broker (fst w))"

definition partition_cache_gen :: "('c, 'e) partition_world \<Rightarrow> usize" where
  "partition_cache_gen w = cb_gen_broker (fst w)"

definition partition_cache_store :: "'c \<times> usize option \<times> usize option \<Rightarrow> ('c, 'e) partition_world \<Rightarrow>
    ('c, 'e) partition_world" where
  "partition_cache_store v w = (partition_store (fst v) (fst (snd v)) (snd (snd v)) (fst w), snd w)"

interpretation leader: generation_cache partition_cached partition_cache_gen partition_cache_store partition_invalidate
  by unfold_locales
    (auto simp: partition_cached_def partition_cache_gen_def partition_cache_store_def partition_store_def
      partition_invalidate_def split: prod.splits)

interpretation controller: generation_cache "\<lambda>w. bc_broker (fst w)" "\<lambda>w. bc_gen (fst w)"
  "\<lambda>c w. (broker_store c (fst w), snd w)" controller_invalidate
  by unfold_locales (auto simp: controller_invalidate_def broker_store_def broker_invalidate_def)

interpretation arbitrary: generation_cache "\<lambda>s. bc_broker (cn_cached_arbitrary_broker s)"
  "\<lambda>s. bc_gen (cn_cached_arbitrary_broker s)"
  "\<lambda>c s. s\<lparr>cn_cached_arbitrary_broker := broker_store c (cn_cached_arbitrary_broker s)\<rparr>" arbitrary_invalidate
  by unfold_locales (auto simp: arbitrary_invalidate_def broker_store_def broker_invalidate_def)

section \<open>Ends of requests\<close>

lemma maybe_retry_returns:
  assumes "rand_crate draw" and "sound_config config" and "cfg_deadline config = Some deadline"
    and "\<And>w. \<exists>r w'. f w = Some (r, w') \<and> (\<forall>t. r \<noteq> Err (Throttle t))"
  shows "\<exists>y. maybe_retry draw sleep config policy invalidate f w = Some y"
proof -
  have "\<exists>r w'. retry_attempt policy invalidate f w = Some (r, w') \<and> (\<forall>t. r \<noteq> Inr (Continue (Throttle t)))" for w
  proof -
    obtain r w' where r: "f w = Some (r, w')" "\<forall>t. r \<noteq> Err (Throttle t)" using assms(4) by blast
    show ?thesis
    proof (cases r)
      case (Err x)
      with r obtain e gen where "x = Error (e, gen)" by (cases x) auto
      with r Err show ?thesis by (simp add: retry_attempt_def Let_def)
    qed (use r in \<open>simp_all add: retry_attempt_def\<close>)
  qed
  moreover obtain n :: nat where
    "deadline / min (cfg_init_backoff config) (cfg_max_backoff config) \<le> real n"
    using real_arch_simple by blast
  then have "deadline - bo_total (Backoff_new config) \<le> real n * min (cfg_init_backoff config) (cfg_max_backoff config)"
    using assms(2) by (simp add: Backoff_new_def sound_config_def pos_divide_le_eq)
  ultimately obtain y where "retry_with_backoff draw sleep (retry_attempt policy invalidate f) (Backoff_new config) w = Some y"
    using rand_crate.retry_returns [OF assms(1-3) _ backoff_inv_new] by blast
  then show ?thesis by (simp add: maybe_retry_def)
qed

lemma maybe_retry_throttled:
  assumes "\<And>w. \<exists>t w'. f w = Some (Err (Throttle t), w')"
  shows "maybe_retry draw sleep config policy invalidate f w = None"
proof -
  have "\<exists>t w'. retry_attempt policy invalidate f w = Some (Inr (Continue (Throttle t)), w')" for w
    using assms [of w] by (auto simp: retry_attempt_def)
  from retry_never_returns [of "retry_attempt policy invalidate f", OF this] show ?thesis
    by (simp add: maybe_retry_def)
qed

end
