(* ===== verification/Messenger_Steps.thy ===== *)
theory Messenger_Steps
  imports Messenger "HOL-Library.AList" "HOL-Library.Sublist"
begin

text \<open>
  The concurrent part of \<open>src/src/messenger.rs\<close>: any number of calls of \<open>request\<close>, each of
  which runs in the pieces between its suspension points and its accesses to the shared state,
  and the background task of \<open>Messenger::new\<close>.

  A call has its request: the type, the writer of the body and the version that was chosen for
  it, which with the client ID of the messenger and the correlation ID give its buffer
  (\<open>encode_request\<close>).  A call is numbered in the order in which the calls take their correlation ID.  Its one-shot
  channel is part of its record: \<open>Empty\<close>, \<open>Full\<close> when the sender has sent, \<open>Closed\<close> when the
  sender was dropped without sending.  \<open>incoming\<close> is all that the broker will ever have sent;
  nothing is assumed about it.
\<close>

section \<open>State\<close>

record active_request =
  ar_channel :: nat
  ar_tagged :: bool

datatype messenger_state = RequestMap "(i32 \<times> active_request) list" | Poison request_error

datatype channel = Empty | Full "(request_error, response) outcome" | Closed

text \<open>
  Where a call is: it has its correlation ID; it is registered and sends its buffer; it waits for
  its channel; it was cancelled while a task writes its buffer; it was cancelled; it has returned.
\<close>

datatype phase =
    Allocated
  | Sending "u8 list"
  | Awaiting
  | Rescued "u8 list"
  | Cancelled
  | Finished "(request_error, response) outcome"

record call =
  c_cid :: i32
  c_type :: request_type
  c_body :: "ApiVersion \<Rightarrow> vwres"
  c_version :: ApiVersion
  c_phase :: phase
  c_chan :: channel

record world =
  m_client_id :: rstring
  mstate :: messenger_state
  next_id :: i32
  allocated :: nat
  calls :: "nat \<rightharpoonup> call"
  incoming :: stream
  reader_alive :: bool
  out :: sink
  m_dropped :: bool

definition messenger_new :: "rstring \<Rightarrow> stream \<Rightarrow> usize option \<Rightarrow> world" where
  "messenger_new cl s room =
     \<lparr>m_client_id = cl, mstate = RequestMap [], next_id = 0, allocated = 0, calls = Map.empty, incoming = s,
      reader_alive = True, out = \<lparr>written = [], capacity = room\<rparr>, m_dropped = False\<rparr>"

section \<open>Operations\<close>

definition set_phase :: "nat \<Rightarrow> phase \<Rightarrow> world \<Rightarrow> world" where
  "set_phase r ph w =
     (case calls w r of
        Some c \<Rightarrow> w\<lparr>calls := (calls w)(r \<mapsto> c\<lparr>c_phase := ph\<rparr>)\<rparr>
      | None \<Rightarrow> w)"

text \<open>\<open>channel.send(x).ok()\<close>, and dropping a sender.\<close>

definition chan_put :: "channel \<Rightarrow> nat \<Rightarrow> world \<Rightarrow> world" where
  "chan_put x r w =
     (case calls w r of
        Some c \<Rightarrow>
          if c_chan c = Empty then w\<lparr>calls := (calls w)(r \<mapsto> c\<lparr>c_chan := x\<rparr>)\<rparr> else w
      | None \<Rightarrow> w)"

definition chan_send :: "(request_error, response) outcome \<Rightarrow> nat \<Rightarrow> world \<Rightarrow> world" where
  "chan_send x = chan_put (Full x)"

definition chan_drop :: "nat \<Rightarrow> world \<Rightarrow> world" where
  "chan_drop = chan_put Closed"

text \<open>\<open>MessengerState::poison\<close>: the new state and the error that is in force.\<close>

definition poison :: "request_error \<Rightarrow> world \<Rightarrow> world \<times> request_error" where
  "poison err w =
     (case mstate w of
        RequestMap m \<Rightarrow>
          ((fold (\<lambda>(cid, ar). chan_send (Err (Poisoned err)) (ar_channel ar)) m w)
             \<lparr>mstate := Poison err\<rparr>, err)
      | Poison e \<Rightarrow> (w, e))"

text \<open>\<open>correlation_id.fetch_add(1)\<close>.\<close>

definition new_call :: "request_type \<Rightarrow> (ApiVersion \<Rightarrow> vwres) \<Rightarrow> ApiVersion \<Rightarrow> i32 \<Rightarrow> call" where
  "new_call rt body v cid =
     \<lparr>c_cid = cid, c_type = rt, c_body = body, c_version = v, c_phase = Allocated, c_chan = Empty\<rparr>"

definition allocate :: "request_type \<Rightarrow> (ApiVersion \<Rightarrow> vwres) \<Rightarrow> ApiVersion \<Rightarrow> world \<Rightarrow> world" where
  "allocate rt body v w =
     w\<lparr>next_id := next_id w + 1, allocated := allocated w + 1,
       calls := (calls w)(allocated w \<mapsto> new_call rt body v (next_id w))\<rparr>"

text \<open>The buffer of a call.\<close>

definition call_buffer :: "world \<Rightarrow> call \<Rightarrow> (request_error, u8 list) outcome" where
  "call_buffer w c = encode_request (m_client_id w) (c_type c) (c_body c) (c_version c) (c_cid c)"

definition c_tagged :: "call \<Rightarrow> bool" where
  "c_tagged c = use_tagged_fields_in_response (c_type c) (c_version c)"

text \<open>\<open>map.insert\<close> drops the sender that was registered under the same correlation ID.\<close>

definition map_insert :: "i32 \<Rightarrow> active_request \<Rightarrow> (i32 \<times> active_request) list \<Rightarrow> world \<Rightarrow> world" where
  "map_insert cid ar m w =
     (let w' = (case map_of m cid of Some old \<Rightarrow> chan_drop (ar_channel old) w | None \<Rightarrow> w)
      in w'\<lparr>mstate := RequestMap ((cid, ar) # AList.delete cid m)\<rparr>)"

definition register :: "nat \<Rightarrow> call \<Rightarrow> u8 list \<Rightarrow> world \<Rightarrow> world" where
  "register r c buf w =
     (case mstate w of
        RequestMap m \<Rightarrow>
          set_phase r (Sending buf)
            (map_insert (c_cid c) \<lparr>ar_channel = r, ar_tagged = c_tagged c\<rparr> m w)
      | Poison e \<Rightarrow> set_phase r (Finished (Err (Poisoned e))) w)"

text \<open>\<open>map.remove\<close> by \<open>CleanupRequestStateOnCancel\<close>.\<close>

definition cleanup :: "i32 \<Rightarrow> world \<Rightarrow> world" where
  "cleanup cid w =
     (case mstate w of
        RequestMap m \<Rightarrow>
          let w' = (case map_of m cid of Some ar \<Rightarrow> chan_drop (ar_channel ar) w | None \<Rightarrow> w)
          in w'\<lparr>mstate := RequestMap (AList.delete cid m)\<rparr>
      | Poison e \<Rightarrow> w)"

text \<open>
  \<open>send_message_inner\<close>: the message is written, then the stream is flushed, which may fail.
  The lock on the writing half is held from before the first byte to the end, also when the
  caller is cancelled, so that nobody else writes in between.
\<close>

definition send_message_inner :: "u8 list \<Rightarrow> io_error option \<Rightarrow> sink \<Rightarrow>
    (request_error, unit) outcome \<times> sink" where
  "send_message_inner msg flush_error stream_write =
     (case write_message msg stream_write of
        (Ok _, o') \<Rightarrow> (case flush_error of None \<Rightarrow> Ok () | Some e \<Rightarrow> Err (RequestIO e), o')
      | (Err e, o') \<Rightarrow> (Err (WriteMessageError e), o')
      | (Panic p, o') \<Rightarrow> (Panic p, o'))"

text \<open>The task that \<open>CancellationSafeFuture::drop\<close> spawns: the result is dropped.\<close>

definition rescue :: "nat \<Rightarrow> u8 list \<Rightarrow> io_error option \<Rightarrow> world \<Rightarrow> world" where
  "rescue r buf flush_error w =
     set_phase r Cancelled (w\<lparr>out := snd (send_message_inner buf flush_error (out w))\<rparr>)"

text \<open>The error of a failed send, which poisons the stream.\<close>

definition send_failed :: "nat \<Rightarrow> request_error \<Rightarrow> world \<Rightarrow> world" where
  "send_failed r e w =
     (case poison e w of (w', err) \<Rightarrow> set_phase r (Finished (Err (Poisoned err))) w')"

text \<open>One round of the background task, on a message that was read.\<close>

definition handle_message :: "u8 list \<Rightarrow> world \<Rightarrow> world" where
  "handle_message msg w =
     (case read_ResponseHeader (ApiVersion 0) (msg, None) of
        Ok (header, cursor) \<Rightarrow>
          (case mstate w of
             RequestMap m \<Rightarrow>
               (case map_of m (rsh_correlation_id header) of
                  Some ar \<Rightarrow>
                    let w' = w\<lparr>mstate := RequestMap (AList.delete (rsh_correlation_id header) m)\<rparr>
                    in if ar_tagged ar then
                         (case read_TaggedFields cursor of
                            Ok (tags, cursor') \<Rightarrow>
                              chan_send (Ok \<lparr>resp_header = header\<lparr>rsh_tagged_fields := Some tags\<rparr>,
                                resp_data = fst cursor', resp_size = length msg\<rparr>) (ar_channel ar) w'
                          | Err e \<Rightarrow> chan_send (Err (ReadError e)) (ar_channel ar) w'
                          | Panic p \<Rightarrow> (chan_drop (ar_channel ar) w')\<lparr>reader_alive := False\<rparr>)
                       else chan_send (Ok \<lparr>resp_header = header, resp_data = fst cursor,
                              resp_size = length msg\<rparr>) (ar_channel ar) w'
                | None \<Rightarrow> w)
           | Poison e \<Rightarrow> w\<lparr>reader_alive := False\<rparr>)
      | Err e \<Rightarrow> w
      | Panic p \<Rightarrow> w\<lparr>reader_alive := False\<rparr>)"

text \<open>One round of its loop.\<close>

definition reader_round :: "usize \<Rightarrow> world \<Rightarrow> world option" where
  "reader_round max_message_size w =
     (case read_message max_message_size (incoming w) of
        None \<Rightarrow> None
      | Some (Ok msg, s') \<Rightarrow> Some (handle_message msg (w\<lparr>incoming := s'\<rparr>))
      | Some (Err e, s') \<Rightarrow>
          Some ((fst (poison (ReadFramedMessageError e) (w\<lparr>incoming := s'\<rparr>)))\<lparr>reader_alive := False\<rparr>)
      | Some (Panic p, s') \<Rightarrow> Some (w\<lparr>incoming := s', reader_alive := False\<rparr>))"

text \<open>
  \<open>Messenger::drop\<close>, which aborts the background task.  A call borrows the messenger, so that all
  calls have returned or were cancelled; a task that finishes a write has only the writing half.
\<close>

definition call_over :: "phase \<Rightarrow> bool" where
  "call_over ph \<longleftrightarrow> (case ph of Finished _ \<Rightarrow> True | Cancelled \<Rightarrow> True | Rescued _ \<Rightarrow> True | _ \<Rightarrow> False)"

definition messenger_drop :: "world \<Rightarrow> world" where
  "messenger_drop w = w\<lparr>reader_alive := False, m_dropped := True\<rparr>"

section \<open>Steps\<close>

inductive mstep :: "usize \<Rightarrow> world \<Rightarrow> world \<Rightarrow> bool" for max_message_size where
  start: "choose_version rt ranges = Ok v \<Longrightarrow> \<not> m_dropped w \<Longrightarrow>
    mstep max_message_size w (allocate rt body v w)"
| encode_failed: "calls w r = Some c \<Longrightarrow> c_phase c = Allocated \<Longrightarrow> call_buffer w c = Err e \<Longrightarrow>
    mstep max_message_size w (set_phase r (Finished (Err e)) w)"
| encode_panicked: "calls w r = Some c \<Longrightarrow> c_phase c = Allocated \<Longrightarrow> call_buffer w c = Panic p \<Longrightarrow>
    mstep max_message_size w (set_phase r (Finished (Panic p)) w)"
| registered: "calls w r = Some c \<Longrightarrow> c_phase c = Allocated \<Longrightarrow> call_buffer w c = Ok buf \<Longrightarrow>
    mstep max_message_size w (register r c buf w)"
| sent: "calls w r = Some c \<Longrightarrow> c_phase c = Sending buf \<Longrightarrow>
    send_message_inner buf flush_error (out w) = (Ok (), o') \<Longrightarrow>
    mstep max_message_size w (set_phase r Awaiting (w\<lparr>out := o'\<rparr>))"
| not_sent: "calls w r = Some c \<Longrightarrow> c_phase c = Sending buf \<Longrightarrow>
    send_message_inner buf flush_error (out w) = (Err e, o') \<Longrightarrow>
    mstep max_message_size w (send_failed r e (w\<lparr>out := o'\<rparr>))"
| cancel_queued: "calls w r = Some c \<Longrightarrow> c_phase c = Sending buf \<Longrightarrow>
    mstep max_message_size w (cleanup (c_cid c) (set_phase r Cancelled w))"
| cancel_sending: "calls w r = Some c \<Longrightarrow> c_phase c = Sending buf \<Longrightarrow>
    mstep max_message_size w (cleanup (c_cid c) (set_phase r (Rescued buf) w))"
| rescued: "calls w r = Some c \<Longrightarrow> c_phase c = Rescued buf \<Longrightarrow>
    mstep max_message_size w (rescue r buf flush_error w)"
| cancel_waiting: "calls w r = Some c \<Longrightarrow> c_phase c = Awaiting \<Longrightarrow>
    mstep max_message_size w (set_phase r Cancelled w)"
| received: "calls w r = Some c \<Longrightarrow> c_phase c = Awaiting \<Longrightarrow> c_chan c = Full x \<Longrightarrow>
    mstep max_message_size w (set_phase r (Finished x) w)"
| closed: "calls w r = Some c \<Longrightarrow> c_phase c = Awaiting \<Longrightarrow> c_chan c = Closed \<Longrightarrow>
    mstep max_message_size w (set_phase r (Finished (Panic ExpectFailed)) w)"
| reader: "reader_alive w \<Longrightarrow> reader_round max_message_size w = Some w' \<Longrightarrow>
    mstep max_message_size w w'"
| dropped: "(\<And>r c. calls w r = Some c \<Longrightarrow> call_over (c_phase c)) \<Longrightarrow> mstep max_message_size w (messenger_drop w)"

inductive reachable :: "usize \<Rightarrow> world \<Rightarrow> bool" for max_message_size where
  init: "reachable max_message_size (messenger_new cl s room)"
| step: "reachable max_message_size w \<Longrightarrow> mstep max_message_size w w' \<Longrightarrow>
    reachable max_message_size w'"

inductive_cases mstepE: "mstep m w w'"

section \<open>Lemmas on the operations\<close>

lemma set_phase_fields [simp]:
  "mstate (set_phase r ph w) = mstate w" "next_id (set_phase r ph w) = next_id w"
  "allocated (set_phase r ph w) = allocated w" "m_client_id (set_phase r ph w) = m_client_id w" "out (set_phase r ph w) = out w"
  "reader_alive (set_phase r ph w) = reader_alive w" "incoming (set_phase r ph w) = incoming w"
  "m_dropped (set_phase r ph w) = m_dropped w"
  by (simp_all add: set_phase_def split: option.splits)

lemma calls_set_phase [simp]:
  "calls (set_phase r ph w) r' =
    (if r' = r then map_option (\<lambda>c. c\<lparr>c_phase := ph\<rparr>) (calls w r) else calls w r')"
  by (simp add: set_phase_def split: option.splits)

lemma chan_put_fields [simp]:
  "mstate (chan_put x r w) = mstate w" "next_id (chan_put x r w) = next_id w"
  "allocated (chan_put x r w) = allocated w" "m_client_id (chan_put x r w) = m_client_id w" "out (chan_put x r w) = out w"
  "reader_alive (chan_put x r w) = reader_alive w" "incoming (chan_put x r w) = incoming w"
  "m_dropped (chan_put x r w) = m_dropped w"
  by (simp_all add: chan_put_def split: option.splits)

lemma calls_chan_put [simp]:
  "calls (chan_put x r w) r' =
    (if r' = r then map_option (\<lambda>c. if c_chan c = Empty then c\<lparr>c_chan := x\<rparr> else c) (calls w r)
     else calls w r')"
  by (auto simp: chan_put_def split: option.splits)

lemmas chan_ops [simp] = chan_send_def chan_drop_def

text \<open>What \<open>poison\<close> does to every call.\<close>

lemma fold_send:
  fixes m :: "(i32 \<times> active_request) list" and x :: "(request_error, response) outcome"
  defines "f \<equiv> fold (\<lambda>(cid, ar). chan_send x (ar_channel ar)) m"
  shows "mstate (f w) = mstate w \<and> next_id (f w) = next_id w \<and> allocated (f w) = allocated w \<and>
    m_client_id (f w) = m_client_id w \<and> out (f w) = out w \<and> reader_alive (f w) = reader_alive w \<and> incoming (f w) = incoming w \<and>
    calls (f w) r = map_option (\<lambda>c. if r \<in> (ar_channel \<circ> snd) ` set m \<and> c_chan c = Empty
      then c\<lparr>c_chan := Full x\<rparr> else c) (calls w r)"
  unfolding f_def
proof (induction m arbitrary: w)
  case Nil
  show ?case by (simp add: option.map_ident)
next
  case (Cons a m)
  obtain cid ar where a: "a = (cid, ar)" by (cases a)
  show ?case
    using Cons.IH [of "chan_send x (ar_channel ar) w"]
    by (cases "calls w r") (auto simp: a)
qed

definition entries :: "world \<Rightarrow> (i32 \<times> active_request) list" where
  "entries w = (case mstate w of RequestMap m \<Rightarrow> m | Poison _ \<Rightarrow> [])"

lemma poison_fields [simp]:
  "next_id (fst (poison e w)) = next_id w" "allocated (fst (poison e w)) = allocated w"
  "entries (fst (poison e w)) = []"
  using fold_send by (auto simp: poison_def entries_def split: messenger_state.splits)

lemma calls_poison:
  "calls (fst (poison e w)) r = map_option (\<lambda>c. if r \<in> (ar_channel \<circ> snd) ` set (entries w) \<and>
      c_chan c = Empty then c\<lparr>c_chan := Full (Err (Poisoned e))\<rparr> else c) (calls w r)"
  using fold_send [of "Err (Poisoned e)"]
  by (auto simp: poison_def entries_def option.map_ident split: messenger_state.splits)

lemma send_message_inner_write:
  assumes "send_message_inner buf flush_error sw = (res, o')"
  obtains res' where "write_message buf sw = (res', o')" "res = Ok () \<Longrightarrow> res' = Ok ()"
  using assms by (auto simp: send_message_inner_def split: prod.splits outcome.splits option.splits)

lemma send_message_inner_no_panic: "\<not> is_panic (fst (send_message_inner buf flush_error sw))"
  by (auto simp: send_message_inner_def write_message_def write_all_def write_Int32_def
      split: option.splits)

lemma reader_round_cases:
  assumes "reader_round m w = Some w'"
  obtains (message) msg s' where "w' = handle_message msg (w\<lparr>incoming := s'\<rparr>)"
  | (failed) e s' where
      "w' = (fst (poison (ReadFramedMessageError e) (w\<lparr>incoming := s'\<rparr>)))\<lparr>reader_alive := False\<rparr>"
  | (died) s' where "w' = w\<lparr>incoming := s', reader_alive := False\<rparr>"
  using assms
  by (auto simp: reader_round_def split: option.splits prod.splits outcome.splits)

section \<open>The invariant\<close>

definition is_waiting :: "phase \<Rightarrow> bool" where
  "is_waiting ph = (case ph of Sending _ \<Rightarrow> True | Awaiting \<Rightarrow> True | _ \<Rightarrow> False)"

text \<open>A result that a call may get: if it is a response, then one with the ID of the call.\<close>

definition answers_call :: "i32 \<Rightarrow> (request_error, response) outcome \<Rightarrow> bool" where
  "answers_call cid x \<longleftrightarrow> (\<forall>resp. x = Ok resp \<longrightarrow> rsh_correlation_id (resp_header resp) = cid)"

definition inv_ids :: "world \<Rightarrow> bool" where
  "inv_ids w \<longleftrightarrow> next_id w = of_nat (allocated w) \<and>
     (\<forall>r c. calls w r = Some c \<longrightarrow> r < allocated w \<and> c_cid c = of_nat r)"

text \<open>Every registered sender belongs to a call with that ID which has not got an answer.\<close>

definition inv_map :: "world \<Rightarrow> bool" where
  "inv_map w \<longleftrightarrow> (\<forall>cid ar. (cid, ar) \<in> set (entries w) \<longrightarrow>
     (\<exists>c. calls w (ar_channel ar) = Some c \<and> c_cid c = cid \<and> c_chan c = Empty \<and>
       c_phase c \<noteq> Allocated \<and> ar_tagged ar = c_tagged c))"

lemma c_tagged_simps [simp]:
  "c_tagged (c\<lparr>c_phase := ph\<rparr>) = c_tagged c" "c_tagged (c\<lparr>c_chan := x\<rparr>) = c_tagged c"
  by (simp_all add: c_tagged_def)

definition inv_fresh :: "world \<Rightarrow> bool" where
  "inv_fresh w \<longleftrightarrow> (\<forall>r c. calls w r = Some c \<longrightarrow> c_phase c = Allocated \<longrightarrow> c_chan c = Empty)"

definition inv_answers :: "world \<Rightarrow> bool" where
  "inv_answers w \<longleftrightarrow> (\<forall>r c x. calls w r = Some c \<longrightarrow>
     c_chan c = Full x \<or> c_phase c = Finished x \<longrightarrow> answers_call (c_cid c) x)"

text \<open>Every call that waits has its answer, or its sender is registered.\<close>

definition served :: "world \<Rightarrow> nat \<Rightarrow> call \<Rightarrow> bool" where
  "served w r c \<longleftrightarrow> c_chan c \<noteq> Closed \<and>
     (c_chan c = Empty \<longrightarrow> (\<exists>ar. (c_cid c, ar) \<in> set (entries w) \<and> ar_channel ar = r))"

definition inv_served :: "world \<Rightarrow> bool" where
  "inv_served w \<longleftrightarrow> (\<forall>r c. calls w r = Some c \<longrightarrow> is_waiting (c_phase c) \<longrightarrow> served w r c)"

definition minv :: "world \<Rightarrow> bool" where
  "minv w \<longleftrightarrow> inv_ids w \<and> inv_map w \<and> inv_answers w \<and> inv_fresh w \<and> (allocated w \<le> 2 ^ 32 \<longrightarrow> inv_served w)"

lemmas inv_defs = minv_def inv_ids_def inv_map_def inv_answers_def inv_fresh_def inv_served_def

text \<open>Before the IDs wrap around, an ID determines its call.\<close>

lemma cid_inj:
  assumes "inv_ids w" and "allocated w \<le> 2 ^ 32"
    and "calls w r = Some c" and "calls w r' = Some c'" and "c_cid c = c_cid c'"
  shows "r = r'"
proof -
  from assms have "r < 2 ^ 32" "r' < 2 ^ 32" and eq: "(of_nat r :: i32) = of_nat r'"
    by (auto simp: inv_ids_def intro: less_le_trans)
  from arg_cong [OF eq, of unat] this(1,2) show ?thesis by (simp add: unat_of_nat)
qed

lemma inv_new: "minv (messenger_new cl s room)"
  by (simp add: inv_defs messenger_new_def entries_def)

lemma entries_simps [simp]:
  "entries (set_phase r ph w) = entries w" "entries (chan_put x r w) = entries w"
  "entries (w\<lparr>out := o'\<rparr>) = entries w" "entries (w\<lparr>incoming := s\<rparr>) = entries w"
  "entries (w\<lparr>reader_alive := a\<rparr>) = entries w" "entries (w\<lparr>mstate := RequestMap m\<rparr>) = m"
  by (simp_all add: entries_def)

lemma messenger_drop_fields [simp]:
  "mstate (messenger_drop w) = mstate w" "next_id (messenger_drop w) = next_id w"
  "allocated (messenger_drop w) = allocated w" "calls (messenger_drop w) = calls w"
  "m_client_id (messenger_drop w) = m_client_id w" "out (messenger_drop w) = out w"
  "entries (messenger_drop w) = entries w"
  by (simp_all add: messenger_drop_def entries_def)

lemma entries_RequestMap: "mstate w = RequestMap m \<Longrightarrow> entries w = m"
  by (simp add: entries_def)

text \<open>The fields that the invariant does not mention.\<close>

lemma inv_irrelevant [simp]:
  "minv (w\<lparr>out := o'\<rparr>) = minv w" "minv (w\<lparr>incoming := s\<rparr>) = minv w"
  "minv (w\<lparr>reader_alive := a\<rparr>) = minv w" "minv (messenger_drop w) = minv w"
  unfolding inv_defs served_def entries_simps by simp_all

lemma invI:
  assumes "inv_ids w" "inv_map w" "inv_answers w" "inv_fresh w"
    "allocated w \<le> 2 ^ 32 \<Longrightarrow> inv_served w"
  shows "minv w"
  using assms by (simp add: minv_def)

lemma invD:
  assumes "minv w"
  shows "inv_ids w" "inv_map w" "inv_answers w" "inv_fresh w"
    "allocated w \<le> 2 ^ 32 \<Longrightarrow> inv_served w"
  using assms by (simp_all add: minv_def)

lemma inv_allocate:
  assumes minv: "minv w"
  shows "minv (allocate rt body v w)"
proof -
  let ?w = "allocate rt body v w"
  define c where "c = new_call rt body v (next_id w)"
  have fresh: "calls w (allocated w) = None"
    using invD(1) [OF minv] by (cases "calls w (allocated w)") (auto simp: inv_ids_def)
  have calls: "calls ?w r = (if r = allocated w then Some c else calls w r)" for r
    by (simp add: allocate_def c_def)
  have entries: "entries ?w = entries w" by (simp add: allocate_def entries_def)
  show ?thesis
  proof (rule invI)
    show "inv_ids ?w"
      using invD(1) [OF minv] unfolding inv_ids_def calls
      by (auto simp: allocate_def c_def new_call_def less_SucI split: if_splits)
    show "inv_map ?w"
      using invD(2) [OF minv] fresh unfolding inv_map_def calls entries by fastforce
    show "inv_answers ?w"
      using invD(3) [OF minv] unfolding inv_answers_def calls by (auto simp: c_def new_call_def split: if_splits)
    show "inv_fresh ?w"
      using invD(4) [OF minv] unfolding inv_fresh_def calls by (auto simp: c_def new_call_def split: if_splits)
    assume "allocated ?w \<le> 2 ^ 32"
    then have "allocated w \<le> 2 ^ 32" by (simp add: allocate_def)
    from invD(5) [OF minv this] show "inv_served ?w"
      unfolding inv_served_def calls served_def entries
      by (auto simp: c_def new_call_def is_waiting_def split: if_splits)
  qed
qed

text \<open>A call that moves on without touching the map.\<close>

lemma inv_set_phase:
  assumes minv: "minv w" and c: "calls w r = Some c"
    and ph: "ph \<noteq> Allocated" "is_waiting ph \<Longrightarrow> is_waiting (c_phase c)"
    and ans: "\<And>x. ph = Finished x \<Longrightarrow> answers_call (c_cid c) x"
  shows "minv (set_phase r ph w)"
proof (rule invI)
  have calls: "calls (set_phase r ph w) r' =
      (if r' = r then Some (c\<lparr>c_phase := ph\<rparr>) else calls w r')" for r'
    by (simp add: c)
  show "inv_ids (set_phase r ph w)"
    using invD(1) [OF minv] c unfolding inv_ids_def calls by (auto split: if_splits)
  show "inv_map (set_phase r ph w)"
    using invD(2) [OF minv] c ph(1) unfolding inv_map_def calls entries_simps
    by fastforce
  show "inv_answers (set_phase r ph w)"
    using invD(3) [OF minv] c ans unfolding inv_answers_def calls by (auto split: if_splits)
  show "inv_fresh (set_phase r ph w)"
    using invD(4) [OF minv] c ph(1) unfolding inv_fresh_def calls by (auto split: if_splits)
  assume "allocated (set_phase r ph w) \<le> 2 ^ 32"
  then have "inv_served w" using invD(5) [OF minv] by simp
  then show "inv_served (set_phase r ph w)"
    using c ph unfolding inv_served_def calls served_def entries_simps by (auto split: if_splits)
qed

text \<open>
  Taking the sender registered under an ID out of the map and putting something into its
  channel: an answer, or the end of the channel when nobody waits for it.
\<close>

definition take_entry :: "i32 \<Rightarrow> channel \<Rightarrow> world \<Rightarrow> world" where
  "take_entry cid x w =
     (case mstate w of
        RequestMap m \<Rightarrow>
          (case map_of m cid of
             Some ar \<Rightarrow> (chan_put x (ar_channel ar) w)\<lparr>mstate := RequestMap (AList.delete cid m)\<rparr>
           | None \<Rightarrow> w\<lparr>mstate := RequestMap (AList.delete cid m)\<rparr>)
      | Poison e \<Rightarrow> w)"

lemma set_delete: "set (AList.delete cid m) = {e \<in> set m. fst e \<noteq> cid}"
  by (auto simp: AList.delete_eq)

lemma delete_twice: "AList.delete cid (AList.delete cid m) = AList.delete cid m"
  by (simp add: AList.delete_eq)

lemma inv_take_entry:
  assumes minv: "minv w" and x: "x \<noteq> Empty"
    and ans: "\<And>y. x = Full y \<Longrightarrow> answers_call cid y"
    and closed: "x = Closed \<Longrightarrow> allocated w \<le> 2 ^ 32 \<Longrightarrow> (\<forall>r c. calls w r = Some c \<longrightarrow> is_waiting (c_phase c) \<longrightarrow> c_cid c \<noteq> cid)"
  shows "minv (take_entry cid x w)"
proof (cases "mstate w")
  case (Poison e)
  with minv show ?thesis by (simp add: take_entry_def)
next
  case (RequestMap m)
  note entries = entries_RequestMap [OF RequestMap]
  show ?thesis
  proof (cases "map_of m cid")
    case None
    then have "AList.delete cid m = m" by (simp add: map_of_eq_None_iff delete_idem)
    with None RequestMap have "take_entry cid x w = w" by (simp add: take_entry_def)
    with minv show ?thesis by simp
  next
    case (Some ar)
    let ?w = "take_entry cid x w" and ?r = "ar_channel ar"
    have "(cid, ar) \<in> set (entries w)" using Some entries by (auto dest: map_of_SomeD)
    with invD(2) [OF minv] obtain c where
      c: "calls w ?r = Some c" "c_cid c = cid" "c_chan c = Empty" "c_phase c \<noteq> Allocated"
      by (auto simp: inv_map_def)
    have calls: "calls ?w r = (if r = ?r then Some (c\<lparr>c_chan := x\<rparr>) else calls w r)" for r
      by (simp add: take_entry_def RequestMap Some c)
    have rest: "set (entries ?w) = {e \<in> set (entries w). fst e \<noteq> cid}"
      and ids: "allocated ?w = allocated w" "next_id ?w = next_id w"
      by (simp_all add: take_entry_def RequestMap Some set_delete entries)
    show ?thesis
    proof (rule invI)
      show "inv_ids ?w"
        using invD(1) [OF minv] c unfolding inv_ids_def calls ids by (auto split: if_splits)
      show "inv_map ?w"
        using invD(2) [OF minv] c unfolding inv_map_def calls rest by fastforce
      show "inv_answers ?w"
        using invD(3) [OF minv] c ans unfolding inv_answers_def calls by (auto split: if_splits)
      show "inv_fresh ?w"
        using invD(4) [OF minv] c unfolding inv_fresh_def calls by (auto split: if_splits)
      assume "allocated ?w \<le> 2 ^ 32"
      then have bound: "allocated w \<le> 2 ^ 32" by (simp add: ids)
      note served = invD(5) [OF minv bound] and inj = cid_inj [OF invD(1) [OF minv] bound]
      show "inv_served ?w"
        unfolding inv_served_def
      proof (intro allI impI)
        fix r d assume d: "calls ?w r = Some d" "is_waiting (c_phase d)"
        show "served ?w r d"
        proof (cases "r = ?r")
          case True
          with d calls have "d = c\<lparr>c_chan := x\<rparr>" by simp
          with d c closed bound x show ?thesis by (cases x) (auto simp: served_def)
        next
          case False
          with d have "calls w r = Some d" by (simp add: calls)
          with inj [OF this c(1)] c False have "c_cid d \<noteq> cid" by auto
          with served \<open>calls w r = Some d\<close> d show ?thesis
            by (auto simp: inv_served_def served_def rest)
        qed
      qed
    qed
  qed
qed

lemma cleanup_eq: "cleanup cid w = take_entry cid Closed w"
  by (auto simp: cleanup_def take_entry_def split: messenger_state.splits option.splits)

lemma inv_poison:
  assumes minv: "minv w"
  shows "minv (fst (poison e w))"
proof (rule invI)
  let ?w = "fst (poison e w)"
  show "inv_ids ?w"
    using invD(1) [OF minv] by (auto simp: inv_ids_def calls_poison)
  show "inv_map ?w" by (simp add: inv_map_def)
  show "inv_answers ?w"
    using invD(3) [OF minv] by (auto simp: inv_answers_def calls_poison answers_call_def)
  show "inv_fresh ?w"
    unfolding inv_fresh_def
  proof (intro allI impI)
    fix r d assume d: "calls ?w r = Some d" "c_phase d = Allocated"
    then obtain c where c: "calls w r = Some c" "d = (if r \<in> (ar_channel \<circ> snd) ` set (entries w) \<and>
        c_chan c = Empty then c\<lparr>c_chan := Full (Err (Poisoned e))\<rparr> else c)"
      by (auto simp: calls_poison)
    with d have alloc: "c_phase c = Allocated" by (auto split: if_splits)
    with c(1) invD(2) [OF minv] have "r \<notin> (ar_channel \<circ> snd) ` set (entries w)"
      unfolding inv_map_def by fastforce
    with c invD(4) [OF minv] alloc show "c_chan d = Empty" by (auto simp: inv_fresh_def)
  qed
  assume "allocated ?w \<le> 2 ^ 32"
  then have served: "inv_served w" using invD(5) [OF minv] by simp
  show "inv_served ?w"
    unfolding inv_served_def
  proof (intro allI impI)
    fix r d assume d: "calls ?w r = Some d" "is_waiting (c_phase d)"
    then obtain c where c: "calls w r = Some c" "d = (if r \<in> (ar_channel \<circ> snd) ` set (entries w) \<and>
        c_chan c = Empty then c\<lparr>c_chan := Full (Err (Poisoned e))\<rparr> else c)"
      by (auto simp: calls_poison)
    with d have "is_waiting (c_phase c)" by (auto split: if_splits)
    with served c(1) have "served w r c" by (simp add: inv_served_def)
    with c(2) show "served ?w r d" by (force simp: served_def split: if_splits)
  qed
qed

lemma inv_send_failed:
  assumes "minv w" and "calls w r = Some c"
  shows "minv (send_failed r e w)"
proof -
  obtain w' err where p: "poison e w = (w', err)" by (cases "poison e w")
  obtain c' where c': "calls w' r = Some c'"
    using assms(2) calls_poison [of e w r] p by simp
  have "minv w'" using inv_poison [OF assms(1), of e] p by simp
  then have "minv (set_phase r (Finished (Err (Poisoned err))) w')"
    by (rule inv_set_phase [OF _ c']) (auto simp: answers_call_def is_waiting_def)
  then show ?thesis by (simp add: send_failed_def p)
qed

text \<open>Registering a call: while IDs have not wrapped around, nobody else has its ID.\<close>

lemma inv_register_free:
  assumes minv: "minv w" and c: "calls w r = Some c" "c_phase c = Allocated"
    and m: "mstate w = RequestMap m" and free: "map_of m (c_cid c) = None"
  shows "minv (register r c buf w)"
proof -
  let ?w = "register r c buf w" and ?ar = "\<lparr>ar_channel = r, ar_tagged = c_tagged c\<rparr>"
  have chan: "c_chan c = Empty" using invD(4) [OF minv] c by (simp add: inv_fresh_def)
  have calls: "calls ?w r' = (if r' = r then Some (c\<lparr>c_phase := Sending buf\<rparr>) else calls w r')" for r'
    by (simp add: register_def map_insert_def m free c)
  have "AList.delete (c_cid c) m = m" using free by (simp add: map_of_eq_None_iff delete_idem)
  then have entries: "set (entries ?w) = insert (c_cid c, ?ar) (set (entries w))"
    and ids: "allocated ?w = allocated w" "next_id ?w = next_id w"
    by (simp_all add: register_def map_insert_def m free entries_RequestMap [OF m])
  show ?thesis
  proof (rule invI)
    show "inv_ids ?w"
      using invD(1) [OF minv] c unfolding inv_ids_def calls ids by (auto split: if_splits)
    show "inv_map ?w"
      using invD(2) [OF minv] c chan unfolding inv_map_def calls entries by fastforce
    show "inv_answers ?w"
      using invD(3) [OF minv] c unfolding inv_answers_def calls by (auto split: if_splits)
    show "inv_fresh ?w"
      using invD(4) [OF minv] unfolding inv_fresh_def calls by (auto split: if_splits)
    assume "allocated ?w \<le> 2 ^ 32"
    then have "inv_served w" using invD(5) [OF minv] by (simp add: ids)
    then show "inv_served ?w"
      using chan unfolding inv_served_def calls served_def entries by (auto split: if_splits)
  qed
qed

lemma inv_register:
  assumes minv: "minv w" and c: "calls w r = Some c" "c_phase c = Allocated"
  shows "minv (register r c buf w)"
proof (cases "mstate w")
  case (Poison e)
  then have "register r c buf w = set_phase r (Finished (Err (Poisoned e))) w"
    by (simp add: register_def)
  with inv_set_phase [OF minv c(1), of "Finished (Err (Poisoned e))"] show ?thesis
    by (simp add: answers_call_def is_waiting_def)
next
  case (RequestMap m)
  define w1 where "w1 = take_entry (c_cid c) Closed w"
  have chan: "c_chan c = Empty" using invD(4) [OF minv] c by (simp add: inv_fresh_def)
  have inv1: "minv w1"
    unfolding w1_def
  proof (rule inv_take_entry [OF minv])
    assume bound: "allocated w \<le> 2 ^ 32"
    show "\<forall>r' d. calls w r' = Some d \<longrightarrow> is_waiting (c_phase d) \<longrightarrow> c_cid d \<noteq> c_cid c"
    proof (intro allI impI notI)
      fix r' d assume d: "calls w r' = Some d" "is_waiting (c_phase d)" "c_cid d = c_cid c"
      with cid_inj [OF invD(1) [OF minv] bound d(1) c(1)] c show False by (simp add: is_waiting_def)
    qed
  qed simp_all
  have owner: "ar_channel ar \<noteq> r" if "map_of m (c_cid c) = Some ar" for ar
  proof
    assume "ar_channel ar = r"
    moreover have "(c_cid c, ar) \<in> set (entries w)"
      using that entries_RequestMap [OF RequestMap] by (auto dest: map_of_SomeD)
    ultimately show False using invD(2) [OF minv] c by (fastforce simp: inv_map_def)
  qed
  have "calls w1 r = Some c" "mstate w1 = RequestMap (AList.delete (c_cid c) m)"
    using owner c by (auto simp: w1_def take_entry_def RequestMap split: option.splits)
  from inv_register_free [OF inv1 this(1) c(2) this(2), of buf]
  have "minv (register r c buf w1)" by (simp add: delete_conv')
  moreover have "register r c buf w1 = register r c buf w"
    by (cases "map_of m (c_cid c)")
      (simp_all add: register_def map_insert_def w1_def take_entry_def RequestMap delete_conv'
        delete_twice)
  ultimately show ?thesis by simp
qed

lemma read_ResponseHeader_0:
  "read_ResponseHeader (ApiVersion 0) s = Ok (h, s') \<Longrightarrow> rsh_tagged_fields h = None"
  by (auto simp: read_ResponseHeader_def rbind_Ok_iff)

lemma handle_message_cases:
  obtains (ignored) "handle_message msg w = w"
  | (stopped) "handle_message msg w = w\<lparr>reader_alive := False\<rparr>"
  | (answered) cid y where "handle_message msg w = take_entry cid (Full y) w" "answers_call cid y"
proof (cases "read_ResponseHeader (ApiVersion 0) (msg, None)")
  case (Ok hs)
  obtain header cursor where hs: "hs = (header, cursor)" by (cases hs)
  show thesis
  proof (cases "mstate w")
    case (Poison e)
    with Ok hs stopped show thesis by (simp add: handle_message_def)
  next
    case (RequestMap m)
    let ?cid = "rsh_correlation_id header"
    show thesis
    proof (cases "map_of m ?cid")
      case None
      with Ok hs RequestMap ignored show thesis by (simp add: handle_message_def)
    next
      case (Some ar)
      have tagged: "\<not> is_panic (read_TaggedFields cursor)" by (rule tagged_in.no_panic)
      have swap: "chan_put x r (w\<lparr>mstate := s\<rparr>) = (chan_put x r w)\<lparr>mstate := s\<rparr>" for x r s
        by (auto simp: chan_put_def split: option.splits)
      have "\<exists>y. handle_message msg w = take_entry ?cid (Full y) w \<and> answers_call ?cid y"
      proof (cases "ar_tagged ar")
        case False
        with Ok hs RequestMap Some show ?thesis
          by (intro exI [of _ "Ok \<lparr>resp_header = header, resp_data = fst cursor, resp_size = length msg\<rparr>"])
            (simp add: handle_message_def take_entry_def answers_call_def swap)
      next
        case True
        show ?thesis
        proof (cases "read_TaggedFields cursor")
          case res: (Ok tc)
          obtain tags cursor' where "tc = (tags, cursor')" by (cases tc)
          with True Ok hs RequestMap Some res show ?thesis
            by (intro exI [of _ "Ok \<lparr>resp_header = header\<lparr>rsh_tagged_fields := Some tags\<rparr>,
                  resp_data = fst cursor', resp_size = length msg\<rparr>"])
              (simp add: handle_message_def take_entry_def answers_call_def swap)
        next
          case (Err e)
          with True Ok hs RequestMap Some show ?thesis
            by (intro exI [of _ "Err (ReadError e)"]) (simp add: handle_message_def take_entry_def answers_call_def swap)
        next
          case (Panic p)
          with tagged show ?thesis by simp
        qed
      qed
      with answered show thesis by blast
    qed
  qed
next
  case (Err e)
  with ignored show thesis by (simp add: handle_message_def)
next
  case (Panic p)
  with stopped show thesis by (simp add: handle_message_def)
qed

lemma minv_handle_message: "minv w \<Longrightarrow> minv (handle_message msg w)"
  by (cases rule: handle_message_cases [of msg w]) (auto intro: inv_take_entry)

lemma minv_cancel:
  assumes minv: "minv w" and c: "calls w r = Some c" and ph: "ph \<noteq> Allocated" "\<not> is_waiting ph"
    "\<And>x. ph \<noteq> Finished x"
  shows "minv (cleanup (c_cid c) (set_phase r ph w))"
proof -
  have 1: "minv (set_phase r ph w)"
    by (rule inv_set_phase [OF minv c]) (use ph in auto)
  show ?thesis
    unfolding cleanup_eq
  proof (rule inv_take_entry [OF 1])
    assume "allocated (set_phase r ph w) \<le> 2 ^ 32"
    then have bound: "allocated w \<le> 2 ^ 32" by simp
    show "\<forall>r' d. calls (set_phase r ph w) r' = Some d \<longrightarrow> is_waiting (c_phase d) \<longrightarrow>
        c_cid d \<noteq> c_cid c"
    proof (intro allI impI notI)
      fix r' d
      assume d: "calls (set_phase r ph w) r' = Some d" "is_waiting (c_phase d)" "c_cid d = c_cid c"
      show False
      proof (cases "r' = r")
        case True
        with d c ph(2) show False by auto
      next
        case False
        with d cid_inj [OF invD(1) [OF minv] bound _ c, of r' d] show False by simp
      qed
    qed
  qed simp_all
qed

section \<open>Reachable states\<close>

lemma minv_mstep: "mstep m w w' \<Longrightarrow> minv w \<Longrightarrow> minv w'"
proof (induction rule: mstep.induct)
  case (start rt ranges v w body)
  then show ?case by (intro inv_allocate)
next
  case (encode_failed w r c e)
  then show ?case by (intro inv_set_phase) (auto simp: answers_call_def is_waiting_def)
next
  case (encode_panicked w r c p)
  then show ?case by (intro inv_set_phase) (auto simp: answers_call_def is_waiting_def)
next
  case (registered w r c buf)
  then show ?case by (intro inv_register)
next
  case (sent w r c buf fl o')
  then show ?case by (intro inv_set_phase [where c = c]) (auto simp: is_waiting_def)
next
  case (not_sent w r c buf fl e o')
  then show ?case by (intro inv_send_failed [where c = c]) auto
next
  case (cancel_queued w r c buf)
  then show ?case by (intro minv_cancel) (auto simp: is_waiting_def)
next
  case (cancel_sending w r c buf)
  then show ?case by (intro minv_cancel) (auto simp: is_waiting_def)
next
  case (rescued w r c buf fl)
  then show ?case unfolding rescue_def
    by (intro inv_set_phase [where c = c]) (auto simp: is_waiting_def)
next
  case (cancel_waiting w r c)
  then show ?case by (intro inv_set_phase) (auto simp: is_waiting_def)
next
  case (received w r c x)
  then have "answers_call (c_cid c) x" using invD(3) [of w] by (simp add: inv_answers_def)
  with received show ?case by (intro inv_set_phase) (auto simp: is_waiting_def)
next
  case (closed w r c)
  then show ?case by (intro inv_set_phase) (auto simp: answers_call_def is_waiting_def)
next
  case (reader w w')
  from reader(2) show ?case
    by (cases rule: reader_round_cases) (use reader(3) in \<open>simp_all add: minv_handle_message inv_poison\<close>)
qed simp

lemma reachable_minv: "reachable m w \<Longrightarrow> minv w"
  by (induction rule: reachable.induct) (auto intro: inv_new minv_mstep)

text \<open>Once poisoned, a messenger stays poisoned with the same error.\<close>

definition poisoned_with :: "request_error \<Rightarrow> world \<Rightarrow> bool" where
  "poisoned_with e w \<longleftrightarrow> mstate w = Poison e"

lemma poison_poisoned: "poisoned_with e w \<Longrightarrow> poison x w = (w, e)"
  by (simp add: poison_def poisoned_with_def)

lemma handle_message_mstate:
  "mstate w = Poison e \<Longrightarrow> mstate (handle_message msg w) = Poison e"
  by (cases rule: handle_message_cases [of msg w]) (simp_all add: take_entry_def)

lemma poison_stays: "mstep m w w' \<Longrightarrow> poisoned_with e w \<Longrightarrow> poisoned_with e w'"
proof (induction rule: mstep.induct)
  case (start rt ranges v w body)
  then show ?case by (simp add: poisoned_with_def allocate_def)
next
  case (reader w w')
  from reader(2) show ?case
    by (cases rule: reader_round_cases)
      (use reader(3) in \<open>simp_all add: poisoned_with_def handle_message_mstate poison_def\<close>)
qed (auto simp: poisoned_with_def register_def send_failed_def poison_def cleanup_def rescue_def)

text \<open>In a poisoned messenger no call waits without an answer.\<close>

lemma poisoned_answered:
  assumes "reachable m w" and "poisoned_with e w" and "allocated w \<le> 2 ^ 32"
    and "calls w r = Some c" and "is_waiting (c_phase c)"
  shows "\<exists>x. c_chan c = Full x"
proof -
  from reachable_minv [OF assms(1)] assms(3) have "inv_served w" by (rule invD(5))
  with assms(4,5) have "served w r c" by (simp add: inv_served_def)
  moreover from assms(2) have "entries w = []" by (simp add: poisoned_with_def entries_def)
  ultimately show ?thesis by (cases "c_chan c") (auto simp: served_def)
qed

text \<open>
  After the IDs have wrapped around, registering a call can take the place of one that still
  waits, whose channel is then closed.
\<close>

lemma register_closes:
  assumes "mstate w = RequestMap m" and "map_of m (c_cid c) = Some old" and "ar_channel old \<noteq> r"
    and "calls w (ar_channel old) = Some d" and "c_chan d = Empty"
  shows "calls (register r c buf w) (ar_channel old) = Some (d\<lparr>c_chan := Closed\<rparr>)"
  using assms by (simp add: register_def map_insert_def)

text \<open>Before the IDs wrap around, the map finds the sender of a call that waits.\<close>

lemma waiting_lookup:
  assumes inv: "minv w" and bound: "allocated w \<le> 2 ^ 32"
    and c: "calls w r = Some c" "is_waiting (c_phase c)" "c_chan c = Empty"
  obtains m where "mstate w = RequestMap m"
    "map_of m (c_cid c) = Some \<lparr>ar_channel = r, ar_tagged = c_tagged c\<rparr>"
proof -
  from invD(5) [OF inv bound] c obtain ar where ar: "(c_cid c, ar) \<in> set (entries w)"
    by (auto simp: inv_served_def served_def)
  then obtain m where m: "mstate w = RequestMap m" by (cases "mstate w") (auto simp: entries_def)
  with ar obtain ar' where ar': "map_of m (c_cid c) = Some ar'"
    by (cases "map_of m (c_cid c)") (auto simp: entries_RequestMap map_of_eq_None_iff rev_image_eqI)
  then have "(c_cid c, ar') \<in> set (entries w)"
    using m by (auto simp: entries_RequestMap dest: map_of_SomeD)
  with invD(2) [OF inv] obtain d where d: "calls w (ar_channel ar') = Some d" "c_cid d = c_cid c"
    "ar_tagged ar' = c_tagged d"
    by (auto simp: inv_map_def)
  with cid_inj [OF invD(1) [OF inv] bound d(1) c(1)] c have "ar_channel ar' = r" "d = c" by auto
  with d(3) have "ar' = \<lparr>ar_channel = r, ar_tagged = c_tagged c\<rparr>" by (cases ar') simp
  with m ar' that show thesis by simp
qed

text \<open>A response to a call that waits, as the next message, reaches that call and no other.\<close>

lemma handle_response:
  assumes m: "mstate w = RequestMap m"
    and found: "map_of m cid = Some \<lparr>ar_channel = r, ar_tagged = False\<rparr>"
    and c: "calls w r = Some c" "c_chan c = Empty"
  shows "handle_message (to_be_bytes 4 cid @ payload) w =
    w\<lparr>mstate := RequestMap (AList.delete cid m),
      calls := (calls w)(r \<mapsto> c\<lparr>c_chan := Full (Ok
        \<lparr>resp_header = \<lparr>rsh_correlation_id = cid, rsh_tagged_fields = None\<rparr>, resp_data = payload,
         resp_size = 4 + length payload\<rparr>)\<rparr>)\<rparr>"
proof -
  have "read_ResponseHeader (ApiVersion 0) (to_be_bytes 4 cid @ payload, None) =
      Ok (\<lparr>rsh_correlation_id = cid, rsh_tagged_fields = None\<rparr>, (payload, None))"
    by (simp add: read_ResponseHeader_def read_Int32_def from_to_be_bytes)
  then show ?thesis
    by (simp add: handle_message_def m found chan_put_def c)
qed

text \<open>What every finished call has: a response with its ID, or an error.\<close>

lemma finished_answers:
  assumes "reachable m w" and "calls w r = Some c" and "c_phase c = Finished (Ok resp)"
  shows "rsh_correlation_id (resp_header resp) = c_cid c"
  using invD(3) [OF reachable_minv [OF assms(1)]] assms(2,3)
  by (fastforce simp: inv_answers_def answers_call_def)

section \<open>What is on the wire\<close>

text \<open>Operations that at most put something into channels.\<close>

definition only_chan :: "call option \<Rightarrow> call option \<Rightarrow> bool" where
  "only_chan a b \<longleftrightarrow> (case a of None \<Rightarrow> b = None | Some c \<Rightarrow> \<exists>x. b = Some (c\<lparr>c_chan := x\<rparr>))"

definition keeps :: "world \<Rightarrow> world \<Rightarrow> bool" where
  "keeps w w' \<longleftrightarrow> m_client_id w' = m_client_id w \<and> out w' = out w \<and>
     (\<forall>r. only_chan (calls w r) (calls w' r))"

lemma some_chan [simp]: "\<exists>x. c = c\<lparr>c_chan := x\<rparr>"
  by (rule exI [of _ "c_chan c"]) simp

lemma only_chan_refl [simp]: "only_chan a a"
  by (simp add: only_chan_def split: option.splits)

lemma only_chan_if [simp]: "only_chan a (map_option (\<lambda>c. if P c then c\<lparr>c_chan := x\<rparr> else c) a)"
  using only_chan_refl [of a] by (cases a) (auto simp: only_chan_def)

lemma keeps_take_entry: "keeps w (take_entry cid x w)"
  by (auto simp: keeps_def take_entry_def split: messenger_state.splits option.splits)

lemma keeps_handle_message: "keeps w (handle_message msg w)"
  by (cases rule: handle_message_cases [of msg w])
    (simp_all add: keeps_take_entry, simp_all add: keeps_def)

lemma keeps_poison: "keeps w (fst (poison e w))"
proof -
  have "m_client_id (fst (poison e w)) = m_client_id w" "out (fst (poison e w)) = out w"
    using fold_send by (auto simp: poison_def split: messenger_state.splits)
  then show ?thesis by (simp add: keeps_def calls_poison)
qed

lemma keeps_send_failed:
  obtains x where "keeps (set_phase r (Finished (Err x)) w) (send_failed r e w)"
proof -
  obtain w' err where p: "poison e w = (w', err)" by (cases "poison e w")
  with keeps_poison [of w e] have k: "keeps w w'" by simp
  have "keeps (set_phase r (Finished (Err (Poisoned err))) w) (send_failed r e w)"
    unfolding keeps_def
  proof (intro conjI allI)
    fix r'
    from k have "only_chan (calls w r') (calls w' r')" by (simp add: keeps_def)
    then show "only_chan (calls (set_phase r (Finished (Err (Poisoned err))) w) r')
        (calls (send_failed r e w) r')"
      by (auto simp: send_failed_def p only_chan_def split: option.splits
          intro!: exI [of _ "c_chan (the (calls w' r'))"])
  qed (use k in \<open>simp_all add: keeps_def send_failed_def p\<close>)
  then show thesis by (rule that)
qed

lemma keeps_map_insert: "keeps w (map_insert cid ar m w)"
  by (auto simp: keeps_def map_insert_def Let_def split: option.splits)

text \<open>The frame of a call, and the calls whose turn to write is over.\<close>

definition call_frame :: "world \<Rightarrow> nat \<Rightarrow> u8 list" where
  "call_frame w r =
     (case calls w r of
        Some c \<Rightarrow> (case call_buffer w c of Ok buf \<Rightarrow> frame_bytes buf | _ \<Rightarrow> [])
      | None \<Rightarrow> [])"

definition has_left :: "phase \<Rightarrow> bool" where
  "has_left ph = (case ph of Awaiting \<Rightarrow> True | Cancelled \<Rightarrow> True | Finished _ \<Rightarrow> True | _ \<Rightarrow> False)"

definition inv_buf :: "world \<Rightarrow> bool" where
  "inv_buf w \<longleftrightarrow> (\<forall>r c buf. calls w r = Some c \<longrightarrow>
     c_phase c = Sending buf \<or> c_phase c = Rescued buf \<longrightarrow> call_buffer w c = Ok buf)"

text \<open>
  The calls whose frames are on the wire, in the order in which they wrote: nothing else is, and
  the last frame is cut off only when the transport takes no more.
\<close>

definition wire_order :: "world \<Rightarrow> nat list \<Rightarrow> bool" where
  "wire_order w order \<longleftrightarrow> distinct order \<and>
     (\<forall>r \<in> set order. call_frame w r \<noteq> [] \<and> (\<exists>c. calls w r = Some c \<and> has_left (c_phase c))) \<and>
     (\<forall>r c. calls w r = Some c \<longrightarrow> c_phase c = Awaiting \<longrightarrow> r \<in> set order) \<and>
     prefix (written (out w)) (concat (map (call_frame w) order)) \<and>
     (written (out w) = concat (map (call_frame w) order) \<or> capacity (out w) = Some 0)"

definition inv_wire :: "world \<Rightarrow> bool" where
  "inv_wire w \<longleftrightarrow> inv_buf w \<and> (\<exists>order. wire_order w order)"

lemma only_chan_Some: "only_chan a (Some c') \<Longrightarrow> \<exists>c x. a = Some c \<and> c' = c\<lparr>c_chan := x\<rparr>"
  by (auto simp: only_chan_def split: option.splits)

lemma keeps_call_frame: "keeps w w' \<Longrightarrow> call_frame w' r = call_frame w r"
  by (auto simp: keeps_def call_frame_def only_chan_def call_buffer_def split: option.splits
      dest!: spec [of _ r])

lemma keeps_inv_wire:
  assumes "keeps w w'" and "inv_wire w"
  shows "inv_wire w'"
proof -
  from assms(2) obtain order where buf: "inv_buf w" and wire: "wire_order w order"
    by (auto simp: inv_wire_def)
  have old: "\<exists>c x. calls w r = Some c \<and> c' = c\<lparr>c_chan := x\<rparr>" if "calls w' r = Some c'" for r c'
    using assms(1) that only_chan_Some [of "calls w r" c']
    unfolding keeps_def by (metis (no_types))
  have new: "\<exists>c'. calls w' r = Some c' \<and> c_phase c' = c_phase c" if "calls w r = Some c" for r c
    using assms(1) that by (auto simp: keeps_def only_chan_def dest!: spec [of _ r])
  have cl: "m_client_id w' = m_client_id w" "out w' = out w" using assms(1) by (simp_all add: keeps_def)
  have "inv_buf w'"
    using buf old cl by (fastforce simp: inv_buf_def call_buffer_def)
  moreover have "wire_order w' order"
    using wire old new unfolding wire_order_def keeps_call_frame [OF assms(1)] cl by fastforce
  ultimately show ?thesis by (auto simp: inv_wire_def)
qed

text \<open>A call that moves on without writing.\<close>

lemma call_frame_cong: "m_client_id w' = m_client_id w \<Longrightarrow> calls w' = calls w \<Longrightarrow> call_frame w' = call_frame w"
  by (rule ext) (auto simp: call_frame_def call_buffer_def split: option.splits)

lemma call_frame_set_phase [simp]: "call_frame (set_phase r ph w) = call_frame w"
  by (rule ext) (auto simp: call_frame_def call_buffer_def split: option.splits)

lemma inv_wire_set_phase:
  assumes "inv_wire w" and "calls w r = Some c"
    and "\<And>buf. ph = Sending buf \<or> ph = Rescued buf \<Longrightarrow> call_buffer w c = Ok buf"
    and "has_left (c_phase c) \<Longrightarrow> has_left ph" and "ph = Awaiting \<Longrightarrow> c_phase c = Awaiting"
  shows "inv_wire (set_phase r ph w)"
proof -
  from assms(1) obtain order where buf: "inv_buf w" and wire: "wire_order w order"
    by (auto simp: inv_wire_def)
  have "inv_buf (set_phase r ph w)"
    using buf assms(2,3) by (auto simp: inv_buf_def call_buffer_def split: if_splits)
  moreover have "wire_order (set_phase r ph w) order"
    using wire assms(2,4,5) by (auto simp: wire_order_def split: if_splits)
  ultimately show ?thesis by (auto simp: inv_wire_def)
qed

text \<open>A call that writes.\<close>

lemma wire_order_write:
  assumes wire: "wire_order w order" and c: "calls w r = Some c" "\<not> has_left (c_phase c)"
    and frame: "call_frame w r = frame_bytes buf"
    and wr: "write_message buf (out w) = (res, o')"
    and ph: "has_left ph" "ph = Awaiting \<Longrightarrow> res = Ok ()"
  obtains order' where "wire_order (set_phase r ph (w\<lparr>out := o'\<rparr>)) order'"
proof -
  let ?w = "set_phase r ph (w\<lparr>out := o'\<rparr>)" and ?all = "concat (map (call_frame w) order)"
  have fr: "call_frame ?w = call_frame w"
  proof -
    have "call_frame ?w = call_frame (w\<lparr>out := o'\<rparr>)" by simp
    also have "\<dots> = call_frame w" by (rule call_frame_cong) simp_all
    finally show ?thesis .
  qed
  have new: "r \<notin> set order" using wire c by (auto simp: wire_order_def)
  have "frame_bytes buf \<noteq> []" by (simp add: frame_bytes_def to_be_bytes_def)
  with frame have nonempty: "call_frame w r \<noteq> []" by simp
  have longer: "wire_order ?w (order @ [r])"
    if "prefix (written o') (?all @ frame_bytes buf)"
      "written o' = ?all @ frame_bytes buf \<or> capacity o' = Some 0"
    using wire new c ph(1) frame nonempty that unfolding wire_order_def fr by (auto split: if_splits)
  show thesis
  proof (cases "res = Ok ()")
    case True
    then have ok: "written o' = written (out w) @ frame_bytes buf"
      using write_message_ok(2) [of buf "out w" o'] wr by simp
    have "written (out w) = ?all"
      using wire write_message_full [OF wr] True by (auto simp: wire_order_def)
    with ok longer that show thesis by auto
  next
    case False
    have same: "wire_order ?w order" if "written o' = written (out w)" "capacity o' = capacity (out w)"
      using wire new c ph False that unfolding wire_order_def fr by (auto split: if_splits)
    from write_message_not_ok [OF wr False] show thesis
    proof (elim disjE conjE exE)
      assume "o' = out w"
      with same that show thesis by simp
    next
      fix n assume n: "capacity o' = Some 0" "written o' = written (out w) @ take n (frame_bytes buf)"
      show thesis
      proof (cases "written (out w) = ?all")
        case True
        with n longer that show thesis by (auto simp: take_is_prefix)
      next
        case False
        with wire have "capacity (out w) = Some 0" by (auto simp: wire_order_def)
        from write_message_full [OF wr this] same that show thesis by simp
      qed
    qed
  qed
qed

lemma inv_wire_write:
  assumes "inv_wire w" and "calls w r = Some c" and "c_phase c = Sending buf \<or> c_phase c = Rescued buf"
    and "write_message buf (out w) = (res, o')" and "has_left ph" "ph = Awaiting \<Longrightarrow> res = Ok ()"
  shows "inv_wire (set_phase r ph (w\<lparr>out := o'\<rparr>))"
proof -
  from assms(1) obtain order where buf: "inv_buf w" and wire: "wire_order w order"
    by (auto simp: inv_wire_def)
  have "call_frame w r = frame_bytes buf"
    using buf assms(2,3) by (auto simp: inv_buf_def call_frame_def)
  moreover have "\<not> has_left (c_phase c)" using assms(3) by (auto simp: has_left_def)
  ultimately obtain order' where "wire_order (set_phase r ph (w\<lparr>out := o'\<rparr>)) order'"
    using wire_order_write [OF wire assms(2) _ _ assms(4)] assms(5,6) by blast
  moreover have "inv_buf (set_phase r ph (w\<lparr>out := o'\<rparr>))"
    using buf assms(2,5) by (auto simp: inv_buf_def call_buffer_def has_left_def split: if_splits)
  ultimately show ?thesis by (auto simp: inv_wire_def)
qed

lemma inv_wire_write_failed:
  assumes "inv_wire w" and "calls w r = Some c" and "c_phase c = Sending buf"
    and "write_message buf (out w) = (res, o')"
  shows "inv_wire (send_failed r e (w\<lparr>out := o'\<rparr>))"
proof -
  obtain x where "keeps (set_phase r (Finished (Err x)) (w\<lparr>out := o'\<rparr>)) (send_failed r e (w\<lparr>out := o'\<rparr>))"
    by (rule keeps_send_failed)
  moreover have "inv_wire (set_phase r (Finished (Err x)) (w\<lparr>out := o'\<rparr>))"
    using assms by (intro inv_wire_write [where c = c]) (auto simp: has_left_def)
  ultimately show ?thesis by (rule keeps_inv_wire)
qed

lemma inv_wire_register:
  assumes "inv_wire w" and c: "calls w r = Some c" "c_phase c = Allocated" "call_buffer w c = Ok buf"
  shows "inv_wire (register r c buf w)"
proof (cases "mstate w")
  case (RequestMap m)
  let ?w = "map_insert (c_cid c) \<lparr>ar_channel = r, ar_tagged = c_tagged c\<rparr> m w"
  have k: "keeps w ?w" by (rule keeps_map_insert)
  with c(1) obtain x where x: "calls ?w r = Some (c\<lparr>c_chan := x\<rparr>)"
    by (auto simp: keeps_def only_chan_def dest!: spec [of _ r])
  moreover have "call_buffer ?w (c\<lparr>c_chan := x\<rparr>) = Ok buf"
    using k c(3) by (simp add: call_buffer_def keeps_def)
  ultimately have "inv_wire (set_phase r (Sending buf) ?w)"
    using keeps_inv_wire [OF k assms(1)] c(2)
    by (intro inv_wire_set_phase [where c = "c\<lparr>c_chan := x\<rparr>"]) (auto simp: has_left_def)
  with RequestMap show ?thesis by (simp add: register_def)
next
  case (Poison e)
  with assms(1) c show ?thesis
    by (auto simp: register_def has_left_def intro!: inv_wire_set_phase)
qed

lemma inv_wire_allocate:
  assumes "inv_wire w" and "inv_ids w"
  shows "inv_wire (allocate rt body v w)"
proof -
  let ?w = "allocate rt body v w"
  from assms(1) obtain order where buf: "inv_buf w" and wire: "wire_order w order"
    by (auto simp: inv_wire_def)
  have fresh: "calls w (allocated w) = None"
    using assms(2) by (cases "calls w (allocated w)") (auto simp: inv_ids_def)
  then have frames: "map (call_frame ?w) order = map (call_frame w) order"
    using wire by (auto simp: wire_order_def call_frame_def call_buffer_def allocate_def)
  have "inv_buf ?w"
    using buf by (auto simp: inv_buf_def call_buffer_def allocate_def new_call_def)
  moreover have "call_frame ?w r = call_frame w r" if "r \<in> set order" for r
    using frames that by simp
  then have "wire_order ?w order"
    using wire fresh unfolding wire_order_def frames by (auto simp: allocate_def new_call_def)
  ultimately show ?thesis by (auto simp: inv_wire_def)
qed

lemma inv_wire_cancel:
  assumes "inv_wire w" and "calls w r = Some c" and "c_phase c = Sending buf"
    and "ph = Cancelled \<or> ph = Rescued buf"
  shows "inv_wire (cleanup cid (set_phase r ph w))"
proof -
  have "call_buffer w c = Ok buf"
    using assms(1-3) by (auto simp: inv_wire_def inv_buf_def)
  then have "inv_wire (set_phase r ph w)"
    using assms by (intro inv_wire_set_phase) (auto simp: has_left_def)
  with keeps_take_entry show ?thesis unfolding cleanup_eq by (rule keeps_inv_wire)
qed

lemma inv_wire_incoming [simp]:
  "inv_wire (w\<lparr>incoming := s\<rparr>) = inv_wire w" "inv_wire (w\<lparr>reader_alive := a\<rparr>) = inv_wire w"
proof -
  have "call_frame (w\<lparr>incoming := s\<rparr>) = call_frame w" "call_frame (w\<lparr>reader_alive := a\<rparr>) = call_frame w"
    by (rule call_frame_cong; simp)+
  then show "inv_wire (w\<lparr>incoming := s\<rparr>) = inv_wire w" "inv_wire (w\<lparr>reader_alive := a\<rparr>) = inv_wire w"
    by (simp_all add: inv_wire_def inv_buf_def wire_order_def call_buffer_def)
qed

lemma inv_wire_drop [simp]: "inv_wire (messenger_drop w) = inv_wire w"
proof -
  have "call_frame (messenger_drop w) = call_frame w" by (rule call_frame_cong; simp)
  then show ?thesis by (simp add: inv_wire_def inv_buf_def wire_order_def call_buffer_def)
qed

lemma inv_wire_mstep: "mstep m w w' \<Longrightarrow> minv w \<Longrightarrow> inv_wire w \<Longrightarrow> inv_wire w'"
proof (induction rule: mstep.induct)
  case (start rt ranges v w body)
  then show ?case by (intro inv_wire_allocate invD)
next
  case (registered w r c buf)
  then show ?case by (intro inv_wire_register)
next
  case (sent w r c buf fl o')
  from sent(3) obtain res' where "write_message buf (out w) = (res', o')" "res' = Ok ()"
    by (rule send_message_inner_write) simp
  with sent show ?case by (intro inv_wire_write) (auto simp: has_left_def)
next
  case (not_sent w r c buf fl e o')
  from not_sent(3) obtain res' where "write_message buf (out w) = (res', o')"
    by (rule send_message_inner_write)
  with not_sent show ?case by (intro inv_wire_write_failed)
next
  case (rescued w r c buf fl)
  obtain res' where "write_message buf (out w) = (res', snd (send_message_inner buf fl (out w)))"
    by (rule send_message_inner_write [OF prod.collapse [symmetric]])
  with rescued show ?case unfolding rescue_def by (intro inv_wire_write) (auto simp: has_left_def)
next
  case (reader w w')
  from reader(2) show ?case
  proof (cases rule: reader_round_cases)
    case (message msg s')
    with reader(4) show ?thesis using keeps_inv_wire [OF keeps_handle_message] by simp
  next
    case (failed e s')
    with reader(4) show ?thesis using keeps_inv_wire [OF keeps_poison] by simp
  qed (use reader(4) in simp)
qed (auto simp: has_left_def intro: inv_wire_set_phase inv_wire_cancel)

lemma reachable_inv_wire: "reachable m w \<Longrightarrow> inv_wire w"
proof (induction rule: reachable.induct)
  case (init cl s room)
  have "wire_order (messenger_new cl s room) []"
    by (simp add: wire_order_def messenger_new_def)
  then show ?case by (auto simp: inv_wire_def inv_buf_def messenger_new_def)
next
  case (step w w')
  then show ?case using inv_wire_mstep reachable_minv by blast
qed

text \<open>The same with the buffers of the calls.\<close>

definition wrote :: "world \<Rightarrow> nat \<Rightarrow> u8 list \<Rightarrow> bool" where
  "wrote w r buf \<longleftrightarrow> (\<exists>c. calls w r = Some c \<and> has_left (c_phase c) \<and> call_buffer w c = Ok buf)"

lemma wire_order_wrote:
  assumes "wire_order w order"
  obtains bufs where "list_all2 (wrote w) order bufs"
    "concat (map (call_frame w) order) = concat (map frame_bytes bufs)"
proof -
  have "\<exists>buf. wrote w r buf \<and> call_frame w r = frame_bytes buf" if "r \<in> set order" for r
  proof -
    from assms that obtain c where c: "calls w r = Some c" "has_left (c_phase c)" "call_frame w r \<noteq> []"
      by (auto simp: wire_order_def)
    then obtain buf where "call_buffer w c = Ok buf"
      by (cases "call_buffer w c") (auto simp: call_frame_def)
    with c show ?thesis by (auto simp: wrote_def call_frame_def)
  qed
  then have "\<exists>bufs. list_all2 (\<lambda>r buf. wrote w r buf \<and> call_frame w r = frame_bytes buf) order bufs"
    by (induction order) (auto simp: list_all2_Cons1)
  then obtain bufs where bufs:
    "list_all2 (\<lambda>r buf. wrote w r buf \<and> call_frame w r = frame_bytes buf) order bufs" ..
  then have "map (call_frame w) order = map frame_bytes bufs"
    by (auto simp: list_all2_conv_all_nth intro!: nth_equalityI)
  moreover from bufs have "list_all2 (wrote w) order bufs" by (rule list_all2_mono) simp
  ultimately show thesis by (intro that) simp_all
qed

end
