(* ===== verification/Wire.thy ===== *)
theory Wire
  imports Clients Messenger_Steps
begin

text \<open>
  Typed requests over connections: \<open>Messenger::request\<close> of \<open>src/src/messenger.rs\<close> for a call that no
  other call disturbs, composed of the operations of the concurrent messenger, and the requests
  of the clients sent in this way.

  Each transport has its messenger, and all the brokers together are a \<open>peer\<close>: a function that
  takes the bytes that a request has put on a transport and gives the bytes that come back.

  What is proved: such a call is a run of the concurrent messenger, so that what is shown of its
  runs holds here; and when the peer answers the request, the call returns what the answer reads
  as and leaves the messenger ready for the next.
\<close>

section \<open>Waiting\<close>

text \<open>A message that was read is gone from the stream.\<close>

lemma skip_loop_shorter:
  assumes "skip_loop m n s = Some (r, s')"
  shows "length (fst s') \<le> length (fst s)"
  using assms
  by (cases s; cases "m = 0"; cases "n = 0")
    (auto simp: skip_loop_progress skip_loop_zero split: if_splits)

lemma read_message_shorter:
  assumes "read_message m s = Some (r, s')"
  shows "length (fst s') \<le> length (fst s) \<and> (\<forall>msg. r = Ok msg \<longrightarrow> length (fst s') < length (fst s))"
  using assms
  by (cases s) (auto simp: read_message_def exhausted_def split: if_splits outcome.splits option.splits
      prod.splits dest!: skip_loop_shorter)

lemma handle_message_incoming [simp]: "incoming (handle_message msg w) = incoming w"
  by (simp add: handle_message_def Let_def split: outcome.splits option.splits prod.splits messenger_state.splits)

lemma poison_incoming [simp]: "incoming (fst (poison e w)) = incoming w"
  using fold_send by (auto simp: poison_def split: messenger_state.splits)

definition left_to_read :: "world \<Rightarrow> nat" where
  "left_to_read w = length (fst (incoming w)) + (if reader_alive w then 1 else 0)"

lemma reader_round_progress:
  assumes "reader_round m w = Some w'" and "reader_alive w"
  shows "left_to_read w' < left_to_read w"
  using assms
  by (auto simp: reader_round_def left_to_read_def split: option.splits prod.splits outcome.splits
      dest!: read_message_shorter)

text \<open>
  \<open>rx.await\<close>, while the background task runs.  A call whose channel stays empty when the task is
  gone would wait forever, which is the panic \<open>Diverges\<close>.
\<close>

function await_response :: "usize \<Rightarrow> nat \<Rightarrow> world \<Rightarrow> (request_error, response) outcome \<times> world" where
  "await_response max_message_size r w =
     (case map_option c_chan (calls w r) of
        Some (Full x) \<Rightarrow> (x, set_phase r (Finished x) w)
      | Some Closed \<Rightarrow> (Panic ExpectFailed, set_phase r (Finished (Panic ExpectFailed)) w)
      | _ \<Rightarrow>
          (case (if reader_alive w then reader_round max_message_size w else None) of
             Some w' \<Rightarrow> await_response max_message_size r w'
           | None \<Rightarrow> (Panic Diverges, w)))"
  by pat_completeness auto
termination
  by (relation "measure (\<lambda>(m, r, w). left_to_read w)") (auto split: if_splits dest: reader_round_progress)

declare await_response.simps [simp del]

section \<open>One call\<close>

type_synonym ('x, 'p) peer = "'x \<Rightarrow> u8 list \<Rightarrow> 'p \<Rightarrow> u8 list \<times> 'p"

text \<open>What the peer sends back arrives behind what has arrived.\<close>

definition deliver :: "u8 list \<Rightarrow> world \<Rightarrow> world" where
  "deliver bs w = w\<lparr>incoming := (fst (incoming w) @ bs, snd (incoming w))\<rparr>"

text \<open>The call from its correlation ID to its response, with the buffer that it sends.\<close>

definition call_response :: "usize \<Rightarrow> (u8 list \<Rightarrow> 'p \<Rightarrow> u8 list \<times> 'p) \<Rightarrow> request_type \<Rightarrow>
    (ApiVersion \<Rightarrow> vwres) \<Rightarrow> ApiVersion \<Rightarrow> world \<times> 'p \<Rightarrow>
    (request_error, response) outcome \<times> world \<times> 'p" where
  "call_response max_message_size answer rt body v = (\<lambda>(w, p).
     let r = allocated w; c = new_call rt body v (next_id w); w1 = allocate rt body v w
     in case call_buffer w1 c of
          Err e \<Rightarrow> (Err e, set_phase r (Finished (Err e)) w1, p)
        | Panic x \<Rightarrow> (Panic x, set_phase r (Finished (Panic x)) w1, p)
        | Ok buf \<Rightarrow>
            let w2 = register r c buf w1
            in case mstate w of
                 Poison e \<Rightarrow> (Err (Poisoned e), w2, p)
               | RequestMap _ \<Rightarrow>
                   (case send_message_inner buf None (out w2) of
                      (Err e, out2) \<Rightarrow>
                        (Err (Poisoned (snd (poison e (w2\<lparr>out := out2\<rparr>)))), send_failed r e (w2\<lparr>out := out2\<rparr>), p)
                    | (Panic x, out2) \<Rightarrow> (Panic x, w2\<lparr>out := out2\<rparr>, p)
                    | (Ok _, out2) \<Rightarrow>
                        (case answer (drop (length (written (out w2))) (written out2)) p of
                           (bs, p') \<Rightarrow>
                             (case await_response max_message_size r
                                     (deliver bs (set_phase r Awaiting (w2\<lparr>out := out2\<rparr>))) of
                                (x, w3) \<Rightarrow> (x, w3, p')))))"

definition request_with_version_ranges :: "usize \<Rightarrow> (u8 list \<Rightarrow> 'p \<Rightarrow> u8 list \<times> 'p) \<Rightarrow> version_ranges \<Rightarrow>
    request_type \<Rightarrow> (ApiVersion \<Rightarrow> vwres) \<Rightarrow> (ApiVersion \<Rightarrow> 'a reader) \<Rightarrow> world \<times> 'p \<Rightarrow>
    (request_error, 'a) outcome \<times> world \<times> 'p" where
  "request_with_version_ranges max_message_size answer version_ranges rt body rd w =
     (case choose_version rt version_ranges of
        Err e \<Rightarrow> (Err e, w)
      | Panic x \<Rightarrow> (Panic x, w)
      | Ok v \<Rightarrow>
          (case call_response max_message_size answer rt body v w of
             (response, w') \<Rightarrow> (bind_o response (decode_response rt rd v), w')))"

section \<open>Requests of the clients\<close>

text \<open>The messenger of each transport, and the brokers.\<close>

record ('x, 'p) wires =
  wi_messengers :: "'x \<Rightarrow> world"
  wi_peer :: 'p

text \<open>\<open>Messenger::request\<close> on a connection.\<close>

definition wire_request :: "('x, 'p) peer \<Rightarrow> request_type \<Rightarrow> (ApiVersion \<Rightarrow> 'r \<Rightarrow> vwres) \<Rightarrow>
    (ApiVersion \<Rightarrow> 'a reader) \<Rightarrow> 'x connection \<Rightarrow> 'r \<Rightarrow> ('c, ('x, 'p) wires) connector \<Rightarrow>
    (request_error, 'a) outcome \<times> ('c, ('x, 'p) wires) connector" where
  "wire_request peer rt wr rd c msg s =
     (let x = co_transport c
      in case request_with_version_ranges (co_max_message_size c) (peer x) (co_version_ranges c) rt
              (\<lambda>v. wr v msg) rd (wi_messengers (cn_env s) x, wi_peer (cn_env s)) of
           (response, w, p) \<Rightarrow>
             (response, s\<lparr>cn_env := \<lparr>wi_messengers = (wi_messengers (cn_env s))(x := w), wi_peer = p\<rparr>\<rparr>))"

definition wire_send :: "('x, 'p) peer \<Rightarrow> request_type \<Rightarrow> (ApiVersion \<Rightarrow> 'r \<Rightarrow> vwres) \<Rightarrow>
    (ApiVersion \<Rightarrow> 'a reader) \<Rightarrow> 'x connection \<Rightarrow> 'r \<Rightarrow> ('b, 'c, ('x, 'p) wires) client_world \<Rightarrow>
    (request_error, 'a) outcome \<times> ('b, 'c, ('x, 'p) wires) client_world" where
  "wire_send peer rt wr rd c msg = on_connector (wire_request peer rt wr rd c msg)"

text \<open>
  The requests of a connection that is being set up, and the network of a connector that sets up
  its connections and asks for metadata in this way.
\<close>

definition wire_link :: "('x, 'p) peer \<Rightarrow> (usize \<Rightarrow> ('c, ('x, 'p) wires) connector \<Rightarrow> ('c, ('x, 'p) wires) connector) \<Rightarrow>
    ('x, ('c, ('x, 'p) wires) connector) link" where
  "wire_link peer sleep =
     \<lparr>lk_versions = (\<lambda>c msg version_ranges.
        wire_request peer ApiVersions_type write_ApiVersionsRequest read_ApiVersionsResponse
          (c\<lparr>co_version_ranges := version_ranges\<rparr>) msg),
      lk_sasl = (\<lambda>c. \<lparr>
        sl_handshake = wire_request peer SaslHandshake_type write_SaslHandshakeRequest read_SaslHandshakeResponse c,
        sl_authenticate = wire_request peer SaslAuthenticate_type write_SaslAuthenticateRequest
          read_SaslAuthenticateResponse c\<rparr>),
      lk_sleep = sleep\<rparr>"

definition wire_network :: "(('t, 'l) Transport, 'p) peer \<Rightarrow>
    ('t, 'l, 'n, (('t, 'l) Transport connection, (('t, 'l) Transport, 'p) wires) connector) transport_lib \<Rightarrow>
    ('g, 's) rsasl \<Rightarrow> (('t, 'l) Transport connection, (('t, 'l) Transport, 'p) wires) network \<Rightarrow>
    (('t, 'l) Transport connection, (('t, 'l) Transport, 'p) wires) network" where
  "wire_network peer lib rs nw =
     establishing lib rs (wire_link peer (\<lambda>millis. nw_sleep nw (real millis / 1000)))
       (nw\<lparr>nw_metadata := wire_request peer Metadata_type write_MetadataRequest read_MetadataResponse\<rparr>)"

section \<open>A call is a run of the concurrent messenger\<close>

lemma chan_put_phase [simp]:
  "map_option c_phase (calls (chan_put x r' w) r) = map_option c_phase (calls w r)"
  by (cases "calls w r") (auto simp: chan_put_def split: option.splits)

lemma handle_message_phase [simp]:
  "map_option c_phase (calls (handle_message msg w) r) = map_option c_phase (calls w r)"
  by (simp add: handle_message_def Let_def del: calls_chan_put split: outcome.splits option.splits prod.splits
      messenger_state.splits)

lemma poison_phase [simp]:
  "map_option c_phase (calls (fst (poison e w)) r) = map_option c_phase (calls w r)"
  by (cases "calls w r") (simp_all add: calls_poison)

lemma reader_round_phase:
  "reader_round m w = Some w' \<Longrightarrow> map_option c_phase (calls w' r) = map_option c_phase (calls w r)"
  by (erule reader_round_cases) simp_all

lemma await_response_run:
  "map_option c_phase (calls w r) = Some Awaiting \<Longrightarrow> (mstep m)\<^sup>*\<^sup>* w (snd (await_response m r w))"
proof (induction m r w rule: await_response.induct)
  case (1 m r w)
  then obtain c where c: "calls w r = Some c" "c_phase c = Awaiting" by auto
  show ?case
  proof (cases "c_chan c")
    case Empty
    show ?thesis
    proof (cases "reader_alive w \<and> reader_round m w \<noteq> None")
      case True
      then obtain w' where w': "reader_alive w" "reader_round m w = Some w'" by auto
      have "\<exists>c'. calls w' r = Some c' \<and> c_phase c' = Awaiting"
        using reader_round_phase [OF w'(2), of r] c by auto
      with "1.IH" c Empty w' have "(mstep m)\<^sup>*\<^sup>* w' (snd (await_response m r w'))" by auto
      moreover have "mstep m w w'" using w' by (rule mstep.reader)
      moreover have "await_response m r w = await_response m r w'"
        using c Empty w' by (subst await_response.simps) simp
      ultimately show ?thesis by (simp add: converse_rtranclp_into_rtranclp)
    next
      case False
      with c Empty show ?thesis by (subst await_response.simps) (auto split: option.splits)
    qed
  qed (use c mstep.received mstep.closed in \<open>auto simp: await_response.simps [of m r w]\<close>)
qed

lemma deliver_fields [simp]:
  "mstate (deliver bs w) = mstate w" "next_id (deliver bs w) = next_id w"
  "allocated (deliver bs w) = allocated w" "m_client_id (deliver bs w) = m_client_id w"
  "out (deliver bs w) = out w" "reader_alive (deliver bs w) = reader_alive w"
  "calls (deliver bs w) = calls w" "m_dropped (deliver bs w) = m_dropped w" "incoming (deliver bs w) = (fst (incoming w) @ bs, snd (incoming w))"
  by (simp_all add: deliver_def)

lemma deliver_ops:
  "allocate rt body v (deliver bs w) = deliver bs (allocate rt body v w)"
  "set_phase r ph (deliver bs w) = deliver bs (set_phase r ph w)"
  "register r c buf (deliver bs w) = deliver bs (register r c buf w)"
  "(deliver bs w)\<lparr>out := out'\<rparr> = deliver bs (w\<lparr>out := out'\<rparr>)"
  by (simp_all add: deliver_def allocate_def set_phase_def register_def map_insert_def chan_put_def Let_def
      split: option.splits messenger_state.splits)

lemma deliver_nothing [simp]: "deliver [] w = w"
  by (simp add: deliver_def)

text \<open>
  The messenger with what will arrive already in its stream goes through the same states: up to
  the registration of the call, and from there to the end of the wait.
\<close>

lemma call_starts:
  assumes "choose_version rt ranges = Ok v" and "\<not> m_dropped w"
  shows "mstep m (deliver bs w) (deliver bs (allocate rt body v w))"
    and "calls (deliver bs (allocate rt body v w)) (allocated w) = Some (new_call rt body v (next_id w))"
proof -
  show "mstep m (deliver bs w) (deliver bs (allocate rt body v w))"
    using mstep.start [OF assms(1), of "deliver bs w" m body] assms(2) by (simp add: deliver_ops)
qed (simp add: allocate_def)

lemma call_registers:
  assumes "choose_version rt ranges = Ok v" and "\<not> m_dropped w"
    and "call_buffer (allocate rt body v w) (new_call rt body v (next_id w)) = Ok buf"
  shows "(mstep m)\<^sup>*\<^sup>* (deliver bs w)
    (deliver bs (register (allocated w) (new_call rt body v (next_id w)) buf (allocate rt body v w)))"
proof -
  have "call_buffer (deliver bs (allocate rt body v w)) (new_call rt body v (next_id w)) = Ok buf"
    using assms(3) by (simp add: call_buffer_def)
  from mstep.registered [OF call_starts(2) [OF assms(1,2)] _ this, of m] call_starts(1) [OF assms(1,2), of m bs body]
  show ?thesis by (simp add: new_call_def deliver_ops)
qed

lemma register_sends:
  assumes "mstate w = RequestMap rm" and "calls w r = Some c"
  shows "\<exists>c'. calls (register r c buf w) r = Some c' \<and> c_phase c' = Sending buf"
  using assms by (cases "map_of rm (c_cid c)") (auto simp: register_def map_insert_def Let_def chan_put_def
      split: option.splits)

lemma call_waits:
  assumes "calls w r = Some c" and "c_phase c = Sending buf" and "send_message_inner buf None (out w) = (Ok (), out2)"
  shows "(mstep m)\<^sup>*\<^sup>* (deliver bs w) (snd (await_response m r (deliver bs (set_phase r Awaiting (w\<lparr>out := out2\<rparr>)))))"
proof -
  let ?w = "deliver bs (set_phase r Awaiting (w\<lparr>out := out2\<rparr>))"
  have "mstep m (deliver bs w) ?w"
    using mstep.sent [of "deliver bs w" r c buf None out2 m] assms by (simp add: deliver_ops)
  moreover have "map_option c_phase (calls ?w r) = Some Awaiting" using assms(1) by simp
  from await_response_run [OF this] have "(mstep m)\<^sup>*\<^sup>* ?w (snd (await_response m r ?w))" .
  ultimately show ?thesis by (rule converse_rtranclp_into_rtranclp)
qed

lemma call_response_run:
  assumes "choose_version rt ranges = Ok v" and "call_response m answer rt body v (w, p) = (x, w', p')"
    and "\<not> m_dropped w"
  shows "\<exists>bs. (mstep m)\<^sup>*\<^sup>* (deliver bs w) w'"
proof -
  let ?r = "allocated w" and ?c = "new_call rt body v (next_id w)" and ?w1 = "allocate rt body v w"
  have new: "c_phase ?c = Allocated" by (simp add: new_call_def)
  have start: "mstep m w ?w1" "calls ?w1 ?r = Some ?c"
    using call_starts [OF assms(1,3), where bs = "[]" and body = body] by simp_all
  note run = rtranclp_trans [OF r_into_rtranclp r_into_rtranclp, of "mstep m"]
  show ?thesis
  proof (cases "call_buffer ?w1 ?c")
    case (Err e)
    then have "w' = set_phase ?r (Finished (outcome.Err e)) ?w1"
      using assms(2) by (auto simp: call_response_def Let_def)
    with run [OF start(1) mstep.encode_failed [OF start(2) new Err]] show ?thesis by (intro exI [of _ "[]"]) simp
  next
    case (Panic y)
    then have "w' = set_phase ?r (Finished (outcome.Panic y)) ?w1"
      using assms(2) by (auto simp: call_response_def Let_def)
    with run [OF start(1) mstep.encode_panicked [OF start(2) new Panic]] show ?thesis by (intro exI [of _ "[]"]) simp
  next
    case (Ok buf)
    let ?w2 = "register ?r ?c buf ?w1"
    note reg = call_registers [OF assms(1,3) Ok]
    obtain res out2 where send: "send_message_inner buf None (out ?w2) = (res, out2)" by fastforce
    obtain bs q where a: "answer (drop (length (written (out ?w2))) (written out2)) p = (bs, q)" by fastforce
    show ?thesis
    proof (cases "mstate w")
      case (Poison e)
      with reg [of m "[]"] Ok assms(2) show ?thesis
        by (intro exI [of _ "[]"]) (auto simp: call_response_def Let_def)
    next
      case (RequestMap rm)
      then obtain c where c: "calls ?w2 ?r = Some c" "c_phase c = Sending buf"
        using register_sends [OF _ start(2)] by (auto simp: allocate_def)
      show ?thesis
      proof (cases res)
        case (Err e)
        with mstep.not_sent [OF c, of None e out2 m] send reg [of m "[]"] Ok RequestMap assms(2) show ?thesis
          by (intro exI [of _ "[]"]) (auto simp: call_response_def Let_def)
      next
        case (Panic y)
        with send_message_inner_no_panic [of buf None "out ?w2"] send show ?thesis by simp
      next
        case res: (Ok u)
        with call_waits [OF c, of out2 m bs] send reg [of m bs] Ok RequestMap a assms(2) show ?thesis
          by (intro exI [of _ bs]) (auto simp: call_response_def Let_def split: prod.splits elim: rtranclp_trans)
      qed
    qed
  qed
qed

section \<open>Every call ends\<close>

text \<open>No call is waiting, and the background task runs unless the messenger is poisoned.\<close>

definition settled :: "world \<Rightarrow> bool" where
  "settled w \<longleftrightarrow> (case mstate w of RequestMap m \<Rightarrow> m = [] \<and> reader_alive w | Poison _ \<Rightarrow> True)"

lemma settled_ops [simp]:
  "settled (set_phase r ph w) = settled w" "settled (allocate rt body v w) = settled w"
  by (simp_all add: settled_def allocate_def split: messenger_state.splits)

definition waits_alone :: "i32 \<Rightarrow> nat \<Rightarrow> world \<Rightarrow> bool" where
  "waits_alone cid r w \<longleftrightarrow> reader_alive w \<and> (\<exists>t c. mstate w = RequestMap [(cid, \<lparr>ar_channel = r, ar_tagged = t\<rparr>)] \<and>
     calls w r = Some c \<and> c_chan c = Empty)"

text \<open>The channel of the call has its result.\<close>

definition has_result :: "nat \<Rightarrow> world \<Rightarrow> bool" where
  "has_result r w \<longleftrightarrow> settled w \<and> (\<exists>c x. calls w r = Some c \<and> c_chan c = Full x \<and> \<not> is_panic x)"

text \<open>
  Reading goes on to the end of the stream.  With a limit of 0 it does when nothing but an empty
  message comes.
\<close>

definition readable :: "usize \<Rightarrow> stream \<Rightarrow> bool" where
  "readable m s \<longleftrightarrow> 0 < m \<or> fst s = [] \<or> fst s = frame_bytes []"

lemma readable_reads:
  assumes "readable m s"
  obtains x s' where "read_message m s = Some (x, s')" "\<not> is_panic x" "readable m s'"
proof (cases "0 < m")
  case True
  with that read_message_total [OF True, of s] show thesis by (metis prod.collapse readable_def)
next
  case False
  obtain bs e where s: "s = (bs, e)" by (cases s)
  with False assms consider "bs = frame_bytes []" | "bs = []" by (auto simp: readable_def)
  then show thesis
  proof cases
    case 1
    with s read_message_frame [of "[]" m "[]" e] show thesis by (intro that [of "Ok []" "([], e)"]) (simp_all add: readable_def)
  next
    case 2
    with s show thesis by (intro that [of "Err (FrameIO (eof_kind e))" "([], e)"]) (simp_all add: read_message_def exhausted_def readable_def)
  qed
qed

lemma handle_message_waits:
  assumes "waits_alone cid r w"
  shows "waits_alone cid r (handle_message msg w) \<or> has_result r (handle_message msg w)"
proof -
  from assms obtain t c where w: "reader_alive w" "mstate w = RequestMap [(cid, \<lparr>ar_channel = r, ar_tagged = t\<rparr>)]"
    "calls w r = Some c" "c_chan c = Empty"
    by (auto simp: waits_alone_def)
  have head: "\<not> is_panic (read_ResponseHeader (ApiVersion 0) (msg, None))"
    using safe_reader.no_panic [OF safe_read_ResponseHeader [of "ApiVersion 0"]] by simp
  have tags: "\<not> is_panic (read_TaggedFields cursor)" for cursor
    using tagged_in.no_panic .
  show ?thesis
  proof (cases "read_ResponseHeader (ApiVersion 0) (msg, None)")
    case (Ok hc)
    obtain h cursor where hc: "hc = (h, cursor)" by (cases hc)
    show ?thesis
    proof (cases "rsh_correlation_id h = cid")
      case True
      with w Ok hc tags [of cursor] have "has_result r (handle_message msg w)"
        by (cases "read_TaggedFields cursor") (auto simp: handle_message_def Let_def has_result_def settled_def)
      then show ?thesis ..
    next
      case False
      with w Ok hc have "handle_message msg w = w" by (simp add: handle_message_def)
      with assms show ?thesis by simp
    qed
  next
    case (Err e)
    then have "handle_message msg w = w" by (simp add: handle_message_def)
    with assms show ?thesis by simp
  qed (use head in simp)
qed

lemma reader_round_waits:
  assumes "readable m (incoming w)" and "waits_alone cid r w"
  shows "\<exists>w'. reader_round m w = Some w' \<and> (waits_alone cid r w' \<and> readable m (incoming w') \<or> has_result r w')"
proof -
  obtain x s' where x: "read_message m (incoming w) = Some (x, s')" "\<not> is_panic x" "readable m s'"
    by (rule readable_reads [OF assms(1)])
  show ?thesis
  proof (cases x)
    case (Ok msg)
    have "waits_alone cid r (w\<lparr>incoming := s'\<rparr>)" using assms(2) by (auto simp: waits_alone_def)
    from handle_message_waits [OF this, of msg] x(1,3) Ok show ?thesis by (simp add: reader_round_def)
  next
    case (Err e)
    let ?w = "fst (poison (ReadFramedMessageError e) (w\<lparr>incoming := s'\<rparr>))"
    from assms(2) obtain t c where w: "mstate w = RequestMap [(cid, \<lparr>ar_channel = r, ar_tagged = t\<rparr>)]"
      "calls w r = Some c" "c_chan c = Empty" by (auto simp: waits_alone_def)
    then have "calls ?w r = Some (c\<lparr>c_chan := Full (outcome.Err (Poisoned (ReadFramedMessageError e)))\<rparr>)"
      by (simp add: calls_poison entries_def)
    moreover have "mstate ?w = Poison (ReadFramedMessageError e)" using w by (simp add: poison_def)
    ultimately have "has_result r (?w\<lparr>reader_alive := False\<rparr>)" by (simp add: has_result_def settled_def)
    with x(1) Err show ?thesis by (simp add: reader_round_def)
  qed (use x(2) in simp)
qed

lemma await_result:
  assumes "has_result r w"
  shows "\<not> is_panic (fst (await_response m r w)) \<and> settled (snd (await_response m r w))"
proof -
  from assms obtain c x where "calls w r = Some c" "c_chan c = Full x" "\<not> is_panic x" "settled w"
    by (auto simp: has_result_def)
  moreover from this have "await_response m r w = (x, set_phase r (Finished x) w)"
    by (subst await_response.simps) simp
  ultimately show ?thesis by simp
qed

lemma await_returns:
  "readable m (incoming w) \<Longrightarrow> waits_alone cid r w \<Longrightarrow>
    \<not> is_panic (fst (await_response m r w)) \<and> settled (snd (await_response m r w))"
proof (induction "left_to_read w" arbitrary: w rule: less_induct)
  case less
  from reader_round_waits [OF less.prems] obtain w' where
    w': "reader_round m w = Some w'" "waits_alone cid r w' \<and> readable m (incoming w') \<or> has_result r w'" by blast
  from less.prems(2) have alive: "reader_alive w" by (simp add: waits_alone_def)
  with less.prems(2) w'(1) have "await_response m r w = await_response m r w'"
    by (subst await_response.simps) (auto simp: waits_alone_def)
  with w'(2) less.hyps [OF reader_round_progress [OF w'(1) alive]] await_result [of r w' m]
  show ?case by auto
qed

lemma call_response_ends:
  assumes "\<And>buf p. readable m (fst (incoming w) @ fst (answer buf p), snd (incoming w))" and "settled w"
    and "\<not> is_panic (body v)"
  shows "(is_panic (fst (call_response m answer rt body v (w, p))) \<longleftrightarrow> 2 ^ 15 \<le> length (as_bytes (m_client_id w))) \<and>
    settled (fst (snd (call_response m answer rt body v (w, p))))"
proof -
  let ?r = "allocated w" and ?c = "new_call rt body v (next_id w)" and ?w1 = "allocate rt body v w"
  have buffer: "is_panic (call_buffer ?w1 ?c) \<longleftrightarrow> 2 ^ 15 \<le> length (as_bytes (m_client_id w))"
    using encode_request_panics_iff [where msg = body, OF assms(3)] by (simp add: call_buffer_def new_call_def allocate_def)
  have w1: "mstate ?w1 = mstate w" "reader_alive ?w1 = reader_alive w" by (simp_all add: allocate_def)
  show ?thesis
  proof (cases "call_buffer ?w1 ?c")
    case (Ok buf)
    let ?w2 = "register ?r ?c buf ?w1"
    show ?thesis
    proof (cases "mstate w")
      case (Poison e)
      with Ok buffer w1 show ?thesis by (simp add: call_response_def Let_def settled_def register_def)
    next
      case (RequestMap rm)
      with assms(2) have rm: "mstate w = RequestMap []" "reader_alive w" by (simp_all add: settled_def)
      obtain res out2 where send: "send_message_inner buf None (out ?w2) = (res, out2)" by fastforce
      obtain bs q where a: "answer (drop (length (written (out ?w2))) (written out2)) p = (bs, q)" by fastforce
      let ?w3 = "deliver bs (set_phase ?r Awaiting (?w2\<lparr>out := out2\<rparr>))"
      have waits: "waits_alone (next_id w) ?r ?w3"
        using rm by (simp add: waits_alone_def register_def map_insert_def allocate_def new_call_def c_tagged_def)
      have "readable m (incoming ?w3)"
        using rm assms(1) [of "drop (length (written (out ?w2))) (written out2)" p] a
        by (simp add: register_def map_insert_def allocate_def)
      from await_returns [OF this waits] send_message_inner_no_panic [of buf None "out ?w2"] Ok buffer rm(1) send a
      show ?thesis
        by (cases res) (auto simp: call_response_def Let_def settled_def send_failed_def poison_def
            split: prod.splits messenger_state.splits)
    qed
  qed (use buffer assms(2) in \<open>simp_all add: call_response_def Let_def\<close>)
qed

lemma request_ends:
  assumes "response_reader rd rt" and "request_writer wr rt" and "wf_type rt" and "wf_ranges ranges"
    and "\<And>buf p. readable m (fst (incoming w) @ fst (answer buf p), snd (incoming w))" and "settled w"
  shows "(is_panic (fst (request_with_version_ranges m answer ranges rt (\<lambda>v. wr v msg) rd (w, p))) \<longleftrightarrow>
      (\<exists>v. choose_version rt ranges = Ok v) \<and> 2 ^ 15 \<le> length (as_bytes (m_client_id w))) \<and>
    settled (fst (snd (request_with_version_ranges m answer ranges rt (\<lambda>v. wr v msg) rd (w, p))))"
proof (cases "choose_version rt ranges")
  case (Ok v)
  have v: "in_range v (API_VERSION_RANGE rt)" by (rule choose_version_in_range(1) [OF Ok assms(3,4)])
  from decode_response_no_panic [OF assms(1) v] Ok call_response_ends [where body = "\<lambda>v. wr v msg" and m = m and
      answer = answer and rt = rt and p = p, OF assms(5,6) request_writer.write_no_panic [OF assms(2) v]]
  show ?thesis by (auto simp: request_with_version_ranges_def split: prod.splits)
next
  case (Panic x)
  then show ?thesis by (simp add: choose_version_def ok_or_def split: option.splits)
qed (use assms(6) in \<open>simp add: request_with_version_ranges_def\<close>)

section \<open>A call that is answered\<close>

text \<open>A messenger on which no call is waiting.\<close>

definition ready :: "world \<Rightarrow> bool" where
  "ready w \<longleftrightarrow> mstate w = RequestMap [] \<and> reader_alive w \<and> incoming w = ([], None) \<and> capacity (out w) = None"

text \<open>A response without tagged fields in its header: the correlation ID and the body.\<close>

definition response_message :: "i32 \<Rightarrow> u8 list \<Rightarrow> u8 list" where
  "response_message cid data = to_be_bytes 4 cid @ data"

lemma length_response_message [simp]: "length (response_message cid data) = 4 + length data"
  by (simp add: response_message_def)

lemma read_response_message:
  "read_ResponseHeader (ApiVersion 0) (response_message cid data, None) =
    Ok (\<lparr>rsh_correlation_id = cid, rsh_tagged_fields = None\<rparr>, (data, None))"
  using response_header.roundtrip [of "ApiVersion 0" "\<lparr>rsh_correlation_id = cid, rsh_tagged_fields = None\<rparr>"
      "to_be_bytes 4 cid" data None]
  by (simp add: response_message_def write_ResponseHeader_def write_Int32_def norm_ResponseHeader_def)

lemma send_message_unlimited:
  assumes "length buf < 2 ^ 31" and "capacity sw = None"
  shows "send_message_inner buf None sw = (Ok (), sw\<lparr>written := written sw @ frame_bytes buf\<rparr>)"
  using write_message_unlimited [OF assms] by (simp add: send_message_inner_def)

text \<open>The round of the background task that hands the response over.\<close>

lemma await_answer:
  assumes "mstate w = RequestMap [(cid, \<lparr>ar_channel = r, ar_tagged = False\<rparr>)]" and "reader_alive w"
    and "calls w r = Some c" and "c_chan c = Empty"
    and "incoming w = (frame_bytes (response_message cid data), None)"
    and "4 + length data \<le> m" and "4 + length data < 2 ^ 31"
  defines "resp \<equiv> Ok \<lparr>resp_header = \<lparr>rsh_correlation_id = cid, rsh_tagged_fields = None\<rparr>, resp_data = data,
    resp_size = 4 + length data\<rparr>"
  shows "await_response m r w = (resp, set_phase r (Finished resp) (chan_send resp r
    (w\<lparr>incoming := ([], None), mstate := RequestMap []\<rparr>)))"
proof -
  have "reader_round m w = Some (chan_send resp r (w\<lparr>incoming := ([], None), mstate := RequestMap []\<rparr>))"
    using assms(1,2,5-7) read_message_frame [of "response_message cid data" m "[]" None]
    by (simp add: reader_round_def handle_message_def read_response_message resp_def)
  with assms(2-4) show ?thesis
    by (subst await_response.simps, simp) (subst await_response.simps, simp)
qed

lemma call_response_answered:
  assumes "ready w" and "\<not> use_tagged_fields_in_response rt v"
    and "encode_request (m_client_id w) rt body v (next_id w) = Ok buf" and "length buf < 2 ^ 31"
    and "answer (frame_bytes buf) p = (frame_bytes (response_message (next_id w) data), p')"
    and "4 + length data \<le> m" and "4 + length data < 2 ^ 31"
  shows "\<exists>w'. call_response m answer rt body v (w, p) =
      (Ok \<lparr>resp_header = \<lparr>rsh_correlation_id = next_id w, rsh_tagged_fields = None\<rparr>, resp_data = data,
         resp_size = 4 + length data\<rparr>, w', p') \<and> ready w' \<and> m_client_id w' = m_client_id w \<and>
      next_id w' = next_id w + 1"
proof -
  let ?r = "allocated w" and ?c = "new_call rt body v (next_id w)" and ?w1 = "allocate rt body v w"
  let ?w2 = "register ?r ?c buf ?w1"
  let ?o = "(out w)\<lparr>written := written (out w) @ frame_bytes buf\<rparr>"
  let ?w3 = "deliver (frame_bytes (response_message (next_id w) data)) (set_phase ?r Awaiting (?w2\<lparr>out := ?o\<rparr>))"
  have w: "mstate w = RequestMap []" "reader_alive w" "incoming w = ([], None)" "capacity (out w) = None"
    using assms(1) by (simp_all add: ready_def)
  have "call_buffer ?w1 ?c = Ok buf"
    using assms(3) by (simp add: call_buffer_def allocate_def new_call_def)
  moreover have w2: "?w2 = ?w1\<lparr>mstate := RequestMap [(next_id w, \<lparr>ar_channel = ?r, ar_tagged = False\<rparr>)],
      calls := (calls ?w1)(?r \<mapsto> ?c\<lparr>c_phase := Sending buf\<rparr>)\<rparr>"
    using w(1) assms(2) by (simp add: register_def map_insert_def allocate_def new_call_def set_phase_def c_tagged_def)
  moreover have "send_message_inner buf None (out w) = (Ok (), ?o)"
    using send_message_unlimited [OF assms(4) w(4)] .
  ultimately have "call_response m answer rt body v (w, p) =
      (case await_response m ?r ?w3 of (x, w3) \<Rightarrow> (x, w3, p'))"
    using w(1) assms(5) by (simp add: call_response_def Let_def) (simp add: allocate_def)
  moreover have w3: "mstate ?w3 = RequestMap [(next_id w, \<lparr>ar_channel = ?r, ar_tagged = False\<rparr>)]" "reader_alive ?w3"
    "calls ?w3 ?r = Some (?c\<lparr>c_phase := Awaiting\<rparr>)" "capacity (out ?w3) = None" "next_id ?w3 = next_id w + 1"
    "incoming ?w3 = (frame_bytes (response_message (next_id w) data), None)" "m_client_id ?w3 = m_client_id w"
    unfolding w2 using w by (simp_all add: allocate_def)
  moreover have "c_chan (?c\<lparr>c_phase := Awaiting\<rparr>) = Empty" by (simp add: new_call_def)
  note await_answer [OF w3(1-3) this w3(6) assms(6,7)]
  ultimately show ?thesis using w3 by (simp add: ready_def)
qed

lemma request_answered:
  assumes "ready w" and "choose_version rt ranges = Ok v" and "\<not> use_tagged_fields_in_response rt v"
    and "encode_request (m_client_id w) rt body v (next_id w) = Ok buf" and "length buf < 2 ^ 31"
    and "answer (frame_bytes buf) p = (frame_bytes (response_message (next_id w) data), p')"
    and "4 + length data \<le> m" and "4 + length data < 2 ^ 31"
    and "rd v (data, None) = Ok (x, ([], None))"
  shows "\<exists>w'. request_with_version_ranges m answer ranges rt body rd (w, p) = (Ok x, w', p') \<and>
    ready w' \<and> m_client_id w' = m_client_id w"
  using call_response_answered [of w rt v body buf answer p data p' m] assms
  by (auto simp: request_with_version_ranges_def decode_response_def)

section \<open>A request of the partition client that is answered\<close>

lemma partition_request_first:
  assumes "cb_broker (fst w) = Some c" and "send c w = (Ok response, w')"
    and "throttle_time response = None \<or> throttle_time response = Some 0" and "process response = Ok y"
  shows "partition_request nw pcl send throttle_time process w = Some (Ok y, w')"
proof -
  have "maybe_throttle (throttle_time response) = (Ok () :: (attempt_error, unit) outcome)"
    using assms(3) by (auto simp: maybe_throttle_cases)
  with assms(1,2,4)
  have "request_attempt (partition_get nw (pcl_topic pcl) (pcl_partition pcl)) send throttle_time process w =
      Some (Ok y, w')"
    by (cases w) (simp add: request_attempt_def partition_get_def)
  then show ?thesis
    unfolding partition_request_def partition_retry_def maybe_retry_def
    by (subst retry_with_backoff.simps) (simp add: retry_attempt_def)
qed

text \<open>The client is connected to its leader, and nothing is going on on that connection.\<close>

definition linked :: "'x connection \<Rightarrow> ('x connection, ('x, 'p) wires) partition_world \<Rightarrow> bool" where
  "linked c w \<longleftrightarrow> cb_broker (fst w) = Some c \<and>
     ready (wi_messengers (cn_env (snd w)) (co_transport c)) \<and>
     m_client_id (wi_messengers (cn_env (snd w)) (co_transport c)) = co_client_id c"

definition correlation :: "'x connection \<Rightarrow> ('x connection, ('x, 'p) wires) partition_world \<Rightarrow> i32" where
  "correlation c w = next_id (wi_messengers (cn_env (snd w)) (co_transport c))"

abbreviation peer_of :: "('b, 'c, ('x, 'p) wires) client_world \<Rightarrow> 'p" where
  "peer_of w \<equiv> wi_peer (cn_env (snd w))"

lemma partition_request_answered:
  assumes "linked c w" and "choose_version rt (co_version_ranges c) = Ok v"
    and "\<not> use_tagged_fields_in_response rt v"
    and "encode_request (co_client_id c) rt (\<lambda>v. wr v msg) v (correlation c w) = Ok buf" and "length buf < 2 ^ 31"
    and "peer (co_transport c) (frame_bytes buf) (peer_of w) =
      (frame_bytes (response_message (correlation c w) data), p')"
    and "4 + length data \<le> co_max_message_size c" and "4 + length data < 2 ^ 31"
    and "rd v (data, None) = Ok (response, ([], None))"
    and "throttle_time response = None \<or> throttle_time response = Some 0" and "process response = Ok y"
  shows "\<exists>w'. partition_request nw pcl (\<lambda>broker. wire_send peer rt wr rd broker msg) throttle_time process w =
    Some (Ok y, w') \<and> linked c w' \<and> peer_of w' = p'"
proof -
  let ?m = "wi_messengers (cn_env (snd w)) (co_transport c)"
  obtain m' where m': "request_with_version_ranges (co_max_message_size c) (peer (co_transport c))
      (co_version_ranges c) rt (\<lambda>v. wr v msg) rd (?m, peer_of w) = (Ok response, m', p')"
    "ready m'" "m_client_id m' = co_client_id c"
    using request_answered [of ?m rt "co_version_ranges c" v "\<lambda>v. wr v msg" buf "peer (co_transport c)" "peer_of w"
        data p' "co_max_message_size c" rd response] assms(1-9)
    by (auto simp: linked_def correlation_def)
  let ?w' = "(fst w, (snd w)\<lparr>cn_env := \<lparr>wi_messengers = (wi_messengers (cn_env (snd w)))(co_transport c := m'),
    wi_peer = p'\<rparr>\<rparr>)"
  have "wire_send peer rt wr rd c msg w = (Ok response, ?w')"
    using m'(1) by (simp add: wire_send_def wire_request_def on_connector_def)
  with assms(1,10,11) m'(2,3) partition_request_first [of w c "\<lambda>broker. wire_send peer rt wr rd broker msg" response
      ?w' throttle_time process y nw pcl]
  show ?thesis by (intro exI [of _ ?w']) (simp add: linked_def)
qed

end
