(* ===== verification/Log_Broker.thy ===== *)
theory Log_Broker
  imports Wire
begin

text \<open>
  The partition client and a broker together.  The broker is a reference: it keeps the batches of
  one partition, gives each batch that is produced the next offsets, and reads and writes the
  messages of \<open>produce.rs\<close>, \<open>fetch.rs\<close> and \<open>list_offsets.rs\<close> in the format that these files document.
  The client only reads requests that it wrote, so that the other direction of each message is
  defined here.

  The specification is a list of records: producing appends, and the offset of a record is its
  position.  What is proved is that the operations of \<open>PartitionClient\<close>, over frames, messages and
  the messenger of a connection, do to the batches of the broker what they should do to that list.
\<close>

section \<open>Responses, as a broker writes them\<close>

definition broker_write_partition_response :: "ApiVersion \<Rightarrow> ProduceResponsePartitionResponse \<Rightarrow> vwres" where
  "broker_write_partition_response version r =
     (let v = version_number version in
     wseq (vw (write_Int32 (psp_index r)))
     (wseq (write_error_code (psp_error r))
     (wseq (vw (write_Int64 (psp_base_offset r)))
     (wseq (wwhen (v \<ge> 2) (write_or_default write_Int64 (-1) (psp_log_append_time_ms r)))
     (wwhen (v \<ge> 5) (write_or_default write_Int64 (-1) (psp_log_start_offset r)))))))"

definition broker_write_topic_response :: "ApiVersion \<Rightarrow> ProduceResponseResponse \<Rightarrow> vwres" where
  "broker_write_topic_response version r =
     wseq (vw (write_String (pst_name r)))
     (write_versioned_array (broker_write_partition_response version) (Some (pst_partition_responses r)))"

definition broker_write_ProduceResponse :: "ApiVersion \<Rightarrow> ProduceResponse \<Rightarrow> vwres" where
  "broker_write_ProduceResponse version r =
     wseq (write_versioned_array (broker_write_topic_response version) (Some (psr_responses r)))
     (wwhen (version_number version \<ge> 1) (write_or_default write_Int32 0 (psr_throttle_time_ms r)))"

definition broker_write_AbortedTransaction :: "FetchResponseAbortedTransaction \<Rightarrow> vwres" where
  "broker_write_AbortedTransaction r =
     wseq (vw (write_Int64 (fra_producer_id r))) (vw (write_Int64 (fra_first_offset r)))"

definition broker_write_FetchResponsePartition :: "crates \<Rightarrow> FetchResponsePartition \<Rightarrow> vwres" where
  "broker_write_FetchResponsePartition K r =
     wseq (vw (write_Int32 (fsp_partition_index r)))
     (wseq (write_error_code (fsp_error_code r))
     (wseq (vw (write_Int64 (fsp_high_watermark r)))
     (wseq (write_or_default write_Int64 (-1) (fsp_last_stable_offset r))
     (wseq (write_versioned_array broker_write_AbortedTransaction (Some (fsp_aborted_transactions r)))
     (vw (write_Records K (fsp_records r)))))))"

definition broker_write_FetchResponseTopic :: "crates \<Rightarrow> FetchResponseTopic \<Rightarrow> vwres" where
  "broker_write_FetchResponseTopic K r =
     wseq (vw (write_String (fst_topic r)))
     (write_versioned_array (broker_write_FetchResponsePartition K) (Some (fst_partitions r)))"

definition broker_write_FetchResponse :: "crates \<Rightarrow> FetchResponse \<Rightarrow> vwres" where
  "broker_write_FetchResponse K r =
     wseq (write_or_default write_Int32 0 (fsr_throttle_time_ms r))
     (write_versioned_array (broker_write_FetchResponseTopic K) (Some (fsr_responses r)))"

definition broker_write_ListOffsetsResponsePartition :: "ApiVersion \<Rightarrow> ListOffsetsResponsePartition \<Rightarrow> vwres" where
  "broker_write_ListOffsetsResponsePartition version r =
     (let v = version_number version in
     wseq (vw (write_Int32 (lsp_partition_index r)))
     (wseq (write_error_code (lsp_error_code r))
     (wseq (wwhen (v < 1) (vw (write_Array write_Int64 (Option.bind (lsp_old_style_offsets r) id))))
     (wseq (wwhen (v \<ge> 1) (write_or_default write_Int64 (-1) (lsp_timestamp r)))
     (wwhen (v \<ge> 1) (write_or_default write_Int64 (-1) (lsp_offset r)))))))"

definition broker_write_ListOffsetsResponseTopic :: "ApiVersion \<Rightarrow> ListOffsetsResponseTopic \<Rightarrow> vwres" where
  "broker_write_ListOffsetsResponseTopic version r =
     wseq (vw (write_String (lst_name r)))
     (write_versioned_array (broker_write_ListOffsetsResponsePartition version) (Some (lst_partitions r)))"

definition broker_write_ListOffsetsResponse :: "ApiVersion \<Rightarrow> ListOffsetsResponse \<Rightarrow> vwres" where
  "broker_write_ListOffsetsResponse version r =
     wseq (wwhen (version_number version \<ge> 2) (write_or_default write_Int32 0 (lsr_throttle_time_ms r)))
     (write_versioned_array (broker_write_ListOffsetsResponseTopic version) (Some (lsr_topics r)))"

section \<open>The client reads them\<close>

definition norm_partition_response :: "ApiVersion \<Rightarrow> ProduceResponsePartitionResponse \<Rightarrow>
    ProduceResponsePartitionResponse" where
  "norm_partition_response version r =
     (let v = version_number version in
      r\<lparr>psp_error := norm_error (psp_error r),
        psp_log_append_time_ms := with_default (v \<ge> 2) (-1) (psp_log_append_time_ms r),
        psp_log_start_offset := with_default (v \<ge> 5) (-1) (psp_log_start_offset r)\<rparr>)"

definition norm_ProduceResponse :: "ApiVersion \<Rightarrow> ProduceResponse \<Rightarrow> ProduceResponse" where
  "norm_ProduceResponse version r =
     r\<lparr>psr_responses := map (\<lambda>t. t\<lparr>pst_partition_responses :=
         map (norm_partition_response version) (pst_partition_responses t)\<rparr>) (psr_responses r),
       psr_throttle_time_ms := with_default (version_number version \<ge> 1) 0 (psr_throttle_time_ms r)\<rparr>"

lemmas versioned_array_roundtrip = norm_codec.roundtrip [OF norm_codec_versioned_array]

lemma norm_codec_ProduceResponse:
  assumes "version_number v \<le> 7"
  shows "norm_codec (read_ProduceResponse v) (broker_write_ProduceResponse v) (norm_ProduceResponse v)"
proof -
  have "norm_codec (read_ProduceResponsePartitionResponse v) (broker_write_partition_response v)
      (norm_partition_response v)"
    using assms
    by (intro norm_codecI) (auto simp: read_ProduceResponsePartitionResponse_def broker_write_partition_response_def
        norm_partition_response_def Let_def)
  note part = versioned_array_roundtrip [OF this]
  have "norm_codec (read_ProduceResponseResponse v) (broker_write_topic_response v)
      (\<lambda>t. t\<lparr>pst_partition_responses := map (norm_partition_response v) (pst_partition_responses t)\<rparr>)"
    using assms
    by (intro norm_codecI) (auto simp: read_ProduceResponseResponse_def broker_write_topic_response_def
        Let_def or_empty_def part)
  note topic = versioned_array_roundtrip [OF this]
  show ?thesis
    using assms
    by (intro norm_codecI) (auto simp: read_ProduceResponse_def broker_write_ProduceResponse_def
        norm_ProduceResponse_def Let_def or_empty_def topic)
qed

definition norm_fetch_partition :: "FetchResponsePartition \<Rightarrow> FetchResponsePartition" where
  "norm_fetch_partition r =
     r\<lparr>fsp_error_code := norm_error (fsp_error_code r),
       fsp_last_stable_offset := with_default True (-1) (fsp_last_stable_offset r)\<rparr>"

definition norm_FetchResponse :: "FetchResponse \<Rightarrow> FetchResponse" where
  "norm_FetchResponse r =
     r\<lparr>fsr_throttle_time_ms := with_default True 0 (fsr_throttle_time_ms r),
       fsr_responses := map (\<lambda>t. t\<lparr>fst_partitions := map norm_fetch_partition (fst_partitions t)\<rparr>)
         (fsr_responses r)\<rparr>"

context record_crates
begin

lemma norm_codec_FetchResponse:
  "norm_codec (read_FetchResponse K (ApiVersion 4)) (broker_write_FetchResponse K) norm_FetchResponse"
proof -
  have "codec (read_FetchResponseAbortedTransaction (ApiVersion 4)) broker_write_AbortedTransaction"
    by (intro codecI) (auto simp: read_FetchResponseAbortedTransaction_def broker_write_AbortedTransaction_def)
  note aborted = codec_versioned_array [OF this]
  have "norm_codec (read_FetchResponsePartition K (ApiVersion 4)) (broker_write_FetchResponsePartition K)
      norm_fetch_partition"
    by (intro norm_codecI) (auto simp: read_FetchResponsePartition_def broker_write_FetchResponsePartition_def
        norm_fetch_partition_def or_empty_def aborted codec_roundtrip [OF codec_Records]
        read_default [OF fixed_codecs(5)])
  note part = versioned_array_roundtrip [OF this]
  have "norm_codec (read_FetchResponseTopic K (ApiVersion 4)) (broker_write_FetchResponseTopic K)
      (\<lambda>t. t\<lparr>fst_partitions := map norm_fetch_partition (fst_partitions t)\<rparr>)"
    by (intro norm_codecI) (auto simp: read_FetchResponseTopic_def broker_write_FetchResponseTopic_def
        or_empty_def part)
  note topic = versioned_array_roundtrip [OF this]
  show ?thesis
    by (intro norm_codecI) (auto simp: read_FetchResponse_def broker_write_FetchResponse_def
        norm_FetchResponse_def or_empty_def topic)
qed

end

definition norm_offsets_partition :: "ApiVersion \<Rightarrow> ListOffsetsResponsePartition \<Rightarrow> ListOffsetsResponsePartition" where
  "norm_offsets_partition version r =
     (let v = version_number version in
      r\<lparr>lsp_error_code := norm_error (lsp_error_code r),
        lsp_old_style_offsets := (if v < 1 then Some (Option.bind (lsp_old_style_offsets r) id) else None),
        lsp_timestamp := with_default (v \<ge> 1) (-1) (lsp_timestamp r),
        lsp_offset := with_default (v \<ge> 1) (-1) (lsp_offset r)\<rparr>)"

definition norm_ListOffsetsResponse :: "ApiVersion \<Rightarrow> ListOffsetsResponse \<Rightarrow> ListOffsetsResponse" where
  "norm_ListOffsetsResponse version r =
     r\<lparr>lsr_throttle_time_ms := with_default (version_number version \<ge> 2) 0 (lsr_throttle_time_ms r),
       lsr_topics := map (\<lambda>t. t\<lparr>lst_partitions := map (norm_offsets_partition version) (lst_partitions t)\<rparr>)
         (lsr_topics r)\<rparr>"

lemma int64_array_roundtrip:
  "write_Array write_Int64 x = Ok bs \<Longrightarrow> read_Array read_Int64 (bs @ rest, e) = Ok (x, (rest, e))"
  using norm_codec.roundtrip [OF norm_codec_Array [OF codec_is_norm [OF fixed_codecs(5)]]]
  by (fastforce simp: option.map_ident)

lemma norm_codec_ListOffsetsResponse:
  assumes "version_number v \<le> 3"
  shows "norm_codec (read_ListOffsetsResponse v) (broker_write_ListOffsetsResponse v) (norm_ListOffsetsResponse v)"
proof -
  have "norm_codec (read_ListOffsetsResponsePartition v) (broker_write_ListOffsetsResponsePartition v)
      (norm_offsets_partition v)"
    using assms
    by (intro norm_codecI, cases "version_number v < 1")
      (auto simp: read_ListOffsetsResponsePartition_def broker_write_ListOffsetsResponsePartition_def
        norm_offsets_partition_def int64_array_roundtrip read_default [OF fixed_codecs(5)])
  note part = versioned_array_roundtrip [OF this]
  have "norm_codec (read_ListOffsetsResponseTopic v) (broker_write_ListOffsetsResponseTopic v)
      (\<lambda>t. t\<lparr>lst_partitions := map (norm_offsets_partition v) (lst_partitions t)\<rparr>)"
    using assms
    by (intro norm_codecI) (auto simp: read_ListOffsetsResponseTopic_def broker_write_ListOffsetsResponseTopic_def
        or_empty_def Let_def part)
  note topic = versioned_array_roundtrip [OF this]
  show ?thesis
    using assms
    by (intro norm_codecI) (auto simp: read_ListOffsetsResponse_def broker_write_ListOffsetsResponse_def
        norm_ListOffsetsResponse_def or_empty_def Let_def topic)
qed

section \<open>Requests for offsets, as a broker reads them\<close>

definition broker_ListOffsetsRequestPartition :: "ApiVersion \<Rightarrow> ListOffsetsRequestPartition reader" where
  "broker_ListOffsetsRequestPartition version =
     rbind read_Int32 (\<lambda>partition_index.
     rbind read_Int64 (\<lambda>timestamp.
     rbind (rwhen (version_number version < 1) read_Int32) (\<lambda>max_num_offsets.
     rret \<lparr>lop_partition_index = partition_index, lop_timestamp = timestamp,
           lop_max_num_offsets = max_num_offsets\<rparr>)))"

definition broker_ListOffsetsRequestTopic :: "ApiVersion \<Rightarrow> ListOffsetsRequestTopic reader" where
  "broker_ListOffsetsRequestTopic version =
     rbind read_String (\<lambda>name.
     rbind (read_versioned_array (broker_ListOffsetsRequestPartition version)) (\<lambda>partitions.
     rret \<lparr>lot_name = name, lot_partitions = or_empty partitions\<rparr>))"

definition broker_ListOffsetsRequest :: "ApiVersion \<Rightarrow> ListOffsetsRequest reader" where
  "broker_ListOffsetsRequest version =
     rbind read_Int32 (\<lambda>replica_id.
     rbind (rwhen (version_number version \<ge> 2) read_Int8) (\<lambda>level.
     rbind (read_versioned_array (broker_ListOffsetsRequestTopic version)) (\<lambda>topics.
     rret \<lparr>loq_replica_id = replica_id,
           loq_isolation_level = map_option (\<lambda>l. if l = 1 then ReadCommitted else ReadUncommitted) level,
           loq_topics = or_empty topics\<rparr>)))"

definition norm_offsets_request_partition :: "ApiVersion \<Rightarrow> ListOffsetsRequestPartition \<Rightarrow> ListOffsetsRequestPartition" where
  "norm_offsets_request_partition version r =
     r\<lparr>lop_max_num_offsets := with_default (version_number version < 1) 1 (lop_max_num_offsets r)\<rparr>"

definition norm_ListOffsetsRequest :: "ApiVersion \<Rightarrow> ListOffsetsRequest \<Rightarrow> ListOffsetsRequest" where
  "norm_ListOffsetsRequest version r =
     r\<lparr>loq_isolation_level := with_default (version_number version \<ge> 2) ReadUncommitted (loq_isolation_level r),
       loq_topics := map (\<lambda>t. t\<lparr>lot_partitions := map (norm_offsets_request_partition version) (lot_partitions t)\<rparr>)
         (loq_topics r)\<rparr>"

lemma norm_codec_ListOffsetsRequest:
  "norm_codec (broker_ListOffsetsRequest v) (write_ListOffsetsRequest v) (norm_ListOffsetsRequest v)"
proof -
  have "norm_codec (broker_ListOffsetsRequestPartition v) (write_ListOffsetsRequestPartition v)
      (norm_offsets_request_partition v)"
    by (intro norm_codecI, cases "version_number v < 1")
      (auto simp: broker_ListOffsetsRequestPartition_def write_ListOffsetsRequestPartition_def
        norm_offsets_request_partition_def Let_def unwrap_or_def)
  note part = versioned_array_roundtrip [OF this]
  have "norm_codec (broker_ListOffsetsRequestTopic v) (write_ListOffsetsRequestTopic v)
      (\<lambda>t. t\<lparr>lot_partitions := map (norm_offsets_request_partition v) (lot_partitions t)\<rparr>)"
    by (intro norm_codecI) (auto simp: broker_ListOffsetsRequestTopic_def write_ListOffsetsRequestTopic_def
        or_empty_def Let_def part)
  note topic = versioned_array_roundtrip [OF this]
  show ?thesis
    by (intro norm_codecI, cases "version_number v \<ge> 2")
      (auto simp: broker_ListOffsetsRequest_def write_ListOffsetsRequest_def norm_ListOffsetsRequest_def
        or_empty_def Let_def unwrap_or_def topic)
qed

section \<open>The broker\<close>

text \<open>The batches of the partition, and the offset that the next record gets.\<close>

record kept =
  kb_batches :: "RecordBatch list"
  kb_next :: i64

definition keep_batch :: "RecordBatch \<Rightarrow> kept \<Rightarrow> kept" where
  "keep_batch b k =
     \<lparr>kb_batches = kb_batches k @ [b\<lparr>base_offset := kb_next k\<rparr>],
      kb_next = kb_next k + scast (last_offset_delta b) + 1\<rparr>"

definition produce_answer :: "rstring \<Rightarrow> i32 \<Rightarrow> i64 \<Rightarrow> ProduceResponse" where
  "produce_answer topic part base =
     \<lparr>psr_responses = [\<lparr>pst_name = topic, pst_partition_responses =
        [\<lparr>psp_index = part, psp_error = None, psp_base_offset = base,
          psp_log_append_time_ms = Some (-1), psp_log_start_offset = Some 0\<rparr>]\<rparr>],
      psr_throttle_time_ms = Some 0\<rparr>"

definition log_produce :: "rstring \<Rightarrow> i32 \<Rightarrow> ProduceRequest \<Rightarrow> kept \<Rightarrow> (ProduceResponse \<times> kept) option" where
  "log_produce topic part r k =
     (case map (\<lambda>t. (prt_name t, map (\<lambda>d. (prp_index d, prp_records d)) (prt_partition_data t))) (prq_topic_data r) of
        [(name, [(index, [b])])] \<Rightarrow>
          if name = topic \<and> index = part
          then Some (produce_answer topic part (kb_next k), keep_batch b k) else None
      | _ \<Rightarrow> None)"

text \<open>A fetch gets as many batches as there is room for, from the one with the offset on.\<close>

definition ended_before :: "i64 \<Rightarrow> RecordBatch \<Rightarrow> bool" where
  "ended_before off b \<longleftrightarrow> sint (base_offset b) + sint (last_offset_delta b) + 1 \<le> sint off"

type_synonym room = "i32 \<Rightarrow> RecordBatch list \<Rightarrow> nat"

definition sent_batches :: "room \<Rightarrow> i64 \<Rightarrow> i32 \<Rightarrow> kept \<Rightarrow> RecordBatch list" where
  "sent_batches room off max_bytes k =
     (let bs = dropWhile (ended_before off) (kb_batches k) in take (room max_bytes bs) bs)"

definition fetch_answer :: "rstring \<Rightarrow> i32 \<Rightarrow> i64 \<Rightarrow> RecordBatch list \<Rightarrow> FetchResponse" where
  "fetch_answer topic part high bs =
     \<lparr>fsr_throttle_time_ms = Some 0, fsr_responses = [\<lparr>fst_topic = topic, fst_partitions =
        [\<lparr>fsp_partition_index = part, fsp_error_code = None, fsp_high_watermark = high,
          fsp_last_stable_offset = Some high, fsp_aborted_transactions = [], fsp_records = bs\<rparr>]\<rparr>]\<rparr>"

definition log_fetch :: "room \<Rightarrow> rstring \<Rightarrow> i32 \<Rightarrow> FetchRequest \<Rightarrow> kept \<Rightarrow> (FetchResponse \<times> kept) option" where
  "log_fetch room topic part r k =
     (case map (\<lambda>t. (frt_topic t, frt_partitions t)) (frq_topics r) of
        [(name, [p])] \<Rightarrow>
          if name = topic \<and> frp_partition p = part
          then Some (fetch_answer topic part (kb_next k)
            (sent_batches room (frp_fetch_offset p) (frp_partition_max_bytes p) k), k) else None
      | _ \<Rightarrow> None)"

definition offsets_answer :: "rstring \<Rightarrow> i32 \<Rightarrow> i64 \<Rightarrow> ListOffsetsResponse" where
  "offsets_answer topic part off =
     \<lparr>lsr_throttle_time_ms = Some 0, lsr_topics = [\<lparr>lst_name = topic, lst_partitions =
        [\<lparr>lsp_partition_index = part, lsp_error_code = None, lsp_old_style_offsets = Some (Some [off]),
          lsp_timestamp = Some (-1), lsp_offset = Some off\<rparr>]\<rparr>]\<rparr>"

definition log_offsets :: "rstring \<Rightarrow> i32 \<Rightarrow> ListOffsetsRequest \<Rightarrow> kept \<Rightarrow> (ListOffsetsResponse \<times> kept) option" where
  "log_offsets topic part r k =
     (case map (\<lambda>t. (lot_name t, lot_partitions t)) (loq_topics r) of
        [(name, [p])] \<Rightarrow>
          if name = topic \<and> lop_partition_index p = part
          then (if lop_timestamp p = -2 then Some (offsets_answer topic part 0, k)
                else if lop_timestamp p = -1 then Some (offsets_answer topic part (kb_next k), k) else None)
          else None
      | _ \<Rightarrow> None)"

text \<open>One message: the request is read, answered and the answer framed.\<close>

definition respond :: "i32 \<Rightarrow> 'r reader \<Rightarrow> ('r \<Rightarrow> kept \<Rightarrow> ('a \<times> kept) option) \<Rightarrow> ('a \<Rightarrow> vwres) \<Rightarrow>
    u8 list \<Rightarrow> kept \<Rightarrow> u8 list \<times> kept" where
  "respond cid rd f wr body k =
     (case rd (body, None) of
        Ok (r, ([], _)) \<Rightarrow>
          (case f r k of
             Some (answer, k') \<Rightarrow>
               (case wr answer of Ok data \<Rightarrow> (frame_bytes (response_message cid data), k') | _ \<Rightarrow> ([], k))
           | None \<Rightarrow> ([], k))
      | _ \<Rightarrow> ([], k))"

definition log_peer :: "crates \<Rightarrow> room \<Rightarrow> rstring \<Rightarrow> i32 \<Rightarrow> ('x, kept) peer" where
  "log_peer K room topic part x bytes k =
     (case read_message (2 ^ 31) (bytes, None) of
        Some (Ok msg, ([], _)) \<Rightarrow>
          (case read_RequestHeader (ApiVersion 1) (msg, None) of
             Ok (h, (body, _)) \<Rightarrow>
               let v = request_api_version h; cid = rqh_correlation_id h
               in (case request_api_key h of
                     Produce \<Rightarrow> respond cid (broker_ProduceRequest K) (log_produce topic part)
                       (broker_write_ProduceResponse v) body k
                   | Fetch \<Rightarrow> respond cid broker_FetchRequest (log_fetch room topic part)
                       (broker_write_FetchResponse K) body k
                   | ListOffsets \<Rightarrow> respond cid (broker_ListOffsetsRequest v) (log_offsets topic part)
                       (broker_write_ListOffsetsResponse v) body k
                   | _ \<Rightarrow> ([], k))
           | _ \<Rightarrow> ([], k))
      | _ \<Rightarrow> ([], k))"

section \<open>The specification\<close>

definition spec_produce :: "'ts client_record list \<Rightarrow> 'ts client_record list \<Rightarrow> i64 list \<times> 'ts client_record list" where
  "spec_produce rs xs = (map of_nat [length xs..<length xs + length rs], xs @ rs)"

definition spec_fetch :: "i64 \<Rightarrow> 'ts client_record list \<Rightarrow> 'ts RecordAndOffset list" where
  "spec_fetch off xs = from_offset off (at_offsets 0 0 xs)"

fun spec_offset :: "OffsetAt \<Rightarrow> 'ts client_record list \<Rightarrow> i64" where
  "spec_offset Earliest xs = 0"
| "spec_offset Latest xs = of_nat (length xs)"

text \<open>The batches hold the records, one after the other.\<close>

fun contiguous :: "'ts::linorder chrono \<Rightarrow> ('ts \<Rightarrow> bool) \<Rightarrow> nat \<Rightarrow>
    (RecordBatch \<times> 'ts client_record list) list \<Rightarrow> bool" where
  "contiguous C exact n [] \<longleftrightarrow> n < 2 ^ 63"
| "contiguous C exact n ((batch, rs) # ls) \<longleftrightarrow>
     stored_batch C exact batch rs \<and> base_offset batch = of_nat n \<and> contiguous C exact (n + length rs) ls"

definition holds :: "'ts::linorder chrono \<Rightarrow> ('ts \<Rightarrow> bool) \<Rightarrow> kept \<Rightarrow> 'ts client_record list \<Rightarrow> bool" where
  "holds C exact k xs \<longleftrightarrow> kb_next k = of_nat (length xs) \<and>
     (\<exists>ls. kb_batches k = map fst ls \<and> contiguous C exact 0 ls \<and> concat (map snd ls) = xs)"

lemma contiguous_bound: "contiguous C exact n ls \<Longrightarrow> n + length (concat (map snd ls)) < 2 ^ 63"
  by (induction C exact n ls rule: contiguous.induct) (simp_all add: add.assoc)

lemma contiguous_append:
  "contiguous C exact n (ls @ ls') \<longleftrightarrow>
    (if ls' = [] then contiguous C exact n ls
     else contiguous C exact (n + length (concat (map snd ls))) ls' \<and> contiguous C exact n ls)"
proof (induction C exact n ls rule: contiguous.induct)
  case (1 C exact n)
  show ?case using contiguous_bound [of C exact n ls'] by (cases ls') auto
qed (auto simp: add.assoc)

lemma at_offsets_shift: "at_offsets (of_nat n) i rs = at_offsets 0 (n + i) rs"
  by (induction rs arbitrary: i) simp_all

lemma at_offsets_append: "at_offsets b n (xs @ ys) = at_offsets b n xs @ at_offsets b (n + length xs) ys"
  by (simp add: at_offsets_def enumerate_append_eq)

lemma contiguous_stored:
  "contiguous C exact n ls \<Longrightarrow> stored_log C exact (int n) ls \<and> log_records ls = at_offsets 0 n (concat (map snd ls))"
proof (induction C exact n ls rule: contiguous.induct)
  case (2 C exact n batch rs ls)
  have "n + length rs < 2 ^ 63" using "2.prems" contiguous_bound [of C exact "n + length rs" ls] by simp
  then have "sint (of_nat n :: i64) = int n" by (intro sint_of_nat_i64) simp
  moreover have "batch_records (batch, rs) = at_offsets 0 n rs"
    using "2.prems" by (simp add: batch_records_def at_offsets_shift)
  ultimately show ?case using 2 \<open>n + length rs < 2 ^ 63\<close> by (simp add: at_offsets_append)
qed simp

section \<open>The broker gets what the client sends\<close>

lemma log_peer_request:
  assumes "encode_request cl rt msg v cid = Ok buf" and "length buf < 2 ^ 31"
    and "\<not> use_tagged_fields_in_request rt v"
  obtains body where "msg v = Ok body"
    "API_KEY rt = Produce \<Longrightarrow> log_peer K room topic part x (frame_bytes buf) k =
      respond cid (broker_ProduceRequest K) (log_produce topic part) (broker_write_ProduceResponse v) body k"
    "API_KEY rt = Fetch \<Longrightarrow> log_peer K room topic part x (frame_bytes buf) k =
      respond cid broker_FetchRequest (log_fetch room topic part) (broker_write_FetchResponse K) body k"
    "API_KEY rt = ListOffsets \<Longrightarrow> log_peer K room topic part x (frame_bytes buf) k =
      respond cid (broker_ListOffsetsRequest v) (log_offsets topic part) (broker_write_ListOffsetsResponse v) body k"
proof -
  from assms(1) obtain body where body: "msg v = Ok body"
    "read_RequestHeader (header_version_of rt v) (buf @ [], None) =
      Ok (\<lparr>request_api_key = ApiKey_from_Int16 (Int16_from_ApiKey (API_KEY rt)),
           request_api_version = v, rqh_correlation_id = cid, client_id = Some (Some cl),
           rqh_tagged_fields = (if use_tagged_fields_in_request rt v then Some [] else None)\<rparr>,
         (body @ [], None))"
    by (rule encode_request_header)
  moreover have "read_message (2 ^ 31) (frame_bytes buf, None) = Some (Ok buf, ([], None))"
    using read_message_frame [OF assms(2), of "2 ^ 31" "[]" None] assms(2) by simp
  moreover have "header_version_of rt v = ApiVersion 1" using assms(3) by (simp add: header_version_of_def)
  ultimately show thesis
    by (intro that [of body]) (simp_all add: log_peer_def ApiKey_from_Int16_def)
qed

lemma respond_Ok:
  assumes "rd (body, None) = Ok (r, ([], None))" and "f r k = Some (answer, k')" and "wr answer = Ok data"
  shows "respond cid rd f wr body k = (frame_bytes (response_message cid data), k')"
  using assms by (simp add: respond_def)

lemma whole_roundtrip: "norm_codec rd wr f \<Longrightarrow> wr x = Ok bs \<Longrightarrow> rd (bs, None) = Ok (f x, ([], None))"
  using norm_codec.roundtrip [of rd wr f x bs "[]" None] by simp

text \<open>The answers can be written, and the client reads from them what they say.\<close>

lemma write_String_short:
  "length (as_bytes s) < 2 ^ 15 \<Longrightarrow> write_String s = Ok (to_be_bytes 2 (of_nat (length (as_bytes s)) :: i16) @ as_bytes s)"
  by (simp add: write_String_def i16_try_from_usize_def write_Int16_def)

lemma write_produce_answer:
  assumes "length (as_bytes topic) < 2 ^ 15" and "in_range v (API_VERSION_RANGE Produce_type)"
  obtains data where "broker_write_ProduceResponse v (produce_answer topic part base) = Ok data"
    "length data \<le> length (as_bytes topic) + 100"
    "\<exists>response. read_ProduceResponse v (data, None) = Ok (response, ([], None)) \<and>
      psr_throttle_time_ms response = Some 0 \<and>
      process_produce_response part topic n response = offsets_from base 0 (nat (sint n))"
proof -
  obtain data where data: "broker_write_ProduceResponse v (produce_answer topic part base) = Ok data"
    "length data \<le> length (as_bytes topic) + 100"
    using assms
    by (cases "5 \<le> version_number v")
      (simp_all add: Produce_type_def broker_write_ProduceResponse_def produce_answer_def broker_write_topic_response_def
        broker_write_partition_response_def write_versioned_array_def write_String_short write_Int32_def
        write_Int64_def write_error_code_def write_Int16_def vw_def write_or_default_def wwhen_def Let_def
        i32_try_from_usize_def)
  have "canonical_error None" by (simp add: canonical_error_def)
  then have "process_produce_response part topic n (norm_ProduceResponse v (produce_answer topic part base)) =
      offsets_from base 0 (nat (sint n))"
    by (simp add: norm_ProduceResponse_def norm_partition_response_def produce_answer_def process_produce_response_def
        Let_def only_one_def exactly_one_def)
  moreover have "read_ProduceResponse v (data, None) =
      Ok (norm_ProduceResponse v (produce_answer topic part base), ([], None))"
    using assms(2) by (intro whole_roundtrip [OF norm_codec_ProduceResponse data(1)]) (simp add: Produce_type_def)
  moreover have "psr_throttle_time_ms (norm_ProduceResponse v (produce_answer topic part base)) = Some 0"
    using assms(2) by (simp add: norm_ProduceResponse_def produce_answer_def Produce_type_def)
  ultimately show thesis using that [OF data] by blast
qed

lemma write_fetch_answer:
  assumes "record_crates K" and "length (as_bytes topic) < 2 ^ 15" and "write_Records K bs = Ok bytes"
  obtains data where "broker_write_FetchResponse K (fetch_answer topic part high bs) = Ok data"
    "length data \<le> length (as_bytes topic) + length bytes + 100"
    "read_FetchResponse K (ApiVersion 4) (data, None) = Ok (fetch_answer topic part high bs, ([], None))"
proof -
  obtain data where data: "broker_write_FetchResponse K (fetch_answer topic part high bs) = Ok data"
    "length data \<le> length (as_bytes topic) + length bytes + 100"
    using assms(2,3)
    by (simp add: broker_write_FetchResponse_def fetch_answer_def broker_write_FetchResponseTopic_def
        broker_write_FetchResponsePartition_def write_versioned_array_def write_String_short write_Int32_def
        write_Int64_def write_error_code_def write_Int16_def vw_def write_or_default_def i32_try_from_usize_def)
  have "canonical_error None" by (simp add: canonical_error_def)
  then have "norm_FetchResponse (fetch_answer topic part high bs) = fetch_answer topic part high bs"
    by (simp add: norm_FetchResponse_def norm_fetch_partition_def fetch_answer_def)
  with whole_roundtrip [OF record_crates.norm_codec_FetchResponse [OF assms(1)] data(1)] that [OF data]
  show thesis by simp
qed

lemma write_offsets_answer:
  assumes "length (as_bytes topic) < 2 ^ 15" and "in_range v (API_VERSION_RANGE ListOffsets_type)"
  obtains data response p where "broker_write_ListOffsetsResponse v (offsets_answer topic part off) = Ok data"
    "length data \<le> length (as_bytes topic) + 100"
    "read_ListOffsetsResponse v (data, None) = Ok (response, ([], None))"
    "lsr_throttle_time_ms response = None \<or> lsr_throttle_time_ms response = Some 0"
    "process_list_offsets_response part topic response = Ok p" "extract_offset p = Ok off"
proof -
  obtain data where data: "broker_write_ListOffsetsResponse v (offsets_answer topic part off) = Ok data"
    "length data \<le> length (as_bytes topic) + 100"
    using assms
    by (cases "version_number v < 1"; cases "2 \<le> version_number v")
      (simp_all add: ListOffsets_type_def broker_write_ListOffsetsResponse_def offsets_answer_def
        broker_write_ListOffsetsResponseTopic_def broker_write_ListOffsetsResponsePartition_def
        write_versioned_array_def write_String_short write_Int32_def write_Int64_def write_error_code_def
        write_Int16_def vw_def write_or_default_def wwhen_def Let_def i32_try_from_usize_def write_Array_def
        write_ArrayRef_def)
  let ?r = "norm_ListOffsetsResponse v (offsets_answer topic part off)"
  have "canonical_error None" by (simp add: canonical_error_def)
  then have "process_list_offsets_response part topic ?r =
      Ok (norm_offsets_partition v (hd (lst_partitions (hd (lsr_topics (offsets_answer topic part off))))))"
    by (simp add: norm_ListOffsetsResponse_def norm_offsets_partition_def offsets_answer_def
        process_list_offsets_response_def Let_def only_one_def exactly_one_def)
  moreover have "extract_offset (norm_offsets_partition v
      (hd (lst_partitions (hd (lsr_topics (offsets_answer topic part off)))))) = Ok off"
    by (cases "version_number v < 1") (simp_all add: norm_offsets_partition_def offsets_answer_def extract_offset_def)
  moreover have "read_ListOffsetsResponse v (data, None) = Ok (?r, ([], None))"
    using assms(2) by (intro whole_roundtrip [OF norm_codec_ListOffsetsResponse data(1)]) (simp add: ListOffsets_type_def)
  moreover have "lsr_throttle_time_ms ?r = None \<or> lsr_throttle_time_ms ?r = Some 0"
    by (simp add: norm_ListOffsetsResponse_def offsets_answer_def with_default_def)
  ultimately show thesis using that [OF data] by blast
qed

section \<open>Refinement\<close>

text \<open>A version is negotiated for the request, and its message can be encoded and framed.\<close>

definition can_send :: "'x connection \<Rightarrow> ('x connection, ('x, 'p) wires) partition_world \<Rightarrow> request_type \<Rightarrow>
    (ApiVersion \<Rightarrow> vwres) \<Rightarrow> bool" where
  "can_send c w rt msg \<longleftrightarrow>
     (case choose_version rt (co_version_ranges c) of
        Ok v \<Rightarrow>
          (case encode_request (co_client_id c) rt msg v (correlation c w) of
             Ok buf \<Rightarrow> length buf < 2 ^ 31
           | _ \<Rightarrow> False)
      | _ \<Rightarrow> False)"

lemma can_sendE:
  assumes "can_send c w rt msg" and "wf_ranges (co_version_ranges c)" and "wf_type rt"
  obtains v buf where "choose_version rt (co_version_ranges c) = Ok v" "in_range v (API_VERSION_RANGE rt)"
    "encode_request (co_client_id c) rt msg v (correlation c w) = Ok buf" "length buf < 2 ^ 31"
  using assms choose_version_in_range(1) [of rt "co_version_ranges c"]
  by (auto simp: can_send_def split: outcome.splits)

lemma wf_data_types: "wf_type Produce_type" "wf_type Fetch_type" "wf_type ListOffsets_type"
  by (simp_all add: wf_type_def Produce_type_def Fetch_type_def ListOffsets_type_def version_range_def
      less_eq_ApiVersion_def)

lemma no_tagged_fields:
  "in_range v (API_VERSION_RANGE rt) \<Longrightarrow> rt \<in> {Produce_type, Fetch_type, ListOffsets_type} \<Longrightarrow>
    \<not> use_tagged_fields_in_request rt v \<and> \<not> use_tagged_fields_in_response rt v"
  by (auto simp: use_tagged_fields_in_request_def use_tagged_fields_in_response_def Produce_type_def Fetch_type_def
      ListOffsets_type_def less_eq_ApiVersion_def)

text \<open>A batch that is kept holds its records behind those that were there.\<close>

lemma produce_batch_last:
  assumes "produce_batch C rs compr = Ok batch" and "length rs < 2 ^ 31"
  shows "last_offset_delta batch = of_nat (length rs - 1)" "rs \<noteq> []"
  using assms by (auto simp: produce_batch_def Let_def sub_panic_def of_nat_diff split: list.splits if_splits)

lemma keep_batch_holds:
  assumes "holds C exact k xs" and "produce_batch C rs compr = Ok batch" and "length rs < 2 ^ 31"
    and "\<forall>r \<in> set rs. sendable_record exact r" and "length xs + length rs < 2 ^ 63"
  shows "holds C exact (keep_batch batch k) (xs @ rs)"
proof -
  from assms(1) obtain ls where k: "kb_next k = of_nat (length xs)" and ls: "kb_batches k = map fst ls"
    "contiguous C exact 0 ls" "concat (map snd ls) = xs"
    by (auto simp: holds_def)
  let ?b = "batch\<lparr>base_offset := kb_next k\<rparr>"
  have "stored_batch C exact ?b rs" using assms(2-4) by (auto simp: stored_batch_def)
  with ls k assms(5) have "contiguous C exact 0 (ls @ [(?b, rs)])" by (simp add: contiguous_append)
  moreover have "kb_next (keep_batch batch k) = of_nat (length (xs @ rs))"
  proof -
    have "(scast (last_offset_delta batch) :: i64) + 1 = of_nat (length rs)"
      using produce_batch_last [OF assms(2,3)] assms(3)
      by (simp add: scast_of_nat) (metis Suc_pred length_greater_0_conv of_nat_Suc add.commute)
    with k show ?thesis by (simp add: keep_batch_def add.assoc)
  qed
  ultimately show ?thesis using ls
    by (auto simp: holds_def keep_batch_def intro!: exI [of _ "ls @ [(?b, rs)]"])
qed

text \<open>
  The broker at the other end of a transport may know more requests; all that the client relies on
  is that it answers those of the three kinds as \<open>log_peer\<close> does.
\<close>

definition serves_log :: "crates \<Rightarrow> room \<Rightarrow> rstring \<Rightarrow> i32 \<Rightarrow> ('x, kept) peer \<Rightarrow> 'x \<Rightarrow> bool" where
  "serves_log K room topic part peer x \<longleftrightarrow> (\<forall>rt cl msg v cid buf k.
     rt \<in> {Produce_type, Fetch_type, ListOffsets_type} \<longrightarrow> \<not> use_tagged_fields_in_request rt v \<longrightarrow>
     encode_request cl rt msg v cid = Ok buf \<longrightarrow> length buf < 2 ^ 31 \<longrightarrow>
     peer x (frame_bytes buf) k = log_peer K room topic part x (frame_bytes buf) k)"

lemma serves_logD:
  assumes "serves_log K room topic part peer x" and "rt \<in> {Produce_type, Fetch_type, ListOffsets_type}"
    and "\<not> use_tagged_fields_in_request rt v" and "encode_request cl rt msg v cid = Ok buf" and "length buf < 2 ^ 31"
  shows "peer x (frame_bytes buf) k = log_peer K room topic part x (frame_bytes buf) k"
  using assms unfolding serves_log_def by blast

text \<open>
  Requests of the three kinds over the connection: it is enough that the broker answers the body
  of the request, and that the client makes the result of the answer.
\<close>

lemma partition_request_at_broker:
  assumes "linked c w" and "wf_ranges (co_version_ranges c)" and "can_send c w rt (\<lambda>v. wr v request)"
    and "wf_type rt" and "rt \<in> {Produce_type, Fetch_type, ListOffsets_type}"
    and "\<And>v buf. in_range v (API_VERSION_RANGE rt) \<Longrightarrow> \<not> use_tagged_fields_in_request rt v \<Longrightarrow>
      encode_request (co_client_id c) rt (\<lambda>v. wr v request) v (correlation c w) = Ok buf \<Longrightarrow> length buf < 2 ^ 31 \<Longrightarrow>
      \<exists>data response y. peer (co_transport c) (frame_bytes buf) (peer_of w) =
          (frame_bytes (response_message (correlation c w) data), k') \<and>
        4 + length data \<le> co_max_message_size c \<and> 4 + length data < 2 ^ 31 \<and>
        rd v (data, None) = Ok (response, ([], None)) \<and>
        (throttle_time response = None \<or> throttle_time response = Some 0) \<and> process response = Ok y \<and> Q y"
  shows "\<exists>w' y. partition_request nw pcl (\<lambda>broker. wire_send peer rt wr rd broker request) throttle_time process w =
    Some (Ok y, w') \<and> linked c w' \<and> peer_of w' = k' \<and> Q y"
proof -
  obtain v buf where v: "choose_version rt (co_version_ranges c) = Ok v" "in_range v (API_VERSION_RANGE rt)"
    and buf: "encode_request (co_client_id c) rt (\<lambda>v. wr v request) v (correlation c w) = Ok buf" "length buf < 2 ^ 31"
    using can_sendE [OF assms(3,2,4)] by blast
  have tags: "\<not> use_tagged_fields_in_request rt v" "\<not> use_tagged_fields_in_response rt v"
    using no_tagged_fields [OF v(2) assms(5)] by simp_all
  obtain data response y where *: "peer (co_transport c) (frame_bytes buf) (peer_of w) =
      (frame_bytes (response_message (correlation c w) data), k')"
    "4 + length data \<le> co_max_message_size c" "4 + length data < 2 ^ 31"
    "rd v (data, None) = Ok (response, ([], None))"
    "throttle_time response = None \<or> throttle_time response = Some 0" "process response = Ok y" "Q y"
    using assms(6) [OF v(2) tags(1) buf] by blast
  from partition_request_answered [where rt = rt and wr = wr and msg = request and peer = peer and rd = rd and
      throttle_time = throttle_time and process = process, OF assms(1) v(1) tags(2) buf *(1-6)] *(7)
  show ?thesis by blast
qed

section \<open>Producing\<close>

lemma offsets_from_spec:
  assumes "length xs + length rs < 2 ^ 63"
  shows "offsets_from (of_nat (length xs)) 0 (nat (sint (of_nat (length rs) :: i64))) = Ok (fst (spec_produce rs xs))"
proof -
  have "sint (of_nat (length xs) :: i64) = int (length xs)" "sint (of_nat (length rs) :: i64) = int (length rs)"
    using assms by (simp_all add: sint_of_nat_i64)
  moreover have "map (\<lambda>i. of_nat (length xs) + of_nat i :: i64) [0..<length rs] =
      map of_nat [length xs..<length xs + length rs]"
    using arg_cong [OF map_add_upt [of "length xs" "length rs"], of "map (of_nat :: nat \<Rightarrow> i64)"]
    by (simp add: comp_def add.commute)
  ultimately show ?thesis
    using offsets_from_ok [of "of_nat (length xs)" 0 "length rs"] assms by (simp add: spec_produce_def)
qed

lemma produce_at_broker:
  assumes "record_crates K" and "in_range v (API_VERSION_RANGE Produce_type)"
    and "\<not> use_tagged_fields_in_request Produce_type v"
    and "encode_request cl Produce_type (\<lambda>v. write_ProduceRequest K v request) v cid = Ok buf" and "length buf < 2 ^ 31"
    and "prq_topic_data request = [\<lparr>prt_name = topic, prt_partition_data = [\<lparr>prp_index = part, prp_records = [batch]\<rparr>]\<rparr>]"
    and "broker_write_ProduceResponse v (produce_answer topic part (kb_next k)) = Ok data"
  shows "log_peer K room topic part x (frame_bytes buf) k =
    (frame_bytes (response_message cid data), keep_batch batch k)"
proof -
  have "API_KEY Produce_type = Produce" by (simp add: Produce_type_def)
  then obtain body where body: "write_ProduceRequest K v request = Ok body"
    "log_peer K room topic part x (frame_bytes buf) k = respond cid (broker_ProduceRequest K)
      (log_produce topic part) (broker_write_ProduceResponse v) body k"
    using log_peer_request [OF assms(4,5,3)] by metis
  have "broker_ProduceRequest K (body, None) = Ok (request, ([], None))"
    using codec_roundtrip [OF record_crates.codec_ProduceRequest [OF assms(1,2)] body(1), of "[]" None] by simp
  moreover have "log_produce topic part request k = Some (produce_answer topic part (kb_next k), keep_batch batch k)"
    by (simp add: log_produce_def assms(6))
  ultimately show ?thesis using body(2) assms(7) by (simp add: respond_Ok)
qed

lemma produce_refines:
  assumes "record_crates K" and "linked c w" and "wf_ranges (co_version_ranges c)"
    and "holds C exact (peer_of w) xs" and "\<forall>r \<in> set rs. sendable_record exact r"
    and "build_produce_request C (pcl_partition pcl) (pcl_topic pcl) rs compr = Ok request"
    and "can_send c w Produce_type (\<lambda>v. write_ProduceRequest K v request)"
    and "length (as_bytes (pcl_topic pcl)) < 2 ^ 15" and "2 ^ 16 \<le> co_max_message_size c"
    and "length rs < 2 ^ 31" and "length xs + length rs < 2 ^ 63"
    and "serves_log K room (pcl_topic pcl) (pcl_partition pcl) peer (co_transport c)"
  shows "\<exists>w'. partition_produce nw C pcl
      (wire_send peer Produce_type (write_ProduceRequest K) read_ProduceResponse) rs compr w = Some (Ok (fst (spec_produce rs xs)), w') \<and>
    linked c w' \<and> holds C exact (peer_of w') (snd (spec_produce rs xs))"
proof -
  let ?topic = "pcl_topic pcl" and ?part = "pcl_partition pcl" and ?k = "peer_of w"
  from assms(6) obtain batch where batch: "produce_batch C rs compr = Ok batch"
    and request: "prq_topic_data request = [\<lparr>prt_name = ?topic,
      prt_partition_data = [\<lparr>prp_index = ?part, prp_records = [batch]\<rparr>]\<rparr>]"
    by (auto simp: build_produce_request_def)
  have "\<exists>data response y. peer (co_transport c) (frame_bytes buf) ?k =
        (frame_bytes (response_message (correlation c w) data), keep_batch batch ?k) \<and>
      4 + length data \<le> co_max_message_size c \<and> 4 + length data < 2 ^ 31 \<and>
      read_ProduceResponse v (data, None) = Ok (response, ([], None)) \<and>
      (psr_throttle_time_ms response = None \<or> psr_throttle_time_ms response = Some 0) \<and>
      process_produce_response ?part ?topic (of_nat (length rs)) response = Ok y \<and> y = fst (spec_produce rs xs)"
    if v: "in_range v (API_VERSION_RANGE Produce_type)" "\<not> use_tagged_fields_in_request Produce_type v"
      "encode_request (co_client_id c) Produce_type (\<lambda>v. write_ProduceRequest K v request) v (correlation c w) = Ok buf"
      "length buf < 2 ^ 31" for v buf
  proof -
    obtain data where data: "broker_write_ProduceResponse v (produce_answer ?topic ?part (kb_next ?k)) = Ok data"
      "length data \<le> length (as_bytes ?topic) + 100"
      "\<exists>response. read_ProduceResponse v (data, None) = Ok (response, ([], None)) \<and>
        psr_throttle_time_ms response = Some 0 \<and>
        process_produce_response ?part ?topic (of_nat (length rs)) response =
          offsets_from (kb_next ?k) 0 (nat (sint (of_nat (length rs) :: i64)))"
      by (rule write_produce_answer [OF assms(8) v(1)])
    have "kb_next ?k = of_nat (length xs)" using assms(4) by (simp add: holds_def)
    with data(3) offsets_from_spec [OF assms(11)] produce_at_broker [OF assms(1) v request data(1)]
      serves_logD [OF assms(12) _ v(2-4), of ?k] data(2) assms(8,9)
    show ?thesis by (intro exI [of _ data]) auto
  qed
  from partition_request_at_broker [where peer = peer and rd = read_ProduceResponse and wr = "write_ProduceRequest K" and
      request = request and throttle_time = psr_throttle_time_ms and Q = "\<lambda>y. y = fst (spec_produce rs xs)" and
      process = "process_produce_response ?part ?topic (of_nat (length rs))" and k' = "keep_batch batch ?k",
      OF assms(2,3,7) wf_data_types(1) _ this, of nw pcl]
  obtain w' where "partition_request nw pcl (\<lambda>broker. wire_send peer Produce_type (write_ProduceRequest K)
      read_ProduceResponse broker request) psr_throttle_time_ms
      (process_produce_response ?part ?topic (of_nat (length rs))) w = Some (Ok (fst (spec_produce rs xs)), w')"
    "linked c w'" "peer_of w' = keep_batch batch ?k" by blast
  moreover have "rs \<noteq> []" using produce_batch_last(2) [OF batch assms(10)] .
  moreover have "holds C exact (keep_batch batch ?k) (xs @ rs)"
    using keep_batch_holds [OF assms(4) batch assms(10,5,11)] .
  ultimately show ?thesis using assms(6) by (simp add: partition_produce_def spec_produce_def)
qed

section \<open>Fetching\<close>

lemma fetch_version: "in_range v (API_VERSION_RANGE Fetch_type) \<Longrightarrow> v = ApiVersion 4"
proof (cases v)
  case (ApiVersion i)
  moreover assume "in_range v (API_VERSION_RANGE Fetch_type)"
  ultimately have "sint i = sint (4 :: i16)" by (simp add: Fetch_type_def)
  with ApiVersion show ?thesis by (metis signed_word_eqI)
qed

lemma ended_before_iff:
  assumes "contiguous C exact n ls" and "x \<in> set ls"
  shows "ended_before off (fst x) \<longleftrightarrow> batch_ended off x"
  using assms
proof (induction C exact n ls rule: contiguous.induct)
  case (2 C exact n batch rs ls)
  show ?case
  proof (cases "x = (batch, rs)")
    case True
    from "2.prems" obtain compr b where b: "produce_batch C rs compr = Ok b"
      "batch = b\<lparr>base_offset := base_offset batch\<rparr>" "length rs < 2 ^ 31"
      by (auto simp: stored_batch_def)
    have "last_offset_delta batch = last_offset_delta b" by (subst b(2)) simp
    with produce_batch_last [OF b(1,3)] have "last_offset_delta batch = of_nat (length rs - 1)" "rs \<noteq> []" by simp_all
    moreover from this b(3) have "sint (of_nat (length rs - 1) :: i32) = int (length rs) - 1"
      by (subst sint_of_nat_small) (auto simp: of_nat_diff Suc_le_eq)
    ultimately show ?thesis by (simp add: True ended_before_def batch_ended_def)
  qed (use 2 in auto)
qed simp

lemma fetched_segment:
  assumes "chrono_crate C exact" and "holds C exact k xs"
  shows "\<exists>ys. extract_records C (sent_batches room off max_bytes k) off = Ok ys \<and> prefix ys (spec_fetch off xs) \<and>
    (room max_bytes (dropWhile (ended_before off) (kb_batches k)) > 0 \<longrightarrow> spec_fetch off xs \<noteq> [] \<longrightarrow> ys \<noteq> [])"
proof -
  from assms(2) obtain ls where ls: "kb_batches k = map fst ls" "contiguous C exact 0 ls" "concat (map snd ls) = xs"
    by (auto simp: holds_def)
  let ?n = "room max_bytes (dropWhile (ended_before off) (kb_batches k))"
  have stored: "stored_log C exact 0 ls" "spec_fetch off xs = from_offset off (log_records ls)"
    using contiguous_stored [OF ls(2)] ls(3) by (simp_all add: spec_fetch_def)
  have "dropWhile (ended_before off \<circ> fst) ls = dropWhile (batch_ended off) ls"
    using ended_before_iff [OF ls(2)] by (intro dropWhile_cong) auto
  then have "sent_batches room off max_bytes k = map fst (take ?n (dropWhile (batch_ended off) ls))"
    by (simp add: sent_batches_def Let_def ls(1) dropWhile_map take_map)
  with extract_segment [OF assms(1) stored(1), of ?n off] stored(2) show ?thesis by metis
qed

lemma fetch_at_broker:
  assumes "in_range v (API_VERSION_RANGE Fetch_type)" and "\<not> use_tagged_fields_in_request Fetch_type v"
    and "encode_request cl Fetch_type (\<lambda>v. write_FetchRequest v (build_fetch_request off bytes wait part topic)) v cid = Ok buf"
    and "length buf < 2 ^ 31"
    and "broker_write_FetchResponse K (fetch_answer topic part (kb_next k)
      (sent_batches room off (saturating_dec (snd bytes)) k)) = Ok data"
  shows "log_peer K room topic part x (frame_bytes buf) k = (frame_bytes (response_message cid data), k)"
proof -
  let ?request = "build_fetch_request off bytes wait part topic"
  have "API_KEY Fetch_type = Fetch" by (simp add: Fetch_type_def)
  then obtain body where body: "write_FetchRequest v ?request = Ok body"
    "log_peer K room topic part x (frame_bytes buf) k = respond cid broker_FetchRequest
      (log_fetch room topic part) (broker_write_FetchResponse K) body k"
    using log_peer_request [OF assms(3,4,2)] by metis
  have "broker_FetchRequest (body, None) = Ok (norm_FetchRequest ?request, ([], None))"
    by (rule whole_roundtrip [OF norm_codec_FetchRequest [OF assms(1)] body(1)])
  moreover have "log_fetch room topic part (norm_FetchRequest ?request) k = Some (fetch_answer topic part (kb_next k)
      (sent_batches room off (saturating_dec (snd bytes)) k), k)"
    by (simp add: log_fetch_def norm_FetchRequest_def build_fetch_request_def)
  ultimately show ?thesis using body(2) assms(5) by (simp add: respond_Ok)
qed

lemma fetch_refines:
  assumes "record_crates K" and "chrono_crate C exact" and "linked c w" and "wf_ranges (co_version_ranges c)"
    and "holds C exact (peer_of w) xs"
    and "can_send c w Fetch_type (\<lambda>v. write_FetchRequest v
      (build_fetch_request off bytes wait (pcl_partition pcl) (pcl_topic pcl)))"
    and "length (as_bytes (pcl_topic pcl)) < 2 ^ 15"
    and "write_Records K (sent_batches room off (saturating_dec (snd bytes)) (peer_of w)) = Ok sent"
    and "length sent + 2 ^ 16 \<le> co_max_message_size c" and "length sent + 2 ^ 16 < 2 ^ 31"
    and "serves_log K room (pcl_topic pcl) (pcl_partition pcl) peer (co_transport c)"
  shows "\<exists>ys w'. partition_fetch nw C pcl
      (wire_send peer Fetch_type write_FetchRequest (read_FetchResponse K)) off bytes wait w = Some (Ok (ys, of_nat (length xs)), w') \<and>
    linked c w' \<and> peer_of w' = peer_of w \<and> prefix ys (spec_fetch off xs) \<and>
    (room (saturating_dec (snd bytes)) (dropWhile (ended_before off) (kb_batches (peer_of w))) > 0 \<longrightarrow>
      spec_fetch off xs \<noteq> [] \<longrightarrow> ys \<noteq> [])"
proof -
  let ?topic = "pcl_topic pcl" and ?part = "pcl_partition pcl" and ?k = "peer_of w"
  let ?request = "build_fetch_request off bytes wait ?part ?topic"
  let ?bs = "sent_batches room off (saturating_dec (snd bytes)) ?k"
  let ?good = "\<lambda>p. fsp_records p = ?bs \<and> fsp_high_watermark p = kb_next ?k"
  have "\<exists>data response y. peer (co_transport c) (frame_bytes buf) ?k =
        (frame_bytes (response_message (correlation c w) data), ?k) \<and>
      4 + length data \<le> co_max_message_size c \<and> 4 + length data < 2 ^ 31 \<and>
      read_FetchResponse K v (data, None) = Ok (response, ([], None)) \<and>
      (fsr_throttle_time_ms response = None \<or> fsr_throttle_time_ms response = Some 0) \<and>
      process_fetch_response ?part ?topic response off = Ok y \<and> ?good y"
    if v: "in_range v (API_VERSION_RANGE Fetch_type)" "\<not> use_tagged_fields_in_request Fetch_type v"
      "encode_request (co_client_id c) Fetch_type (\<lambda>v. write_FetchRequest v ?request) v (correlation c w) = Ok buf"
      "length buf < 2 ^ 31" for v buf
  proof -
    obtain data where data: "broker_write_FetchResponse K (fetch_answer ?topic ?part (kb_next ?k) ?bs) = Ok data"
      "length data \<le> length (as_bytes ?topic) + length sent + 100"
      "read_FetchResponse K (ApiVersion 4) (data, None) = Ok (fetch_answer ?topic ?part (kb_next ?k) ?bs, ([], None))"
      by (rule write_fetch_answer [OF assms(1,7,8)])
    have "\<exists>y. process_fetch_response ?part ?topic (fetch_answer ?topic ?part (kb_next ?k) ?bs) off = Ok y \<and> ?good y"
      by (simp add: process_fetch_response_def fetch_answer_def only_one_def exactly_one_def)
    moreover have "fsr_throttle_time_ms (fetch_answer ?topic ?part (kb_next ?k) ?bs) = Some 0"
      by (simp add: fetch_answer_def)
    ultimately show ?thesis
      using fetch_at_broker [OF v data(1)] serves_logD [OF assms(11) _ v(2-4), of ?k] data(2,3) assms(7,9,10) fetch_version [OF v(1)]
      by (intro exI [of _ data]) auto
  qed
  from partition_request_at_broker [where peer = peer and rd = "read_FetchResponse K" and wr = write_FetchRequest and
      request = ?request and throttle_time = fsr_throttle_time_ms and Q = ?good and
      process = "\<lambda>response. process_fetch_response ?part ?topic response off" and k' = ?k,
      OF assms(3,4,6) wf_data_types(2) _ this, of nw pcl]
  obtain w' p where "partition_request nw pcl (\<lambda>broker. wire_send peer Fetch_type write_FetchRequest
      (read_FetchResponse K) broker ?request) fsr_throttle_time_ms
      (\<lambda>response. process_fetch_response ?part ?topic response off) w = Some (Ok p, w')"
    "linked c w'" "peer_of w' = ?k" "fsp_records p = ?bs" "fsp_high_watermark p = kb_next ?k" by blast
  moreover have "kb_next ?k = of_nat (length xs)" using assms(5) by (simp add: holds_def)
  moreover note fetched_segment [OF assms(2,5), of room off "saturating_dec (snd bytes)"]
  ultimately show ?thesis by (auto simp: partition_fetch_def and_then_def)
qed

section \<open>Offsets\<close>

lemma offsets_at_broker:
  assumes "\<not> use_tagged_fields_in_request ListOffsets_type v"
    and "encode_request cl ListOffsets_type (\<lambda>v. write_ListOffsetsRequest v (build_list_offsets_request part topic which)) v cid =
      Ok buf" and "length buf < 2 ^ 31"
    and "holds C exact k xs"
    and "broker_write_ListOffsetsResponse v (offsets_answer topic part (spec_offset which xs)) = Ok data"
  shows "log_peer K room topic part x (frame_bytes buf) k = (frame_bytes (response_message cid data), k)"
proof -
  let ?request = "build_list_offsets_request part topic which"
  have "API_KEY ListOffsets_type = ListOffsets" by (simp add: ListOffsets_type_def)
  then obtain body where body: "write_ListOffsetsRequest v ?request = Ok body"
    "log_peer K room topic part x (frame_bytes buf) k = respond cid (broker_ListOffsetsRequest v)
      (log_offsets topic part) (broker_write_ListOffsetsResponse v) body k"
    using log_peer_request [OF assms(2,3,1)] by metis
  have "broker_ListOffsetsRequest v (body, None) = Ok (norm_ListOffsetsRequest v ?request, ([], None))"
    by (rule whole_roundtrip [OF norm_codec_ListOffsetsRequest body(1)])
  moreover have "log_offsets topic part (norm_ListOffsetsRequest v ?request) k =
      Some (offsets_answer topic part (spec_offset which xs), k)"
    using assms(4) by (cases "which") (simp_all add: log_offsets_def norm_ListOffsetsRequest_def
        norm_offsets_request_partition_def build_list_offsets_request_def holds_def)
  ultimately show ?thesis using body(2) assms(5) by (simp add: respond_Ok)
qed

lemma offset_refines:
  assumes "linked c w" and "wf_ranges (co_version_ranges c)" and "holds C exact (peer_of w) xs"
    and "can_send c w ListOffsets_type (\<lambda>v. write_ListOffsetsRequest v
      (build_list_offsets_request (pcl_partition pcl) (pcl_topic pcl) which))"
    and "length (as_bytes (pcl_topic pcl)) < 2 ^ 15" and "2 ^ 16 \<le> co_max_message_size c"
    and "serves_log K room (pcl_topic pcl) (pcl_partition pcl) peer (co_transport c)"
  shows "\<exists>w'. partition_get_offset nw pcl
      (wire_send peer ListOffsets_type write_ListOffsetsRequest read_ListOffsetsResponse) which w = Some (Ok (spec_offset which xs), w') \<and> linked c w' \<and> peer_of w' = peer_of w"
proof -
  let ?topic = "pcl_topic pcl" and ?part = "pcl_partition pcl" and ?k = "peer_of w"
  let ?request = "build_list_offsets_request ?part ?topic which"
  have "\<exists>data response y. peer (co_transport c) (frame_bytes buf) ?k =
        (frame_bytes (response_message (correlation c w) data), ?k) \<and>
      4 + length data \<le> co_max_message_size c \<and> 4 + length data < 2 ^ 31 \<and>
      read_ListOffsetsResponse v (data, None) = Ok (response, ([], None)) \<and>
      (lsr_throttle_time_ms response = None \<or> lsr_throttle_time_ms response = Some 0) \<and>
      process_list_offsets_response ?part ?topic response = Ok y \<and> extract_offset y = Ok (spec_offset which xs)"
    if v: "in_range v (API_VERSION_RANGE ListOffsets_type)" "\<not> use_tagged_fields_in_request ListOffsets_type v"
      "encode_request (co_client_id c) ListOffsets_type (\<lambda>v. write_ListOffsetsRequest v ?request) v (correlation c w) = Ok buf"
      "length buf < 2 ^ 31" for v buf
  proof -
    obtain data response p where data: "broker_write_ListOffsetsResponse v (offsets_answer ?topic ?part (spec_offset which xs)) = Ok data"
      "length data \<le> length (as_bytes ?topic) + 100"
      "read_ListOffsetsResponse v (data, None) = Ok (response, ([], None))"
      "lsr_throttle_time_ms response = None \<or> lsr_throttle_time_ms response = Some 0"
      "process_list_offsets_response ?part ?topic response = Ok p" "extract_offset p = Ok (spec_offset which xs)"
      by (rule write_offsets_answer [OF assms(5) v(1)])
    with offsets_at_broker [OF v(2-4) assms(3) data(1)] serves_logD [OF assms(7) _ v(2-4), of ?k] assms(5,6) show ?thesis
      by (intro exI [of _ data] exI [of _ response] exI [of _ p]) auto
  qed
  from partition_request_at_broker [where peer = peer and rd = read_ListOffsetsResponse and
      wr = write_ListOffsetsRequest and request = ?request and throttle_time = lsr_throttle_time_ms and
      Q = "\<lambda>y. extract_offset y = Ok (spec_offset which xs)" and
      process = "process_list_offsets_response ?part ?topic" and k' = ?k,
      OF assms(1,2,4) wf_data_types(3) _ this, of nw pcl]
  obtain w' p where "partition_request nw pcl (\<lambda>broker. wire_send peer ListOffsets_type write_ListOffsetsRequest
      read_ListOffsetsResponse broker ?request) lsr_throttle_time_ms
      (process_list_offsets_response ?part ?topic) w = Some (Ok p, w')"
    "linked c w'" "peer_of w' = ?k" "extract_offset p = Ok (spec_offset which xs)" by blast
  then show ?thesis by (simp add: partition_get_offset_def and_then_def)
qed

section \<open>Requests that can always be sent\<close>

lemma write_header_short:
  assumes "length (as_bytes cl) < 2 ^ 15" and "\<not> use_tagged_fields_in_request rt v"
  obtains h where "write_RequestHeader (header_version_of rt v) (request_header_of cl rt v cid) = Ok h"
    "length h \<le> length (as_bytes cl) + 10"
  using assms
  by (simp add: header_version_of_def write_RequestHeader_def request_header_of_def write_or_default_def
      write_NullableString_def write_Int16_def write_Int32_def i16_try_from_usize_def vw_def Let_def)

lemma can_send_small:
  assumes "choose_version rt (co_version_ranges c) = Ok v" and "length (as_bytes (co_client_id c)) < 2 ^ 15"
    and "\<not> use_tagged_fields_in_request rt v" and "msg v = Ok body" and "length body < 2 ^ 30"
  shows "can_send c w rt msg"
proof -
  obtain h where "write_RequestHeader (header_version_of rt v) (request_header_of (co_client_id c) rt v (correlation c w)) = Ok h"
    "length h \<le> length (as_bytes (co_client_id c)) + 10"
    by (rule write_header_short [OF assms(2,3)])
  with assms show ?thesis by (simp add: can_send_def encode_request_def)
qed

lemma can_send_fetch:
  assumes "wf_ranges (co_version_ranges c)" and "choose_version Fetch_type (co_version_ranges c) = Ok v"
    and "length (as_bytes (co_client_id c)) < 2 ^ 15" and "length (as_bytes topic) < 2 ^ 15"
  shows "can_send c w Fetch_type (\<lambda>v. write_FetchRequest v (build_fetch_request off bytes wait part topic))"
proof -
  have v: "in_range v (API_VERSION_RANGE Fetch_type)"
    by (rule choose_version_in_range(1) [OF assms(2) wf_data_types(2) assms(1)])
  then have "\<not> use_tagged_fields_in_request Fetch_type v" using no_tagged_fields [OF v] by simp
  moreover obtain body where "write_FetchRequest v (build_fetch_request off bytes wait part topic) = Ok body"
    "length body \<le> length (as_bytes topic) + 100"
    using assms(4)
    by (simp add: fetch_version [OF v] write_FetchRequest_def build_fetch_request_def write_FetchRequestTopic_def
        write_FetchRequestPartition_def write_versioned_array_def write_String_short write_Int32_def write_Int64_def
        write_Int8_def vw_def Let_def i32_try_from_usize_def)
  ultimately show ?thesis using assms by (intro can_send_small [where v = v and body = body]) auto
qed

lemma can_send_offsets:
  assumes "wf_ranges (co_version_ranges c)" and "choose_version ListOffsets_type (co_version_ranges c) = Ok v"
    and "length (as_bytes (co_client_id c)) < 2 ^ 15" and "length (as_bytes topic) < 2 ^ 15"
  shows "can_send c w ListOffsets_type (\<lambda>v. write_ListOffsetsRequest v (build_list_offsets_request part topic which))"
proof -
  have v: "in_range v (API_VERSION_RANGE ListOffsets_type)"
    by (rule choose_version_in_range(1) [OF assms(2) wf_data_types(3) assms(1)])
  then have "\<not> use_tagged_fields_in_request ListOffsets_type v" using no_tagged_fields [OF v] by simp
  moreover obtain body where "write_ListOffsetsRequest v (build_list_offsets_request part topic which) = Ok body"
    "length body \<le> length (as_bytes topic) + 100"
    using assms(4) v
    by (cases "version_number v < 1"; cases "2 \<le> version_number v")
      (simp_all add: write_ListOffsetsRequest_def build_list_offsets_request_def write_ListOffsetsRequestTopic_def
        write_ListOffsetsRequestPartition_def write_versioned_array_def write_String_short write_Int32_def
        write_Int64_def write_Int8_def vw_def wwhen_def Let_def i32_try_from_usize_def ListOffsets_type_def)
  ultimately show ?thesis using assms by (intro can_send_small [where v = v and body = body]) auto
qed

end
