(* ===== verification/Log_Consumer.thy ===== *)
theory Log_Consumer
  imports Log_Broker
begin

text \<open>
  The consumer of \<open>src/src/client/consumer.rs\<close> on a partition client whose requests change a state:
  \<open>next_item\<close> is \<open>poll_next\<close> driven until it is ready, as \<open>StreamExt::next\<close> does, with the future of each
  fetch run on the state.  It is \<open>None\<close> when the stream never has another item.

  What is proved: on the state of the messenger, the connection and the reference broker, the
  stream has the records of the broker from the start offset on, one after the other.
\<close>

section \<open>The stream over a state\<close>

type_synonym ('w, 'ts) fetching = "i64 \<Rightarrow> i32 \<times> i32 \<Rightarrow> i32 \<Rightarrow> ('w, client_error, 'ts RecordAndOffset list \<times> i64) action"
type_synonym 'w offsets = "OffsetAt \<Rightarrow> ('w, client_error, i64) action"

definition resolve_offset :: "'w offsets \<Rightarrow> fetch_plan \<Rightarrow> ('w, client_error, i64) action" where
  "resolve_offset offset_of plan w =
     (case fp_next_offset plan of
        Some x \<Rightarrow> Some (Ok x, w)
      | None \<Rightarrow>
          (case fp_start_offset plan of
             StartEarliest \<Rightarrow> offset_of Earliest w
           | StartLatest \<Rightarrow> offset_of Latest w
           | StartAt x \<Rightarrow> Some (Ok x, w)))"

definition fetch_future :: "'w offsets \<Rightarrow> ('w, 'ts) fetching \<Rightarrow> fetch_plan \<Rightarrow>
    ('w, client_error, 'ts FetchResultOk) action" where
  "fetch_future offset_of fetch plan w =
     Option.bind (resolve_offset offset_of plan w) (\<lambda>(r, w1).
       case r of
         Ok offset \<Rightarrow>
           and_then (fetch offset (fp_bytes plan) (fp_max_wait_ms plan)) (\<lambda>(rs, watermark).
             Ok \<lparr>fo_records_and_offsets = rs, fo_watermark = watermark, fo_used_offset = offset\<rparr>) w1
       | Err e \<Rightarrow> Some (Err e, w1)
       | Panic p \<Rightarrow> Some (Panic p, w1))"

partial_function (option) next_item :: "(fetch_plan \<Rightarrow> ('w, client_error, 'ts FetchResultOk) action) \<Rightarrow>
    'ts StreamConsumer \<Rightarrow> 'w \<Rightarrow> ('ts item option \<times> 'ts StreamConsumer \<times> 'w) option" where
  "next_item future c w =
     (case poll_ready c of
        Some (item, c') \<Rightarrow> Some (item, c', w)
      | None \<Rightarrow>
          let (plan, c1) = start_fetch c;
              c2 = c1\<lparr>sc_fetch_fut := None\<rparr>
          in Option.bind (future plan w) (\<lambda>(r, w1).
             case r of
               Ok inner \<Rightarrow>
                 (case absorb inner c2 of
                    Ok c3 \<Rightarrow> next_item future c3 w1
                  | Err e \<Rightarrow> Some (Some (Err e), c2, w1)
                  | Panic p \<Rightarrow> Some (Some (Panic p), c2, w1))
             | Err e \<Rightarrow>
                 if offset_is_gone e (sc_start_offset c2)
                 then next_item future (c2\<lparr>sc_next_offset := None, sc_next_backoff := Some 1\<rparr>) w1
                 else Some (Some (Err e), c2\<lparr>sc_terminated := True\<rparr>, w1)
             | Panic p \<Rightarrow> Some (Some (Panic p), c2, w1)))"

text \<open>The first items of the stream.\<close>

fun stream_items :: "nat \<Rightarrow> (fetch_plan \<Rightarrow> ('w, client_error, 'ts FetchResultOk) action) \<Rightarrow>
    'ts StreamConsumer \<Rightarrow> 'w \<Rightarrow> ('ts item list \<times> 'ts StreamConsumer \<times> 'w) option" where
  "stream_items 0 future c w = Some ([], c, w)"
| "stream_items (Suc n) future c w =
     Option.bind (next_item future c w) (\<lambda>(item, c1, w1).
       case item of
         None \<Rightarrow> Some ([], c1, w1)
       | Some i \<Rightarrow> map_option (\<lambda>(items, c2, w2). (i # items, c2, w2)) (stream_items n future c1 w1))"

section \<open>A state gives answers\<close>

text \<open>
  One answer of the state is enough for an item, when it is enough for the consumer that is
  given answers.
\<close>

lemma next_item_one:
  assumes "poll_next [a] c = (Ready item, c', rest)"
    and "future (fst (start_fetch c)) w = Some (run_fetch a (fst (start_fetch c)), w1)"
  shows "\<exists>w'. next_item future c w = Some (item, c', w') \<and> (w' = w \<or> w' = w1)"
proof (cases "poll_ready c")
  case (Some ic)
  with assms(1) show ?thesis by (cases ic) (simp add: next_item.simps [of future c])
next
  case None
  obtain plan c1 where c1: "start_fetch c = (plan, c1)" by (cases "start_fetch c")
  have again: "next_item future c3 w1 = Some (item, c', w1)" if "poll_next [] c3 = (Ready item, c', rest)" for c3
    using that by (auto simp: next_item.simps [of future c3] split: option.splits)
  show ?thesis
    using assms None c1 again
    by (subst next_item.simps) (auto simp: Let_def split: outcome.splits if_splits)
qed

text \<open>Where a stream begins in a log with these first and last offsets.\<close>

definition first_offset :: "i64 \<Rightarrow> i64 \<Rightarrow> StartOffset \<Rightarrow> i64" where
  "first_offset earliest latest start =
     (case start of StartEarliest \<Rightarrow> earliest | StartLatest \<Rightarrow> latest | StartAt x \<Rightarrow> x)"

text \<open>
  The contract: a set of states that every operation keeps, in which offsets and fetches are
  answered from a log.
\<close>

locale log_states =
  fixes offset_of :: "'w offsets" and fetch :: "('w, 'ts) fetching" and I :: "'w \<Rightarrow> bool"
    and L :: "'ts RecordAndOffset list" and earliest latest :: i64
  assumes in_order: "ordered_log L"
    and below_max: "r \<in> set L \<Longrightarrow> sint (ro_offset r) < 2 ^ 63 - 1"
    and fetches: "I w \<Longrightarrow> \<exists>ys wm w'. fetch off bytes wait w = Some (Ok (ys, wm), w') \<and> I w' \<and>
      prefix ys (from_offset off L) \<and> (ys = [] \<longrightarrow> from_offset off L = [])"
    and offsets: "I w \<Longrightarrow> \<exists>w'. offset_of which w =
      Some (Ok (case which of Earliest \<Rightarrow> earliest | Latest \<Rightarrow> latest), w') \<and> I w'"
begin

definition answers :: "'ts fetch_client set" where
  "answers = {\<lparr>fetch_records = \<lambda>off bytes wait. fst (the (fetch off bytes wait w)),
     get_offset = \<lambda>which. fst (the (offset_of which w'))\<rparr> | w w'. I w \<and> I w'}"

lemma answers_log: "partition_log L answers" and answers_answering: "answering L answers"
proof -
  have *: "\<exists>ys wm. fetch_records a off bytes wait = Ok (ys, wm) \<and> prefix ys (from_offset off L) \<and>
      (ys = [] \<longrightarrow> from_offset off L = [])" if "a \<in> answers" for a off bytes wait
  proof -
    from that obtain w where "I w" "fetch_records a off bytes wait = fst (the (fetch off bytes wait w))"
      by (auto simp: answers_def)
    with fetches [of w off bytes wait] show ?thesis by auto
  qed
  show "partition_log L answers"
  proof
    fix a off bytes wait rs w
    assume "a \<in> answers" "fetch_records a off bytes wait = Ok (rs, w)"
    with * [of a off bytes wait] show "\<exists>ys. prefix ys (from_offset off L) \<and> mset rs = mset ys" by auto
  qed (use in_order below_max in auto)
  show "answering L answers"
    unfolding answering_def using * by metis
qed

lemma answers_starts: "starts answers start (first_offset earliest latest start)"
proof -
  have "get_offset a which = Ok (case which of Earliest \<Rightarrow> earliest | Latest \<Rightarrow> latest)" if "a \<in> answers" for a which
  proof -
    from that obtain w where "I w" "get_offset a which = fst (the (offset_of which w))"
      by (auto simp: answers_def)
    with offsets [of w which] show ?thesis by auto
  qed
  then show ?thesis by (simp add: starts_def first_offset_def split: StartOffset.splits)
qed

lemma future_answered:
  assumes "I w"
  shows "\<exists>a \<in> answers. \<exists>w1. fetch_future offset_of fetch plan w = Some (run_fetch a plan, w1) \<and> I w1"
proof -
  obtain off w1 where off: "resolve_offset offset_of plan w = Some (Ok off, w1)" "I w1"
    using assms offsets [OF assms, of Earliest] offsets [OF assms, of Latest]
    by (cases "fp_next_offset plan"; cases "fp_start_offset plan") (auto simp: resolve_offset_def)
  obtain ys wm w2 where ys: "fetch off (fp_bytes plan) (fp_max_wait_ms plan) w1 = Some (Ok (ys, wm), w2)" "I w2"
    using fetches [OF off(2)] by blast
  let ?a = "\<lparr>fetch_records = \<lambda>off bytes wait. fst (the (fetch off bytes wait w1)),
    get_offset = \<lambda>which. fst (the (offset_of which w))\<rparr>"
  have "?a \<in> answers" using assms off(2) by (auto simp: answers_def)
  moreover have "fetch_offset ?a plan = Ok off"
    using off(1) by (auto simp: fetch_offset_def resolve_offset_def split: option.splits StartOffset.splits)
  then have "fetch_future offset_of fetch plan w = Some (run_fetch ?a plan, w2)"
    using off(1) ys(1) by (simp add: fetch_future_def run_fetch_def and_then_def)
  ultimately show ?thesis using ys(2) by blast
qed

lemma next_item_log:
  assumes "consumes answers (build_consumer b) items c" and "I w"
    and "length (delivered items) < length (from_offset (first_offset earliest latest (cb_start_offset b)) L)"
  obtains r wm c' w' where "next_item (fetch_future offset_of fetch) c w = Some (Some (Ok (r, wm)), c', w')" "I w'"
    "r = from_offset (first_offset earliest latest (cb_start_offset b)) L ! length (delivered items)"
    "consumes answers (build_consumer b) (items @ [Ok (r, wm)]) c'"
proof -
  obtain a w1 where a: "a \<in> answers"
    "fetch_future offset_of fetch (fst (start_fetch c)) w = Some (run_fetch a (fst (start_fetch c)), w1)" "I w1"
    using future_answered [OF assms(2)] by blast
  let ?r = "from_offset (first_offset earliest latest (cb_start_offset b)) L ! length (delivered items)"
  obtain wm c' rest where p: "poll_next [a] c = (Ready (Some (Ok (?r, wm))), c', rest)"
    using partition_log.stream_goes_on [OF answers_log assms(1) answers_starts answers_answering a(1) assms(3)] by blast
  obtain w' where "next_item (fetch_future offset_of fetch) c w = Some (Some (Ok (?r, wm)), c', w')" "w' = w \<or> w' = w1"
    using next_item_one [where future = "fetch_future offset_of fetch", OF p a(2)] by blast
  moreover have "consumes answers (build_consumer b) (items @ [Ok (?r, wm)]) c'"
    using consumes.polled [OF assms(1) _ p] a(1) by simp
  ultimately show thesis using that assms(2) a(3) by blast
qed

text \<open>The stream has all records from its first offset on.\<close>

lemma stream_items_log:
  assumes "consumes answers (build_consumer b) items c" and "I w"
    and "length (delivered items) + n \<le> length (from_offset (first_offset earliest latest (cb_start_offset b)) L)"
  shows "\<exists>items' c' w'. stream_items n (fetch_future offset_of fetch) c w = Some (items', c', w') \<and> I w' \<and>
    length items' = n \<and>
    delivered items' = take n (drop (length (delivered items)) (from_offset (first_offset earliest latest (cb_start_offset b)) L))"
  using assms
proof (induction n arbitrary: items c w)
  case 0
  then show ?case by simp
next
  case (Suc n)
  let ?log = "from_offset (first_offset earliest latest (cb_start_offset b)) L"
  from Suc.prems(3) have more: "length (delivered items) < length ?log" by simp
  obtain r wm c1 w1 where item: "next_item (fetch_future offset_of fetch) c w = Some (Some (Ok (r, wm)), c1, w1)" "I w1"
    "r = ?log ! length (delivered items)" "consumes answers (build_consumer b) (items @ [Ok (r, wm)]) c1"
    by (rule next_item_log [OF Suc.prems(1,2) more])
  from Suc.IH [OF item(4,2)] Suc.prems(3) obtain items' c' w' where
    rest: "stream_items n (fetch_future offset_of fetch) c1 w1 = Some (items', c', w')" "I w'" "length items' = n"
      "delivered items' = take n (drop (Suc (length (delivered items))) ?log)"
    by auto
  have "delivered (Ok (r, wm) # items') = r # delivered items'" by (simp add: delivered_def)
  moreover have "drop (length (delivered items)) ?log = r # drop (Suc (length (delivered items))) ?log"
    using more item(3) by (simp add: Cons_nth_drop_Suc)
  ultimately show ?case using item(1) rest by simp
qed

end


section \<open>The state of a connection to the reference broker\<close>

text \<open>
  The broker sends at least one batch when it has one, and whatever it sends from one of its
  batches on is a message below the limit, with 64 KiB for the rest of it.
\<close>

definition deliverable :: "crates \<Rightarrow> room \<Rightarrow> nat \<Rightarrow> i32 \<Rightarrow> kept \<Rightarrow> bool" where
  "deliverable K room limit max_bytes k =
     list_all (\<lambda>j. let bs = drop j (kb_batches k) in 0 < room max_bytes bs \<and>
       (case write_Records K (take (room max_bytes bs) bs) of
          Ok sent \<Rightarrow> length sent + 2 ^ 16 \<le> min limit (2 ^ 31 - 1)
        | _ \<Rightarrow> False)) [0..<Suc (length (kb_batches k))]"

lemma deliverableE:
  assumes "deliverable K room limit max_bytes k"
  obtains sent where "0 < room max_bytes (dropWhile (ended_before off) (kb_batches k))"
    "write_Records K (sent_batches room off max_bytes k) = Ok sent"
    "length sent + 2 ^ 16 \<le> limit" "length sent + 2 ^ 16 < 2 ^ 31"
proof -
  let ?j = "length (takeWhile (ended_before off) (kb_batches k))"
  have "?j \<in> set [0..<Suc (length (kb_batches k))]"
    using length_takeWhile_le [of "ended_before off" "kb_batches k"] by (simp add: less_Suc_eq_le del: upt_Suc)
  with assms have "0 < room max_bytes (drop ?j (kb_batches k)) \<and>
      (case write_Records K (take (room max_bytes (drop ?j (kb_batches k))) (drop ?j (kb_batches k))) of
         Ok sent \<Rightarrow> length sent + 2 ^ 16 \<le> min limit (2 ^ 31 - 1) | _ \<Rightarrow> False)"
    unfolding deliverable_def list_all_iff Let_def by blast
  then show thesis
    by (cases "write_Records K (take (room max_bytes (drop ?j (kb_batches k))) (drop ?j (kb_batches k)))")
      (auto intro!: that simp: sent_batches_def Let_def dropWhile_eq_drop)
qed

text \<open>The two operations of the partition client that the consumer calls, over the connection.\<close>

definition wire_offsets :: "('x, 'p) peer \<Rightarrow> ('x connection, ('x, 'p) wires) network \<Rightarrow> partition_client \<Rightarrow>
    ('x connection, ('x, 'p) wires) partition_world offsets" where
  "wire_offsets peer nw pcl = partition_get_offset nw pcl
     (wire_send peer ListOffsets_type write_ListOffsetsRequest read_ListOffsetsResponse)"

definition wire_fetch :: "crates \<Rightarrow> ('x, 'p) peer \<Rightarrow> ('x connection, ('x, 'p) wires) network \<Rightarrow> 'ts chrono \<Rightarrow>
    partition_client \<Rightarrow> (('x connection, ('x, 'p) wires) partition_world, 'ts) fetching" where
  "wire_fetch K peer nw C pcl = partition_fetch nw C pcl
     (wire_send peer Fetch_type write_FetchRequest (read_FetchResponse K))"

lemma spec_log:
  assumes "holds C exact k xs"
  shows "ordered_log (at_offsets 0 0 xs)" "r \<in> set (at_offsets 0 0 xs) \<Longrightarrow> sint (ro_offset r) < 2 ^ 63 - 1"
proof -
  from assms obtain ls where ls: "contiguous C exact 0 ls" "concat (map snd ls) = xs"
    by (auto simp: holds_def)
  from contiguous_stored [OF ls(1)] ls(2) have "stored_log C exact 0 ls" "log_records ls = at_offsets 0 0 xs" by auto
  with log_records_ordered [of C exact 0 ls] log_records_range [of C exact 0 ls]
  show "ordered_log (at_offsets 0 0 xs)" "r \<in> set (at_offsets 0 0 xs) \<Longrightarrow> sint (ro_offset r) < 2 ^ 63 - 1"
    by auto
qed

lemma wire_log_states:
  fixes c :: "'x connection" and nw :: "('x connection, ('x, kept) wires) network"
  assumes "record_crates K" and "chrono_crate C exact" and "wf_ranges (co_version_ranges c)"
    and "holds C exact k xs" and "2 ^ 16 \<le> co_max_message_size c"
    and "length (as_bytes (pcl_topic pcl)) < 2 ^ 15" and "length (as_bytes (co_client_id c)) < 2 ^ 15"
    and "choose_version Fetch_type (co_version_ranges c) = Ok v"
    and "choose_version ListOffsets_type (co_version_ranges c) = Ok v'"
    and "\<And>max_bytes. deliverable K room (co_max_message_size c) max_bytes k"
    and "serves_log K room (pcl_topic pcl) (pcl_partition pcl) peer (co_transport c)"
  shows "log_states (wire_offsets peer nw pcl) (wire_fetch K peer nw C pcl) (\<lambda>w. linked c w \<and> peer_of w = k)
    (at_offsets 0 0 xs) 0 (of_nat (length xs))"
proof
  fix w off wait and bytes :: "i32 \<times> i32"
  assume w: "linked c w \<and> peer_of w = k"
  obtain sent where sent: "0 < room (saturating_dec (snd bytes)) (dropWhile (ended_before off) (kb_batches k))"
    "write_Records K (sent_batches room off (saturating_dec (snd bytes)) k) = Ok sent"
    "length sent + 2 ^ 16 \<le> co_max_message_size c" "length sent + 2 ^ 16 < 2 ^ 31"
    by (rule deliverableE [OF assms(10)])
  have "can_send c w Fetch_type (\<lambda>v. write_FetchRequest v
      (build_fetch_request off bytes wait (pcl_partition pcl) (pcl_topic pcl)))"
    by (rule can_send_fetch [OF assms(3,8,7,6)])
  from fetch_refines [OF assms(1,2) _ assms(3) _ this assms(6) _ sent(3,4) assms(11), of xs nw] w assms(4) sent(1,2)
  show "\<exists>ys wm w'. wire_fetch K peer nw C pcl off bytes wait w = Some (Ok (ys, wm), w') \<and>
      (linked c w' \<and> peer_of w' = k) \<and> prefix ys (from_offset off (at_offsets 0 0 xs)) \<and>
      (ys = [] \<longrightarrow> from_offset off (at_offsets 0 0 xs) = [])"
    unfolding wire_fetch_def spec_fetch_def by metis
next
  fix w "which"
  assume w: "linked c w \<and> peer_of w = k"
  have "can_send c w ListOffsets_type (\<lambda>v. write_ListOffsetsRequest v
      (build_list_offsets_request (pcl_partition pcl) (pcl_topic pcl) which))"
    by (rule can_send_offsets [OF assms(3,9,7,6)])
  from offset_refines [OF _ assms(3) _ this assms(6,5,11), of C exact xs] w assms(4)
  show "\<exists>w'. wire_offsets peer nw pcl which w =
      Some (Ok (case which of Earliest \<Rightarrow> 0 | Latest \<Rightarrow> of_nat (length xs)), w') \<and> linked c w' \<and> peer_of w' = k"
    unfolding wire_offsets_def by (cases "which") auto
qed (use spec_log [OF assms(4)] in auto)

end
