(* ===== verification/Log_Producer.thy ===== *)
theory Log_Producer
  imports Log_Broker
begin

text \<open>
  The batching producer of \<open>src/src/client/producer.rs\<close> on a connection to the reference broker: the
  steps of \<open>Producer_Steps\<close>, in which the answer to a task that writes its batch is what
  \<open>PartitionClient::produce\<close> returns over the messages and frames of the connection.

  What is proved: the offset that a caller gets is the position at which the broker has its
  record, in every interleaving of callers, timers, flushes and tasks.
\<close>

section \<open>Steps of the producer and its connection\<close>

text \<open>The batch can be sent as one frame, and the broker has offsets for it.\<close>

definition writable :: "crates \<Rightarrow> 'ts::linorder chrono \<Rightarrow> ('ts \<Rightarrow> bool) \<Rightarrow> 'x connection \<Rightarrow> partition_client \<Rightarrow>
    ('x connection, ('x, kept) wires) partition_world \<Rightarrow> 'ts client_record list \<Rightarrow> Compression \<Rightarrow> bool" where
  "writable K C exact c pcl w rs compr \<longleftrightarrow>
     (\<forall>r \<in> set rs. sendable_record exact r) \<and> length rs < 2 ^ 31 \<and>
     sint (kb_next (peer_of w)) + int (length rs) < 2 ^ 63 \<and>
     (case build_produce_request C (pcl_partition pcl) (pcl_topic pcl) rs compr of
        Ok request \<Rightarrow> can_send c w Produce_type (\<lambda>v. write_ProduceRequest K v request)
      | _ \<Rightarrow> False)"

definition wire_produce :: "crates \<Rightarrow> ('x, 'p) peer \<Rightarrow> ('x connection, ('x, 'p) wires) network \<Rightarrow>
    'ts::linorder chrono \<Rightarrow> partition_client \<Rightarrow> 'ts client_record list \<Rightarrow> Compression \<Rightarrow>
    (('x connection, ('x, 'p) wires) partition_world, client_error, i64 list) action" where
  "wire_produce K peer nw C pcl = partition_produce nw C pcl
     (wire_send peer Produce_type (write_ProduceRequest K) read_ProduceResponse)"

text \<open>
  A step of the producer without its connection, a batch that is written, and one that is refused
  before it gets to the broker.
\<close>

inductive wstep for K :: crates and peer nw and C :: "'ts::linorder chrono" and exact and c :: "'x connection"
    and pcl where
  inside: "pstep record_aggregator (\<lambda>_ _ _. False) p p' \<Longrightarrow> wstep K peer nw C exact c pcl (p, w) (p', w)"
| written: "k < length (rt_tasks (pw_runtime p)) \<Longrightarrow> rt_tasks (pw_runtime p) ! k = t \<Longrightarrow>
    ft_state t = Running \<Longrightarrow> writable K C exact c pcl w (ft_batch t) (ft_compression t) \<Longrightarrow>
    wire_produce K peer nw C pcl (ft_batch t) (ft_compression t) w = Some (Ok offs, w') \<Longrightarrow>
    task_answered k (Inr offs) (pw_runtime p) = Ok rt \<Longrightarrow>
    wstep K peer nw C exact c pcl (p, w) (p\<lparr>pw_runtime := rt\<rparr>, w')"
| refused: "k < length (rt_tasks (pw_runtime p)) \<Longrightarrow> rt_tasks (pw_runtime p) ! k = t \<Longrightarrow>
    ft_state t = Running \<Longrightarrow>
    wire_produce K peer nw C pcl (ft_batch t) (ft_compression t) w = Some (Err e, w') \<Longrightarrow>
    linked c w' \<Longrightarrow> peer_of w' = peer_of w \<Longrightarrow>
    task_answered k (Inl e) (pw_runtime p) = Ok rt \<Longrightarrow>
    wstep K peer nw C exact c pcl (p, w) (p\<lparr>pw_runtime := rt\<rparr>, w')"

section \<open>Which tasks have an answer\<close>

definition same_answers :: "('r, 'd) runtime \<Rightarrow> ('r, 'd) runtime \<Rightarrow> bool" where
  "same_answers rt rt' \<longleftrightarrow> (\<forall>t \<in> set (rt_tasks rt'). \<forall>a. ft_state t = Answered a \<longrightarrow> t \<in> set (rt_tasks rt))"

lemma same_answers_tasks: "rt_tasks rt' = rt_tasks rt \<Longrightarrow> same_answers rt rt'"
  by (simp add: same_answers_def)

lemma background_flush_answers:
  "background_flush ag compr b rt = Ok (fr, rt') \<Longrightarrow> same_answers rt rt'"
  by (auto simp: background_flush_def same_answers_def bb_new_def rt_drop_def rt_broadcast_def Let_def
      split: prod.splits outcome.splits if_splits)

lemma inner_flush_answers: "inner_flush ag token (i, rt) = (r, i', rt') \<Longrightarrow> same_answers rt rt'"
  by (auto simp: inner_flush_def rt_drop_def same_answers_tasks dest: background_flush_answers
      split: if_splits option.splits outcome.splits FlushResult.splits prod.splits)

lemma inner_try_push_answers:
  assumes "inner_try_push ag data (i, rt) = (r, i', rt')"
  shows "same_answers rt rt'"
proof -
  consider "rt' = rt" | i1 r2 i2 where "inner_flush ag None (i1, rt) = (r2, i2, rt')"
    using assms by (auto simp: inner_try_push_def split: prod.splits outcome.splits TryPush.splits)
  then show ?thesis by cases (auto simp: same_answers_tasks dest: inner_flush_answers)
qed

lemma end_task_answers:
  "\<forall>a. st \<noteq> Answered a \<Longrightarrow> rt_tasks rt' = rt_tasks (end_task k st rt) \<Longrightarrow> same_answers rt rt'"
  by (cases "k < length (rt_tasks rt)") (auto simp: same_answers_def end_task_def set_conv_nth nth_list_update split: if_splits)

lemma quiet_step_answers:
  assumes "pstep ag (\<lambda>_ _ _. False) p p'"
  shows "same_answers (pw_runtime p) (pw_runtime p')"
  using assms
proof cases
  case (produce n data)
  obtain r i rt where push: "inner_try_push ag data (pw_inner p, pw_runtime p) = (r, i, rt)"
    by (cases "inner_try_push ag data (pw_inner p, pw_runtime p)") auto
  then have "pw_runtime p' = rt"
    by (simp add: produce(1) produce_call_def set_caller_def set_locked_def split: outcome.splits CallerRole.splits)
  with inner_try_push_answers [OF push] show ?thesis by simp
next
  case (linger n c token)
  obtain r i rt where fl: "inner_flush ag (Some token) (pw_inner p, pw_runtime p) = (r, i, rt)"
    by (cases "inner_flush ag (Some token) (pw_inner p, pw_runtime p)") auto
  then have "pw_runtime p' = rt" by (simp add: linger(1) linger_call_def set_caller_def set_locked_def)
  with inner_flush_answers [OF fl] show ?thesis by simp
next
  case (flush f)
  obtain r i rt where fl: "inner_flush ag None (pw_inner p, pw_runtime p) = (r, i, rt)"
    by (cases "inner_flush ag None (pw_inner p, pw_runtime p)") auto
  then have "pw_runtime p' = rt"
    by (simp add: flush(1) flush_call_def set_locked_def split: outcome.splits)
  with inner_flush_answers [OF fl] show ?thesis by simp
qed (auto intro: same_answers_tasks end_task_answers simp: set_caller_def producer_drop_def set_locked_def rt_drop_def
    task_dropped_def split: option.splits)

section \<open>The answers are positions in the log of the broker\<close>

definition at_position :: "'ts client_record list \<Rightarrow> 'ts client_record \<Rightarrow> i64 \<Rightarrow> bool" where
  "at_position xs r off \<longleftrightarrow> 0 \<le> sint off \<and> nat (sint off) < length xs \<and> xs ! nat (sint off) = r"

definition stored_answers :: "('ts client_record, 'd) runtime \<Rightarrow> 'ts client_record list \<Rightarrow> bool" where
  "stored_answers rt xs \<longleftrightarrow> (\<forall>t \<in> set (rt_tasks rt). \<forall>offs. ft_state t = Answered (Inr offs) \<longrightarrow>
     list_all2 (at_position xs) (ft_batch t) offs)"

lemma at_position_append: "at_position xs r off \<Longrightarrow> at_position (xs @ ys) r off"
  by (auto simp: at_position_def nth_append)

lemma stored_answers_append: "stored_answers rt xs \<Longrightarrow> stored_answers rt (xs @ ys)"
  unfolding stored_answers_def by (blast intro: list_all2_mono at_position_append)

lemma stored_answers_same: "stored_answers rt xs \<Longrightarrow> same_answers rt rt' \<Longrightarrow> stored_answers rt' xs"
  unfolding stored_answers_def same_answers_def by blast

text \<open>The offsets of the specification are positions.\<close>

lemma spec_produce_positions:
  assumes "length xs + length rs < 2 ^ 63"
  shows "list_all2 (at_position (xs @ rs)) rs (fst (spec_produce rs xs))"
proof (rule list_all2_all_nthI)
  fix i
  assume "i < length rs"
  moreover from this assms have "sint (of_nat (length xs + i) :: i64) = int (length xs + i)"
    by (intro sint_of_nat_i64) simp
  ultimately show "at_position (xs @ rs) (rs ! i) (fst (spec_produce rs xs) ! i)"
    by (simp add: at_position_def spec_produce_def nat_int_add)
qed (simp add: spec_produce_def)

lemma task_answered_tasks:
  assumes "task_answered k a rt = Ok rt'" and "t' \<in> set (rt_tasks rt')" and "k < length (rt_tasks rt)"
  shows "t' \<in> set (rt_tasks rt) \<or> t' = (rt_tasks rt ! k)\<lparr>ft_state := Answered a\<rparr>"
  using assms
  by (auto simp: task_answered_def rt_broadcast_def end_task_def Let_def set_conv_nth nth_list_update split: if_splits)

text \<open>The invariant of a run that began with \<open>xs0\<close> at the broker.\<close>

definition wire_inv :: "'ts::linorder chrono \<Rightarrow> ('ts \<Rightarrow> bool) \<Rightarrow> 'x connection \<Rightarrow> 'ts client_record list \<Rightarrow>
    'ts record_producer \<times> ('x connection, ('x, kept) wires) partition_world \<Rightarrow> bool" where
  "wire_inv C exact c xs0 = (\<lambda>(p, w). linked c w \<and>
     (\<exists>xs. holds C exact (peer_of w) xs \<and> prefix xs0 xs \<and> stored_answers (pw_runtime p) xs))"

lemma writable_produces:
  assumes "record_crates K" and "wf_ranges (co_version_ranges c)" and "2 ^ 16 \<le> co_max_message_size c"
    and "length (as_bytes (pcl_topic pcl)) < 2 ^ 15"
    and serves: "serves_log K room (pcl_topic pcl) (pcl_partition pcl) peer (co_transport c)" and w: "linked c w" and xs: "holds C exact (peer_of w) xs"
    and "writable": "writable K C exact c pcl w rs compr"
  shows "\<exists>w'. wire_produce K peer nw C pcl rs compr w = Some (Ok (fst (spec_produce rs xs)), w') \<and>
    linked c w' \<and> holds C exact (peer_of w') (xs @ rs) \<and> length xs + length rs < 2 ^ 63"
proof -
  from "writable" obtain request where request:
    "build_produce_request C (pcl_partition pcl) (pcl_topic pcl) rs compr = Ok request"
    "can_send c w Produce_type (\<lambda>v. write_ProduceRequest K v request)"
    by (auto simp: writable_def split: outcome.splits)
  have "length xs < 2 ^ 63" using xs contiguous_bound by (fastforce simp: holds_def)
  then have "sint (kb_next (peer_of w)) = int (length xs)"
    using xs by (simp add: holds_def sint_of_nat_i64)
  with "writable" have len: "length xs + length rs < 2 ^ 63" by (simp add: writable_def)
  have rs: "\<forall>r \<in> set rs. sendable_record exact r" "length rs < 2 ^ 31"
    using "writable" by (auto simp: writable_def)
  from produce_refines [OF assms(1) w assms(2) xs rs(1) request assms(4,3) rs(2) len serves, of nw] len show ?thesis
    by (simp add: wire_produce_def spec_produce_def)
qed

lemma written_inv:
  assumes "record_crates K" and "wf_ranges (co_version_ranges c)" and "2 ^ 16 \<le> co_max_message_size c"
    and "length (as_bytes (pcl_topic pcl)) < 2 ^ 15"
    and "serves_log K room (pcl_topic pcl) (pcl_partition pcl) peer (co_transport c)" and inv: "wire_inv C exact c xs0 (p, w)"
    and k: "k < length (rt_tasks (pw_runtime p))" "rt_tasks (pw_runtime p) ! k = t"
    and "writable": "writable K C exact c pcl w (ft_batch t) (ft_compression t)"
    and wire: "wire_produce K peer nw C pcl (ft_batch t) (ft_compression t) w = Some (Ok offs, w')"
    and rt: "task_answered k (Inr offs) (pw_runtime p) = Ok rt"
  shows "wire_inv C exact c xs0 (p\<lparr>pw_runtime := rt\<rparr>, w')"
proof -
  from inv obtain xs where w: "linked c w" and xs: "holds C exact (peer_of w) xs" "prefix xs0 xs"
    "stored_answers (pw_runtime p) xs"
    by (auto simp: wire_inv_def)
  from writable_produces [OF assms(1-5) w xs(1) "writable", of nw] wire
  have w': "linked c w'" "holds C exact (peer_of w') (xs @ ft_batch t)"
    and offs: "list_all2 (at_position (xs @ ft_batch t)) (ft_batch t) offs"
    by (auto intro: spec_produce_positions)
  have "stored_answers rt (xs @ ft_batch t)"
    unfolding stored_answers_def
  proof (intro ballI allI impI)
    fix t' offs'
    assume t': "t' \<in> set (rt_tasks rt)" "ft_state t' = Answered (Inr offs')"
    from task_answered_tasks [OF rt t'(1) k(1)] k(2) consider "t' \<in> set (rt_tasks (pw_runtime p))"
      | "t' = t\<lparr>ft_state := Answered (Inr offs)\<rparr>" by blast
    then show "list_all2 (at_position (xs @ ft_batch t)) (ft_batch t') offs'"
      using stored_answers_append [OF xs(3), of "ft_batch t"] t'(2) offs unfolding stored_answers_def by cases auto
  qed
  with w' xs(2) show ?thesis by (auto simp: wire_inv_def intro: prefix_prefix)
qed

lemma refused_inv:
  assumes "wire_inv C exact c xs0 (p, w)" and "linked c w'" and "peer_of w' = peer_of w"
    and "task_answered k (Inl e) (pw_runtime p) = Ok rt" and "k < length (rt_tasks (pw_runtime p))"
  shows "wire_inv C exact c xs0 (p\<lparr>pw_runtime := rt\<rparr>, w')"
proof -
  have "stored_answers rt xs" if "stored_answers (pw_runtime p) xs" for xs
    using that task_answered_tasks [OF assms(4) _ assms(5)] unfolding stored_answers_def by fastforce
  with assms(1-3) show ?thesis by (auto simp: wire_inv_def)
qed

lemma wstep_inv:
  assumes "record_crates K" and "wf_ranges (co_version_ranges c)" and "2 ^ 16 \<le> co_max_message_size c"
    and "length (as_bytes (pcl_topic pcl)) < 2 ^ 15"
    and "serves_log K room (pcl_topic pcl) (pcl_partition pcl) peer (co_transport c)"
    and "wstep K peer nw C exact c pcl s s'" and "wire_inv C exact c xs0 s"
  shows "wire_inv C exact c xs0 s'"
  using assms(6,7)
proof cases
  case (inside p p' w)
  with assms(7) quiet_step_answers [OF inside(3)] show ?thesis
    by (auto simp: wire_inv_def intro: stored_answers_same)
next
  case (written k p t w offs w' rt)
  with assms(7) show ?thesis using written_inv [OF assms(1-5)] by metis
next
  case (refused k p t w e w' rt)
  with assms(7) show ?thesis using refused_inv by metis
qed

text \<open>Without the connection these are steps of the producer.\<close>

lemma pstep_mono:
  assumes "pstep ag ans p p'" and "\<And>rs compr a. ans rs compr a \<Longrightarrow> ans' rs compr a"
  shows "pstep ag ans' p p'"
  using assms(1) by cases (auto intro: pstep.intros assms(2))

lemma wstep_pstep:
  assumes "wstep K peer nw C exact c pcl s s'"
  shows "pstep record_aggregator (partition_answers C (pcl_partition pcl) (pcl_topic pcl)) (fst s) (fst s')"
  using assms
proof cases
  case (inside p p' w)
  then show ?thesis by (auto intro: pstep_mono [of record_aggregator "\<lambda>_ _ _. False"])
next
  case (written k p t w offs w' rt)
  then have "partition_answers C (pcl_partition pcl) (pcl_topic pcl) (ft_batch t) (ft_compression t) (Inr offs)"
    using produce_Ok_result [of nw C pcl] by (auto simp: partition_answers_def wire_produce_def writable_def)
  with written show ?thesis by (auto intro: pstep.answered)
next
  case (refused k p t w e w' rt)
  have "partition_answers C (pcl_partition pcl) (pcl_topic pcl) (ft_batch t) (ft_compression t) (Inl e)"
    by (simp add: partition_answers_def)
  with refused show ?thesis by (auto intro: pstep.answered)
qed

lemma wire_reaches:
  assumes "record_crates K" and "wf_ranges (co_version_ranges c)" and "2 ^ 16 \<le> co_max_message_size c"
    and "length (as_bytes (pcl_topic pcl)) < 2 ^ 15"
    and "serves_log K room (pcl_topic pcl) (pcl_partition pcl) peer (co_transport c)" and "linked c w0" and "holds C exact (peer_of w0) xs0"
    and "(wstep K peer nw C exact c pcl)\<^sup>*\<^sup>* (producer_start (RecordAggregator_new limit) compr, w0) s"
  shows "wire_inv C exact c xs0 s \<and> producer_reaches C (pcl_partition pcl) (pcl_topic pcl) limit compr (fst s)"
  using assms(8)
proof (induction rule: rtranclp_induct)
  case base
  have "stored_answers (pw_runtime (producer_start (RecordAggregator_new limit) compr)) xs0"
    by (simp add: stored_answers_def producer_start_def ProducerInner_new_def bb_new_def Let_def)
  with assms(6,7) show ?case by (auto simp: wire_inv_def producer_reaches_def)
next
  case (step s s')
  with wstep_inv [OF assms(1-5) step.hyps(2)] wstep_pstep [OF step.hyps(2)] show ?case
    by (auto simp: producer_reaches_def)
qed

text \<open>A batch that can be written gets its answer.\<close>

lemma writable_step:
  assumes "record_crates K" and "wf_ranges (co_version_ranges c)" and "2 ^ 16 \<le> co_max_message_size c"
    and "length (as_bytes (pcl_topic pcl)) < 2 ^ 15"
    and "serves_log K room (pcl_topic pcl) (pcl_partition pcl) peer (co_transport c)" and "wire_inv C exact c xs0 (p, w)"
    and reach: "producer_reaches C (pcl_partition pcl) (pcl_topic pcl) limit compr p"
    and k: "k < length (rt_tasks (pw_runtime p))" "ft_state (rt_tasks (pw_runtime p) ! k) = Running"
    and "writable": "writable K C exact c pcl w (ft_batch (rt_tasks (pw_runtime p) ! k))
      (ft_compression (rt_tasks (pw_runtime p) ! k))"
  shows "\<exists>offs rt w'. wstep K peer nw C exact c pcl (p, w) (p\<lparr>pw_runtime := rt\<rparr>, w') \<and>
    ft_state (rt_tasks rt ! k) = Answered (Inr offs)"
proof -
  let ?t = "rt_tasks (pw_runtime p) ! k"
  from assms(6) obtain xs where "linked c w" "holds C exact (peer_of w) xs" by (auto simp: wire_inv_def)
  from writable_produces [OF assms(1-5) this "writable", of nw] obtain offs w' where
    wire: "wire_produce K peer nw C pcl (ft_batch ?t) (ft_compression ?t) w = Some (Ok offs, w')"
    by blast
  then have "partition_answers C (pcl_partition pcl) (pcl_topic pcl) (ft_batch ?t) (ft_compression ?t) (Inr offs)"
    using produce_Ok_result [of nw C pcl] "writable" by (auto simp: partition_answers_def wire_produce_def writable_def)
  moreover have "rp.tasks_inv C (pcl_partition pcl) (pcl_topic pcl) (pw_runtime p)"
    using rp.pinv_reachable [OF reach [unfolded producer_reaches_def] ra_start] by (simp add: rp.pinv_def)
  ultimately obtain rt where rt: "task_answered k (Inr offs) (pw_runtime p) = Ok rt"
    "rt_tasks rt = (rt_tasks (pw_runtime p))[k := ?t\<lparr>ft_state := Answered (Inr offs)\<rparr>]"
    using rp.task_answered_inv [OF _ k(1) refl k(2)] by metis
  from wstep.written [OF k(1) refl k(2) "writable" wire rt(1)] rt(2) k(1) show ?thesis
    by (intro exI [of _ offs] exI [of _ rt] exI [of _ w']) simp
qed

end
