(* ===== verification/Cluster.thy ===== *)
theory Cluster
  imports Log_Broker
begin

text \<open>
  The brokers that a client meets on its way to the leader of a partition.  The reference broker
  of theory \<open>Log_Broker\<close> becomes one of a cluster: all its brokers answer the requests for versions and
  metadata that the connector of \<open>src/src/connection.rs\<close> and the partition client of
  \<open>src/src/client/partition.rs\<close> make before the first request of a caller, and the leader answers
  those for the log.

  What is proved: the brokers read each of these requests as the client wrote it, what they answer is
  read back by the client, and the leader serves the log, so that the theorems of \<open>Log_Broker\<close> apply to
  a connection to it.
\<close>

section \<open>Metadata, as a broker reads and writes it\<close>

definition broker_MetadataRequestTopic :: "MetadataRequestTopic reader" where
  "broker_MetadataRequestTopic = rbind read_String (\<lambda>name. rret \<lparr>mrt_name = name\<rparr>)"

definition broker_MetadataRequest :: "ApiVersion \<Rightarrow> MetadataRequest reader" where
  "broker_MetadataRequest version =
     rbind (read_versioned_array broker_MetadataRequestTopic) (\<lambda>topics.
     rbind (rwhen (version_number version \<ge> 4) read_Boolean) (\<lambda>allow_auto_topic_creation.
     rret \<lparr>mrq_topics = topics, mrq_allow_auto_topic_creation = allow_auto_topic_creation\<rparr>))"

definition norm_MetadataRequest :: "ApiVersion \<Rightarrow> MetadataRequest \<Rightarrow> MetadataRequest" where
  "norm_MetadataRequest version r =
     r\<lparr>mrq_allow_auto_topic_creation := with_default (version_number version \<ge> 4) True
       (mrq_allow_auto_topic_creation r)\<rparr>"

lemma norm_codec_MetadataRequest:
  "norm_codec (broker_MetadataRequest v) (write_MetadataRequest v) (norm_MetadataRequest v)"
proof -
  have "norm_codec broker_MetadataRequestTopic (write_MetadataRequestTopic v) id"
    by (intro norm_codecI) (auto simp: broker_MetadataRequestTopic_def write_MetadataRequestTopic_def)
  note topics = versioned_array_roundtrip [OF this]
  show ?thesis
    by (intro norm_codecI) (auto simp: broker_MetadataRequest_def write_MetadataRequest_def
        norm_MetadataRequest_def Let_def topics option.map_id split: if_splits)
qed

definition broker_write_MetadataResponseBroker :: "ApiVersion \<Rightarrow> MetadataResponseBroker \<Rightarrow> vwres" where
  "broker_write_MetadataResponseBroker version r =
     wseq (vw (write_Int32 (mrb_node_id r)))
     (wseq (vw (write_String (mrb_host r)))
     (wseq (vw (write_Int32 (mrb_port r)))
     (wwhen (version_number version \<ge> 1) (write_or_default write_NullableString None (mrb_rack r)))))"

definition broker_write_MetadataResponsePartition :: "MetadataResponsePartition \<Rightarrow> vwres" where
  "broker_write_MetadataResponsePartition r =
     wseq (write_error_code (mrp_error r))
     (wseq (vw (write_Int32 (mrp_partition_index r)))
     (wseq (vw (write_Int32 (mrp_leader_id r)))
     (wseq (vw (write_Array write_Int32 (mrp_replica_nodes r)))
     (vw (write_Array write_Int32 (mrp_isr_nodes r))))))"

definition broker_write_MetadataResponseTopic :: "ApiVersion \<Rightarrow> MetadataResponseTopic \<Rightarrow> vwres" where
  "broker_write_MetadataResponseTopic version r =
     wseq (write_error_code (mst_error r))
     (wseq (vw (write_String (mst_name r)))
     (wseq (wwhen (version_number version \<ge> 1) (write_or_default write_Boolean False (mst_is_internal r)))
     (write_versioned_array broker_write_MetadataResponsePartition (Some (mst_partitions r)))))"

definition broker_write_MetadataResponse :: "ApiVersion \<Rightarrow> MetadataResponse \<Rightarrow> vwres" where
  "broker_write_MetadataResponse version r =
     (let v = version_number version in
     wseq (wwhen (v \<ge> 3) (write_or_default write_Int32 0 (msr_throttle_time_ms r)))
     (wseq (write_versioned_array (broker_write_MetadataResponseBroker version) (Some (msr_brokers r)))
     (wseq (wwhen (v \<ge> 2) (write_or_default write_NullableString None (msr_cluster_id r)))
     (wseq (wwhen (v \<ge> 1) (write_or_default write_Int32 (-1) (msr_controller_id r)))
     (write_versioned_array (broker_write_MetadataResponseTopic version) (Some (msr_topics r)))))))"

definition norm_metadata_broker :: "ApiVersion \<Rightarrow> MetadataResponseBroker \<Rightarrow> MetadataResponseBroker" where
  "norm_metadata_broker version r = r\<lparr>mrb_rack := with_default (version_number version \<ge> 1) None (mrb_rack r)\<rparr>"

definition norm_metadata_partition :: "MetadataResponsePartition \<Rightarrow> MetadataResponsePartition" where
  "norm_metadata_partition r = r\<lparr>mrp_error := norm_error (mrp_error r)\<rparr>"

definition norm_metadata_topic :: "ApiVersion \<Rightarrow> MetadataResponseTopic \<Rightarrow> MetadataResponseTopic" where
  "norm_metadata_topic version r =
     r\<lparr>mst_error := norm_error (mst_error r),
       mst_is_internal := with_default (version_number version \<ge> 1) False (mst_is_internal r),
       mst_partitions := map norm_metadata_partition (mst_partitions r)\<rparr>"

definition norm_MetadataResponse :: "ApiVersion \<Rightarrow> MetadataResponse \<Rightarrow> MetadataResponse" where
  "norm_MetadataResponse version r =
     (let v = version_number version in
      \<lparr>msr_throttle_time_ms = with_default (v \<ge> 3) 0 (msr_throttle_time_ms r),
       msr_brokers = map (norm_metadata_broker version) (msr_brokers r),
       msr_cluster_id = with_default (v \<ge> 2) None (msr_cluster_id r),
       msr_controller_id = with_default (v \<ge> 1) (-1) (msr_controller_id r),
       msr_topics = map (norm_metadata_topic version) (msr_topics r)\<rparr>)"

lemma int32_array_roundtrip:
  "write_Array write_Int32 x = Ok bs \<Longrightarrow> read_Array read_Int32 (bs @ rest, e) = Ok (x, (rest, e))"
  using norm_codec.roundtrip [OF norm_codec_Array [OF codec_is_norm [OF fixed_codecs(4)]]]
  by (fastforce simp: option.map_ident)

lemma norm_codec_MetadataResponse:
  assumes "version_number v \<le> 4"
  shows "norm_codec (read_MetadataResponse v) (broker_write_MetadataResponse v) (norm_MetadataResponse v)"
proof -
  have "norm_codec (read_MetadataResponseBroker v) (broker_write_MetadataResponseBroker v) (norm_metadata_broker v)"
    using assms by (intro norm_codecI) (auto simp: read_MetadataResponseBroker_def
        broker_write_MetadataResponseBroker_def norm_metadata_broker_def Let_def)
  note brokers = versioned_array_roundtrip [OF this]
  have "norm_codec (read_MetadataResponsePartition v) broker_write_MetadataResponsePartition norm_metadata_partition"
    using assms by (intro norm_codecI) (auto simp: read_MetadataResponsePartition_def
        broker_write_MetadataResponsePartition_def norm_metadata_partition_def Let_def int32_array_roundtrip)
  note part = versioned_array_roundtrip [OF this]
  have "norm_codec (read_MetadataResponseTopic v) (broker_write_MetadataResponseTopic v) (norm_metadata_topic v)"
    using assms by (intro norm_codecI) (auto simp: read_MetadataResponseTopic_def
        broker_write_MetadataResponseTopic_def norm_metadata_topic_def Let_def or_empty_def part)
  note topic = versioned_array_roundtrip [OF this]
  show ?thesis
    using assms by (intro norm_codecI) (auto simp: read_MetadataResponse_def broker_write_MetadataResponse_def
        norm_MetadataResponse_def Let_def or_empty_def brokers topic)
qed

section \<open>The brokers\<close>

text \<open>
  What the brokers agree on: who is at the other end of a transport, the versions they know, the
  brokers there are, and the leader of the partition.
\<close>

record 'x cluster =
  cl_node :: "'x \<Rightarrow> i32"
  cl_keys :: "ApiVersionsResponseApiKey list"
  cl_brokers :: "MetadataResponseBroker list"
  cl_leader :: i32

definition versions_answer :: "'x cluster \<Rightarrow> ApiVersionsResponse" where
  "versions_answer cl = \<lparr>avr_error_code = None, avr_api_keys = cl_keys cl, avr_throttle_time_ms = Some 0,
     avr_tagged_fields = Some []\<rparr>"

text \<open>The request header of version 3 has tagged fields at its end.\<close>

definition broker_ApiVersionsRequest :: "ApiVersion \<Rightarrow> ApiVersionsRequest reader" where
  "broker_ApiVersionsRequest version =
     rbind (rwhen (version_number version \<ge> 3) read_TaggedFields) (\<lambda>_. read_ApiVersionsRequest version)"

text \<open>The partition is the only one; other topics are not known.\<close>

definition metadata_topic :: "'x cluster \<Rightarrow> rstring \<Rightarrow> i32 \<Rightarrow> rstring \<Rightarrow> MetadataResponseTopic" where
  "metadata_topic cl topic part name =
     (if name = topic
      then \<lparr>mst_error = None, mst_name = topic, mst_is_internal = Some False, mst_partitions =
        [\<lparr>mrp_error = None, mrp_partition_index = part, mrp_leader_id = cl_leader cl,
          mrp_replica_nodes = Some [cl_leader cl], mrp_isr_nodes = Some [cl_leader cl]\<rparr>]\<rparr>
      else \<lparr>mst_error = Some UnknownTopicOrPartition, mst_name = name, mst_is_internal = Some False,
        mst_partitions = []\<rparr>)"

definition metadata_answer :: "'x cluster \<Rightarrow> rstring \<Rightarrow> i32 \<Rightarrow> rstring list option \<Rightarrow> MetadataResponse" where
  "metadata_answer cl topic part names =
     \<lparr>msr_throttle_time_ms = Some 0, msr_brokers = cl_brokers cl, msr_cluster_id = Some None,
      msr_controller_id = Some (cl_leader cl),
      msr_topics = map (metadata_topic cl topic part) (case names of Some ns \<Rightarrow> ns | None \<Rightarrow> [topic])\<rparr>"

definition cluster_peer :: "crates \<Rightarrow> room \<Rightarrow> 'x cluster \<Rightarrow> rstring \<Rightarrow> i32 \<Rightarrow> ('x, kept) peer" where
  "cluster_peer K room cl topic part x bytes k =
     (case read_message (2 ^ 31) (bytes, None) of
        Some (Ok msg, ([], _)) \<Rightarrow>
          (case read_RequestHeader (ApiVersion 1) (msg, None) of
             Ok (h, (body, _)) \<Rightarrow>
               let v = request_api_version h; cid = rqh_correlation_id h
               in (case request_api_key h of
                     ApiVersions \<Rightarrow> respond cid (broker_ApiVersionsRequest v)
                       (\<lambda>_ k. Some (versions_answer cl, k)) (write_ApiVersionsResponse v) body k
                   | Metadata \<Rightarrow> respond cid (broker_MetadataRequest v)
                       (\<lambda>r k. Some (metadata_answer cl topic part (map_option (map mrt_name) (mrq_topics r)), k))
                       (broker_write_MetadataResponse v) body k
                   | _ \<Rightarrow>
                       if cl_node cl x = cl_leader cl then log_peer K room topic part x bytes k else ([], k))
           | _ \<Rightarrow> ([], k))
      | _ \<Rightarrow> ([], k))"

section \<open>The brokers get what the client sends\<close>

lemma no_tagged_fields_written: "write_TaggedFields [] = Ok [0]"
  by (simp add: write_TaggedFields_def u64_try_from_usize_def write_uvarint_small)

lemma write_tagged_header:
  assumes "write_RequestHeader (ApiVersion 2) h = Ok bs" and "rqh_tagged_fields h = Some []"
  shows "\<exists>bs1. write_RequestHeader (ApiVersion 1) h = Ok bs1 \<and> bs = bs1 @ [0]"
  using assms by (auto simp: write_RequestHeader_def no_tagged_fields_written write_or_default_def [of write_TaggedFields])

text \<open>A request as the broker takes it apart, with the tagged fields of its header in front of its body.\<close>

lemma request_at_broker:
  assumes "encode_request client rt msg v cid = Ok buf" and "length buf < 2 ^ 31"
  obtains body where "msg v = Ok body" "read_message (2 ^ 31) (frame_bytes buf, None) = Some (Ok buf, ([], None))"
    "read_RequestHeader (ApiVersion 1) (buf, None) =
      Ok (\<lparr>request_api_key = ApiKey_from_Int16 (Int16_from_ApiKey (API_KEY rt)), request_api_version = v,
           rqh_correlation_id = cid, client_id = Some (Some client), rqh_tagged_fields = None\<rparr>,
         ((if use_tagged_fields_in_request rt v then [0] else []) @ body, None))"
proof -
  from assms(1) obtain h body where h: "buf = h @ body" "msg v = Ok body"
    "write_RequestHeader (header_version_of rt v) (request_header_of client rt v cid) = Ok h"
    by (auto simp: encode_request_def split: outcome.splits)
  let ?t = "if use_tagged_fields_in_request rt v then [0] else [] :: u8 list"
  have "rqh_tagged_fields (request_header_of client rt v cid) = Some []" by (simp add: request_header_of_def)
  with h(3) write_tagged_header [of "request_header_of client rt v cid" h]
  have "\<exists>h1. write_RequestHeader (ApiVersion 1) (request_header_of client rt v cid) = Ok h1 \<and> h = h1 @ ?t"
    unfolding header_version_of_def by (cases "use_tagged_fields_in_request rt v") simp_all
  then obtain h1 where h1: "write_RequestHeader (ApiVersion 1) (request_header_of client rt v cid) = Ok h1"
    "h = h1 @ ?t" by blast
  from request_header.roundtrip [OF h1(1), of "?t @ body" None] have
    "read_RequestHeader (ApiVersion 1) (h1 @ ?t @ body, None) =
      Ok (\<lparr>request_api_key = ApiKey_from_Int16 (Int16_from_ApiKey (API_KEY rt)), request_api_version = v,
           rqh_correlation_id = cid, client_id = Some (Some client), rqh_tagged_fields = None\<rparr>, (?t @ body, None))"
    by (simp add: norm_RequestHeader_def request_header_of_def)
  moreover have "read_message (2 ^ 31) (frame_bytes buf, None) = Some (Ok buf, ([], None))"
    using read_message_frame [OF assms(2), of "2 ^ 31" "[]" None] assms(2) by simp
  ultimately show thesis using that h(1,2) h1(2) by simp
qed

lemma cluster_serves_log:
  assumes "cl_node cl x = cl_leader cl"
  shows "serves_log K room topic part (cluster_peer K room cl topic part) x"
  unfolding serves_log_def
proof (intro allI impI)
  fix rt client msg v cid buf k
  assume rt: "rt \<in> {Produce_type, Fetch_type, ListOffsets_type}" and "\<not> use_tagged_fields_in_request rt v"
    and buf: "encode_request client rt msg v cid = Ok buf" "length buf < 2 ^ 31"
  have "ApiKey_from_Int16 (Int16_from_ApiKey (API_KEY rt)) \<in> {Produce, Fetch, ListOffsets}"
    using rt by (auto simp: Produce_type_def Fetch_type_def ListOffsets_type_def ApiKey_from_Int16_def)
  moreover obtain body where "read_message (2 ^ 31) (frame_bytes buf, None) = Some (Ok buf, ([], None))"
    "read_RequestHeader (ApiVersion 1) (buf, None) =
      Ok (\<lparr>request_api_key = ApiKey_from_Int16 (Int16_from_ApiKey (API_KEY rt)), request_api_version = v,
           rqh_correlation_id = cid, client_id = Some (Some client), rqh_tagged_fields = None\<rparr>,
         ((if use_tagged_fields_in_request rt v then [0] else []) @ body, None))"
    by (rule request_at_broker [OF buf])
  ultimately show "cluster_peer K room cl topic part x (frame_bytes buf) k = log_peer K room topic part x (frame_bytes buf) k"
    using assms by (elim insertE) (simp_all add: cluster_peer_def Let_def)
qed

lemma versions_at_broker:
  assumes "encode_request client ApiVersions_type (\<lambda>v. write_ApiVersionsRequest v msg) v cid = Ok buf"
    and "length buf < 2 ^ 31" and "write_ApiVersionsResponse v (versions_answer cl) = Ok data"
  shows "cluster_peer K room cl topic part x (frame_bytes buf) k = (frame_bytes (response_message cid data), k)"
proof -
  have key: "ApiKey_from_Int16 (Int16_from_ApiKey (API_KEY ApiVersions_type)) = ApiVersions"
    by (simp add: ApiVersions_type_def ApiKey_from_Int16_def)
  obtain body where body: "write_ApiVersionsRequest v msg = Ok body"
    "read_message (2 ^ 31) (frame_bytes buf, None) = Some (Ok buf, ([], None))"
    "read_RequestHeader (ApiVersion 1) (buf, None) =
      Ok (\<lparr>request_api_key = ApiVersions, request_api_version = v,
           rqh_correlation_id = cid, client_id = Some (Some client), rqh_tagged_fields = None\<rparr>,
         ((if use_tagged_fields_in_request ApiVersions_type v then [0] else []) @ body, None))"
    by (rule request_at_broker [OF assms(1,2), unfolded key])
  have tagged: "use_tagged_fields_in_request ApiVersions_type v \<longleftrightarrow> version_number v \<ge> 3"
    by (cases v) (auto simp: use_tagged_fields_in_request_def ApiVersions_type_def less_eq_ApiVersion_def word_sle_eq)
  have "read_TaggedFields (0 # body, None) = Ok ([], (body, None))"
    using codec_roundtrip [OF codec_TaggedFields, of "[]" "[0]" body None]
    by (simp add: write_TaggedFields_def u64_try_from_usize_def write_uvarint_small)
  then have "broker_ApiVersionsRequest v ((if use_tagged_fields_in_request ApiVersions_type v then [0] else []) @ body, None) =
      Ok (norm_ApiVersionsRequest v msg, ([], None))"
    using whole_roundtrip [OF norm_codec_ApiVersionsRequest body(1)]
    by (simp add: broker_ApiVersionsRequest_def tagged)
  with body(2,3) assms(3) show ?thesis by (simp add: cluster_peer_def respond_Ok)
qed

lemma metadata_at_broker:
  assumes "encode_request client Metadata_type (\<lambda>v. write_MetadataRequest v (metadata_request (Some [topic]))) v cid = Ok buf"
    and "length buf < 2 ^ 31" and "\<not> use_tagged_fields_in_request Metadata_type v"
    and "broker_write_MetadataResponse v (metadata_answer cl topic part (Some [topic])) = Ok data"
  shows "cluster_peer K room cl topic part x (frame_bytes buf) k = (frame_bytes (response_message cid data), k)"
proof -
  have key: "ApiKey_from_Int16 (Int16_from_ApiKey (API_KEY Metadata_type)) = Metadata"
    by (simp add: Metadata_type_def ApiKey_from_Int16_def)
  obtain body where body: "write_MetadataRequest v (metadata_request (Some [topic])) = Ok body"
    "read_message (2 ^ 31) (frame_bytes buf, None) = Some (Ok buf, ([], None))"
    "read_RequestHeader (ApiVersion 1) (buf, None) =
      Ok (\<lparr>request_api_key = Metadata, request_api_version = v,
           rqh_correlation_id = cid, client_id = Some (Some client), rqh_tagged_fields = None\<rparr>,
         ((if use_tagged_fields_in_request Metadata_type v then [0] else []) @ body, None))"
    by (rule request_at_broker [OF assms(1,2), unfolded key])
  have "broker_MetadataRequest v (body, None) = Ok (norm_MetadataRequest v (metadata_request (Some [topic])), ([], None))"
    by (rule whole_roundtrip [OF norm_codec_MetadataRequest body(1)])
  with body(2,3) assms(3,4) show ?thesis
    by (simp add: cluster_peer_def respond_Ok norm_MetadataRequest_def metadata_request_def)
qed

end
