(* ===== verification/Discovery.thy ===== *)
theory Discovery
  imports Cluster
begin

text \<open>
  The first connections of a client.  The requests that \<open>sync_versions\<close> of \<open>src/src/messenger.rs\<close>,
  \<open>request_metadata\<close> of \<open>src/src/connection.rs\<close> and \<open>get_leader\<close> of \<open>src/src/client/partition.rs\<close> make
  are answered by the brokers of theory \<open>Cluster\<close>, over the bytes of their connections.

  What is proved, step by step: a connection that is established has the version ranges of the
  brokers; a metadata request over it returns what the brokers know; and \<open>PartitionClient::new\<close> on a
  new connector ends with a connection to the leader.
\<close>

section \<open>Requests of the connector that are answered\<close>

text \<open>Nothing is going on on any connection.\<close>

definition idle :: "rstring \<Rightarrow> ('c, ('x, 'p) wires) connector \<Rightarrow> bool" where
  "idle client s \<longleftrightarrow> (\<forall>x. ready (wi_messengers (cn_env s) x) \<and> m_client_id (wi_messengers (cn_env s) x) = client)"

text \<open>Such a request changes the environment only, and the brokers stay as they were.\<close>

definition settles :: "rstring \<Rightarrow> ('c, ('x, 'p) wires) connector \<Rightarrow> ('x, 'p) wires \<Rightarrow> bool" where
  "settles client s e \<longleftrightarrow> idle client (s\<lparr>cn_env := e\<rparr>) \<and> wi_peer e = wi_peer (cn_env s)"

lemma idle_fields [simp]:
  "idle client (s\<lparr>cn_topology := t\<rparr>) = idle client s"
  "idle client (s\<lparr>cn_cached_metadata := m\<rparr>) = idle client s"
  "idle client (s\<lparr>cn_cached_arbitrary_broker := a\<rparr>) = idle client s"
  by (simp_all add: idle_def)

lemma wire_request_answered:
  assumes "idle (co_client_id c) s" and "choose_version rt (co_version_ranges c) = Ok v"
    and "\<not> use_tagged_fields_in_response rt v"
    and "\<And>cid. \<exists>buf. encode_request (co_client_id c) rt (\<lambda>v. wr v msg) v cid = Ok buf \<and> length buf < 2 ^ 31"
    and "\<And>cid buf k. encode_request (co_client_id c) rt (\<lambda>v. wr v msg) v cid = Ok buf \<Longrightarrow> length buf < 2 ^ 31 \<Longrightarrow>
      peer (co_transport c) (frame_bytes buf) k = (frame_bytes (response_message cid data), k)"
    and "4 + length data \<le> co_max_message_size c" and "4 + length data < 2 ^ 31"
    and "rd v (data, None) = Ok (x, ([], None))"
  shows "\<exists>e. wire_request peer rt wr rd c msg s = (Ok x, s\<lparr>cn_env := e\<rparr>) \<and> settles (co_client_id c) s e"
proof -
  let ?m = "wi_messengers (cn_env s) (co_transport c)" and ?p = "wi_peer (cn_env s)"
  from assms(1) have m: "ready ?m" "m_client_id ?m = co_client_id c" by (simp_all add: idle_def)
  obtain buf where buf: "encode_request (co_client_id c) rt (\<lambda>v. wr v msg) v (next_id ?m) = Ok buf" "length buf < 2 ^ 31"
    using assms(4) by blast
  from request_answered [of ?m rt "co_version_ranges c" v "\<lambda>v. wr v msg" buf "peer (co_transport c)" ?p data ?p
      "co_max_message_size c" rd x] m buf assms(2,3,6-8) assms(5) [OF buf]
  obtain m' where m': "request_with_version_ranges (co_max_message_size c) (peer (co_transport c))
      (co_version_ranges c) rt (\<lambda>v. wr v msg) rd (?m, ?p) = (Ok x, m', ?p)" "ready m'" "m_client_id m' = co_client_id c"
    by metis
  let ?e = "\<lparr>wi_messengers = (wi_messengers (cn_env s))(co_transport c := m'), wi_peer = ?p\<rparr>"
  have "wire_request peer rt wr rd c msg s = (Ok x, s\<lparr>cn_env := ?e\<rparr>)"
    using m'(1) by (simp add: wire_request_def Let_def)
  moreover have "settles (co_client_id c) s ?e"
    using assms(1) m'(2,3) by (simp add: settles_def idle_def)
  ultimately show ?thesis by blast
qed

section \<open>Requests that fit a frame\<close>

lemma encode_short:
  assumes "length (as_bytes client) < 2 ^ 15" and "msg v = Ok body" and "length body < 2 ^ 30"
  shows "\<exists>buf. encode_request client rt msg v cid = Ok buf \<and> length buf < 2 ^ 31"
proof -
  have "\<exists>h. write_RequestHeader (header_version_of rt v) (request_header_of client rt v cid) = Ok h \<and>
      length h \<le> length (as_bytes client) + 11"
    using assms(1)
    by (simp add: header_version_of_def write_RequestHeader_def request_header_of_def write_or_default_def
        write_NullableString_def write_Int16_def write_Int32_def i16_try_from_usize_def vw_def Let_def
        no_tagged_fields_written)
  then obtain h where "write_RequestHeader (header_version_of rt v) (request_header_of client rt v cid) = Ok h"
    "length h \<le> length (as_bytes client) + 11" by blast
  with assms show ?thesis by (simp add: encode_request_def)
qed

lemma sync_body_written: "\<exists>body. write_ApiVersionsRequest (ApiVersion 3) sync_body = Ok body \<and> length body < 2 ^ 30"
proof -
  have "as_bytes (str ''rskafka'') = ascii_bytes ''rskafka''" "as_bytes (str ''0.5.0'') = ascii_bytes ''0.5.0''"
    by (simp_all add: as_bytes_str ascii_bytes_def)
  then show ?thesis
    by (simp add: write_ApiVersionsRequest_def sync_body_def write_or_default_def write_CompactString_def
      write_CompactStringRef_def u64_try_from_usize_def write_uvarint_small ascii_bytes_def no_tagged_fields_written vw_def)
qed

lemma metadata_version:
  assumes "choose_version Metadata_type ranges = Ok v" and "wf_ranges ranges"
  shows "version_number v \<le> 4" "\<not> use_tagged_fields_in_request Metadata_type v"
    "\<not> use_tagged_fields_in_response Metadata_type v"
proof -
  have "wf_type Metadata_type"
    by (simp add: wf_type_def Metadata_type_def version_range_def less_eq_ApiVersion_def)
  from choose_version_in_range(1) [OF assms(1) this assms(2)]
  show "version_number v \<le> 4" "\<not> use_tagged_fields_in_request Metadata_type v"
    "\<not> use_tagged_fields_in_response Metadata_type v"
    by (auto simp: use_tagged_fields_in_request_def use_tagged_fields_in_response_def Metadata_type_def
        less_eq_ApiVersion_def)
qed

lemma metadata_request_written:
  assumes "version_number v \<le> 4" and "length (as_bytes topic) < 2 ^ 15"
  shows "\<exists>body. write_MetadataRequest v (metadata_request (Some [topic])) = Ok body \<and> length body < 2 ^ 30"
  using assms
  by (cases "4 \<le> version_number v")
    (simp_all add: write_MetadataRequest_def metadata_request_def write_versioned_array_def write_MetadataRequestTopic_def
      write_String_short write_Int32_def vw_def Let_def i32_try_from_usize_def wwhen_def write_or_default_def write_Boolean_def)

section \<open>Establishing a connection\<close>

text \<open>The version ranges that a client makes of what the brokers know.\<close>

definition offers :: "'x cluster \<Rightarrow> version_ranges \<Rightarrow> bool" where
  "offers cl ranges \<longleftrightarrow>
     (let keys = map (norm_ApiVersionsResponseApiKey (ApiVersion 3)) (cl_keys cl)
      in find is_flipped keys = None \<and> collect_ranges Map.empty keys = Ok ranges)"

text \<open>An answer that can be written, and that a client with this limit takes.\<close>

definition fits :: "usize \<Rightarrow> vwres \<Rightarrow> bool" where
  "fits limit r \<longleftrightarrow> (\<exists>data. r = Ok data \<and> 4 + length data \<le> limit \<and> 4 + length data < 2 ^ 31)"

lemma versions_decided:
  assumes "offers cl ranges"
  shows "sync_decide (Ok (norm_ApiVersionsResponse (ApiVersion 3) (versions_answer cl))) = SyncReturn (Ok ranges)"
proof -
  have "canonical_error None" by (simp add: canonical_error_def)
  with assms show ?thesis
    by (simp add: norm_ApiVersionsResponse_def versions_answer_def offers_def Let_def maybe_throttle_cases)
qed

lemma versions_answered:
  assumes "idle (co_client_id c) s" and "length (as_bytes (co_client_id c)) < 2 ^ 15"
    and "fits (co_max_message_size c) (write_ApiVersionsResponse (ApiVersion 3) (versions_answer cl))"
  shows "\<exists>e. wire_request (cluster_peer K room cl topic part) ApiVersions_type write_ApiVersionsRequest
      read_ApiVersionsResponse (c\<lparr>co_version_ranges := sync_ranges 3\<rparr>) sync_body s =
    (Ok (norm_ApiVersionsResponse (ApiVersion 3) (versions_answer cl)), s\<lparr>cn_env := e\<rparr>) \<and> settles (co_client_id c) s e"
proof -
  obtain data where data: "write_ApiVersionsResponse (ApiVersion 3) (versions_answer cl) = Ok data"
    "4 + length data \<le> co_max_message_size c" "4 + length data < 2 ^ 31"
    using assms(3) by (auto simp: fits_def)
  obtain body where body: "write_ApiVersionsRequest (ApiVersion 3) sync_body = Ok body" "length body < 2 ^ 30"
    using sync_body_written by blast
  let ?c = "c\<lparr>co_version_ranges := sync_ranges 3\<rparr>"
  have "\<exists>e. wire_request (cluster_peer K room cl topic part) ApiVersions_type write_ApiVersionsRequest
      read_ApiVersionsResponse ?c sync_body s =
    (Ok (norm_ApiVersionsResponse (ApiVersion 3) (versions_answer cl)), s\<lparr>cn_env := e\<rparr>) \<and> settles (co_client_id ?c) s e"
  proof (rule wire_request_answered [where v = "ApiVersion 3" and data = data])
    show "choose_version ApiVersions_type (co_version_ranges ?c) = Ok (ApiVersion 3)"
      by (simp add: choose_version_def sync_ranges_def ApiVersions_type_def match_versions_def version_range_def
          less_eq_ApiVersion_def min_def)
    show "\<not> use_tagged_fields_in_response ApiVersions_type (ApiVersion 3)"
      by (simp add: use_tagged_fields_in_response_def ApiVersions_type_def less_eq_ApiVersion_def)
    show "\<exists>buf. encode_request (co_client_id ?c) ApiVersions_type (\<lambda>v. write_ApiVersionsRequest v sync_body)
        (ApiVersion 3) cid = Ok buf \<and> length buf < 2 ^ 31" for cid
      using encode_short [where msg = "\<lambda>v. write_ApiVersionsRequest v sync_body", OF _ body] assms(2) by simp
    show "cluster_peer K room cl topic part (co_transport ?c) (frame_bytes buf) k =
        (frame_bytes (response_message cid data), k)"
      if "encode_request (co_client_id ?c) ApiVersions_type (\<lambda>v. write_ApiVersionsRequest v sync_body)
        (ApiVersion 3) cid = Ok buf" "length buf < 2 ^ 31" for cid buf k
      by (rule versions_at_broker [OF that data(1)])
    show "read_ApiVersionsResponse (ApiVersion 3) (data, None) =
        Ok (norm_ApiVersionsResponse (ApiVersion 3) (versions_answer cl), ([], None))"
      by (rule whole_roundtrip [OF norm_codec_ApiVersionsResponse data(1)])
  qed (use assms(1) data(2,3) in simp_all)
  then show ?thesis by simp
qed

lemma first_sync_bound: "\<exists>rest. sync_bounds = 3 # rest"
  by (simp add: sync_bounds_def ApiVersions_type_def version_range_def upto.simps)

lemma sync_run_returns:
  assumes "request sync_body (sync_ranges b) w = (answer, w1)" and "sync_decide answer = SyncReturn r"
  shows "sync_run request sleep (b # bounds) w = Some (r, w1)"
  using assms by (subst sync_run.simps) simp

lemma establish_at_cluster:
  assumes "idle (st_client_id settings) s" and "length (as_bytes (st_client_id settings)) < 2 ^ 15"
    and "transport_connect lib (representation_url broker) (st_tls_config settings) (st_socks5_proxy settings) s = (Ok x, s)"
    and "st_sasl_config settings = None" and "offers cl ranges"
    and "fits (st_max_message_size settings) (write_ApiVersionsResponse (ApiVersion 3) (versions_answer cl))"
  shows "\<exists>e. establish lib rs (wire_link (cluster_peer K room cl topic part) sleep) settings broker s =
    Some (Ok \<lparr>co_transport = x, co_max_message_size = st_max_message_size settings,
      co_client_id = st_client_id settings, co_version_ranges = ranges\<rparr>, s\<lparr>cn_env := e\<rparr>) \<and>
    settles (st_client_id settings) s e"
proof -
  let ?c = "\<lparr>co_transport = x, co_max_message_size = st_max_message_size settings,
    co_client_id = st_client_id settings, co_version_ranges = Map.empty\<rparr>"
  let ?lk = "wire_link (cluster_peer K room cl topic part) sleep"
  obtain e where e: "lk_versions ?lk ?c sync_body (sync_ranges 3) s =
      (Ok (norm_ApiVersionsResponse (ApiVersion 3) (versions_answer cl)), s\<lparr>cn_env := e\<rparr>)"
    "settles (st_client_id settings) s e"
    using versions_answered [of ?c s cl K room topic part] assms(1,2,6) by (auto simp: wire_link_def)
  obtain rest where bounds: "sync_bounds = 3 # rest" using first_sync_bound by blast
  have "sync_run (lk_versions ?lk ?c) (lk_sleep ?lk) sync_bounds s = Some (Ok ranges, s\<lparr>cn_env := e\<rparr>)"
    unfolding bounds
    by (rule sync_run_returns [where request = "lk_versions ?lk ?c", OF e(1) versions_decided [OF assms(5)]])
  with assms(3,4) e(2) show ?thesis by (intro exI [of _ e]) (simp add: establish_def Let_def log_in_def)
qed

section \<open>Metadata\<close>

lemma metadata_answered:
  assumes "idle (co_client_id c) s" and "length (as_bytes (co_client_id c)) < 2 ^ 15"
    and "wf_ranges (co_version_ranges c)" and "choose_version Metadata_type (co_version_ranges c) = Ok v"
    and "length (as_bytes topic) < 2 ^ 15"
    and "fits (co_max_message_size c) (broker_write_MetadataResponse v (metadata_answer cl topic part (Some [topic])))"
  shows "\<exists>e. wire_request (cluster_peer K room cl topic part) Metadata_type write_MetadataRequest read_MetadataResponse
      c (metadata_request (Some [topic])) s =
    (Ok (norm_MetadataResponse v (metadata_answer cl topic part (Some [topic]))), s\<lparr>cn_env := e\<rparr>) \<and>
    settles (co_client_id c) s e"
proof -
  obtain data where data: "broker_write_MetadataResponse v (metadata_answer cl topic part (Some [topic])) = Ok data"
    "4 + length data \<le> co_max_message_size c" "4 + length data < 2 ^ 31"
    using assms(6) by (auto simp: fits_def)
  note v = metadata_version [OF assms(4,3)]
  obtain body where body: "write_MetadataRequest v (metadata_request (Some [topic])) = Ok body" "length body < 2 ^ 30"
    using metadata_request_written [OF v(1) assms(5)] by blast
  show ?thesis
  proof (rule wire_request_answered [where v = v and data = data])
    show "\<exists>buf. encode_request (co_client_id c) Metadata_type
        (\<lambda>v. write_MetadataRequest v (metadata_request (Some [topic]))) v cid = Ok buf \<and> length buf < 2 ^ 31" for cid
      by (rule encode_short [where msg = "\<lambda>v. write_MetadataRequest v (metadata_request (Some [topic]))", OF assms(2) body])
    show "cluster_peer K room cl topic part (co_transport c) (frame_bytes buf) k =
        (frame_bytes (response_message cid data), k)"
      if "encode_request (co_client_id c) Metadata_type
        (\<lambda>v. write_MetadataRequest v (metadata_request (Some [topic]))) v cid = Ok buf" "length buf < 2 ^ 31" for cid buf k
      by (rule metadata_at_broker [OF that v(2) data(1)])
    show "read_MetadataResponse v (data, None) =
        Ok (norm_MetadataResponse v (metadata_answer cl topic part (Some [topic])), ([], None))"
      by (rule whole_roundtrip [OF norm_codec_MetadataResponse [OF v(1)] data(1)])
  qed (use assms(1,4) v(3) data(2,3) in simp_all)
qed

text \<open>What the client makes of the answer: the leader, and the brokers.\<close>

lemma answered_leader:
  "cl_leader cl \<noteq> -1 \<Longrightarrow>
    leader_of topic part (norm_MetadataResponse v (metadata_answer cl topic part (Some [topic]))) = Ok (cl_leader cl)"
proof -
  have "canonical_error None" by (simp add: canonical_error_def)
  then show "cl_leader cl \<noteq> -1 \<Longrightarrow>
      leader_of topic part (norm_MetadataResponse v (metadata_answer cl topic part (Some [topic]))) = Ok (cl_leader cl)"
    by (simp add: leader_of_def norm_MetadataResponse_def metadata_answer_def metadata_topic_def norm_metadata_topic_def
        norm_metadata_partition_def only_one_def exactly_one_def Let_def)
qed

lemma answered_throttle:
  "msr_throttle_time_ms (norm_MetadataResponse v (metadata_answer cl topic part names)) = None \<or>
   msr_throttle_time_ms (norm_MetadataResponse v (metadata_answer cl topic part names)) = Some 0"
  by (simp add: norm_MetadataResponse_def metadata_answer_def Let_def with_default_def)

lemma find_map: "find P (map f xs) = map_option f (find (\<lambda>x. P (f x)) xs)"
  by (induction xs) auto

lemma answered_brokers:
  assumes "topology_inv t" and "find (\<lambda>b. mrb_node_id b = k) (rev (cl_brokers cl)) = Some b"
  shows "get_broker (topology_update t (msr_brokers (norm_MetadataResponse v (metadata_answer cl topic part names)))) k =
    Some (broker_from b)"
proof -
  let ?bs = "map (norm_metadata_broker v) (cl_brokers cl)"
  have "mrb_node_id (norm_metadata_broker v b) = mrb_node_id b" "broker_from (norm_metadata_broker v b) = broker_from b" for b
    by (simp_all add: norm_metadata_broker_def broker_from_def)
  with assms(2) have "map_option broker_from (find (\<lambda>b. mrb_node_id b = k) (rev ?bs)) = Some (broker_from b)"
    by (simp add: rev_map find_map)
  then have "map_of (rev (map (\<lambda>b. (mrb_node_id b, broker_from b)) ?bs)) k = Some (broker_from b)"
    by (simp only: map_of_find)
  then have "map_of (topology_update t ?bs) k = Some (broker_from b)"
    unfolding topology_update_map [OF assms(1), of ?bs, THEN conjunct2] by (rule map_add_find_right)
  then show ?thesis by (simp add: get_broker_def norm_MetadataResponse_def metadata_answer_def Let_def)
qed

section \<open>Finding the leader\<close>

lemma request_metadata_first:
  assumes "mc_response (cn_cached_metadata s) = None" and "metadata_broker nw mode s = Some (Ok (c, gen), s1)"
    and "nw_metadata nw c (metadata_request (Some topics)) s1 = (Ok response, s2)"
    and "msr_throttle_time_ms response = None \<or> msr_throttle_time_ms response = Some 0"
  shows "request_metadata nw mode (Some topics) s =
    Some (Ok (response, None), s2\<lparr>cn_topology := topology_update (cn_topology s2) (msr_brokers response)\<rparr>)"
proof -
  have "maybe_throttle (msr_throttle_time_ms response) = (Ok () :: (request_error ErrorOrThrottle, unit) outcome)"
    using assms(4) by (auto simp: maybe_throttle_cases)
  with assms(2,3) have "metadata_attempt nw mode (metadata_request (Some topics)) s = Some (Inr (Break (Inr response)), s2)"
    by (simp add: metadata_attempt_def)
  then have "metadata_request_with_retry nw mode (metadata_request (Some topics)) b s = Some (Ok response, s2)" for b
    unfolding metadata_request_with_retry_def by (subst retry_with_backoff.simps) simp
  moreover have "remember_response (metadata_request (Some topics)) response s2 =
      s2\<lparr>cn_topology := topology_update (cn_topology s2) (msr_brokers response)\<rparr>"
    by (simp add: metadata_request_def remember_response_def)
  ultimately show ?thesis
    using assms(1) by (cases "mode = CachedArbitrary")
      (simp_all add: request_metadata_def metadata_get_def)
qed

lemma get_leader_first:
  assumes "mc_response (cn_cached_metadata s) = None" and "metadata_broker nw mode s = Some (Ok (c, gen), s1)"
    and "nw_metadata nw c (metadata_request (Some [topic])) s1 = (Ok response, s2)"
    and "msr_throttle_time_ms response = None \<or> msr_throttle_time_ms response = Some 0"
    and "leader_of topic part response = Ok leader"
  shows "get_leader nw topic part mode s =
    Some (Ok (leader, None), s2\<lparr>cn_topology := topology_update (cn_topology s2) (msr_brokers response)\<rparr>)"
  using request_metadata_first [OF assms(1-4)] assms(5) by (simp add: get_leader_def)

text \<open>The first broker that a round tries, when it can be connected to.\<close>

lemma arbitrary_get_first:
  assumes "bc_broker (cn_cached_arbitrary_broker s) = None" and "nw_shuffle nw (brokers s) s = (b # bs, s)"
    and "nw_connect nw b s = Some (Ok conn, s\<lparr>cn_env := e\<rparr>)"
  shows "\<exists>gen cache. bc_broker cache = Some conn \<and>
    arbitrary_get nw s = Some (Ok (conn, gen), s\<lparr>cn_env := e, cn_cached_arbitrary_broker := cache\<rparr>)"
proof -
  have "connect_to_a_broker_with_retry nw (brokers s) s = Some (Ok conn, s\<lparr>cn_env := e\<rparr>)"
    using assms(2,3) unfolding connect_to_a_broker_with_retry_def
    by (simp add: retry_with_backoff.simps)
  with assms(1) show ?thesis
    by (intro exI [of _ "bc_gen (broker_store conn (cn_cached_arbitrary_broker s))"]
        exI [of _ "broker_store conn (cn_cached_arbitrary_broker s)"])
      (simp add: arbitrary_get_def Let_def broker_store_def)
qed

text \<open>Every URL can be dialled, which leaves the connector as it is.\<close>

definition dials :: "('t, 'l, 'n, 'w) transport_lib \<Rightarrow> connection_settings \<Rightarrow> (rstring \<Rightarrow> ('t, 'l) Transport) \<Rightarrow>
    rstring set \<Rightarrow> bool" where
  "dials lib settings dial urls \<longleftrightarrow> (\<forall>url \<in> urls. \<forall>s.
     transport_connect lib url (st_tls_config settings) (st_socks5_proxy settings) s = (Ok (dial url), s))"

text \<open>The messages of the brokers to a client with these settings, which speaks the versions they offer.\<close>

definition understood :: "'x cluster \<Rightarrow> rstring \<Rightarrow> i32 \<Rightarrow> connection_settings \<Rightarrow> version_ranges \<Rightarrow> bool" where
  "understood cl topic part settings ranges \<longleftrightarrow>
     offers cl ranges \<and> length (as_bytes (st_client_id settings)) < 2 ^ 15 \<and> length (as_bytes topic) < 2 ^ 15 \<and>
     st_sasl_config settings = None \<and>
     fits (st_max_message_size settings) (write_ApiVersionsResponse (ApiVersion 3) (versions_answer cl)) \<and>
     (\<exists>v. choose_version Metadata_type ranges = Ok v \<and>
        fits (st_max_message_size settings) (broker_write_MetadataResponse v (metadata_answer cl topic part (Some [topic]))))"

definition connection_of :: "'x \<Rightarrow> connection_settings \<Rightarrow> version_ranges \<Rightarrow> 'x connection" where
  "connection_of x settings ranges = \<lparr>co_transport = x, co_max_message_size = st_max_message_size settings,
     co_client_id = st_client_id settings, co_version_ranges = ranges\<rparr>"

lemma wire_network_fields:
  "nw_connect (wire_network peer lib rs nw) broker s =
    establish lib rs (wire_link peer (\<lambda>millis. nw_sleep nw (real millis / 1000))) (cn_settings s) broker s"
  "nw_metadata (wire_network peer lib rs nw) = wire_request peer Metadata_type write_MetadataRequest read_MetadataResponse"
  "nw_shuffle (wire_network peer lib rs nw) = nw_shuffle nw"
  by (simp_all add: wire_network_def establishing_def)

lemma connect_at_cluster:
  fixes s :: "(('t, 'l) Transport connection, (('t, 'l) Transport, kept) wires) connector"
  assumes "understood cl topic part (cn_settings s) ranges" and "idle (st_client_id (cn_settings s)) s"
    and "dials lib (cn_settings s) dial urls" and "representation_url broker \<in> urls"
  shows "\<exists>e. nw_connect (wire_network (cluster_peer K room cl topic part) lib rs nw) broker s =
    Some (Ok (connection_of (dial (representation_url broker)) (cn_settings s) ranges), s\<lparr>cn_env := e\<rparr>) \<and>
    settles (st_client_id (cn_settings s)) s e"
  using assms unfolding wire_network_fields connection_of_def understood_def dials_def
  by (intro establish_at_cluster) auto

lemma offers_wf: "offers cl ranges \<Longrightarrow> wf_ranges ranges"
  using collect_ranges_ok [of "map (norm_ApiVersionsResponseApiKey (ApiVersion 3)) (cl_keys cl)" Map.empty]
  by (auto simp: offers_def Let_def wf_ranges_def find_None_iff)

text \<open>A broker that is asked names the leader, and the others.\<close>

lemma leader_at_cluster:
  fixes s :: "(('t, 'l) Transport connection, (('t, 'l) Transport, kept) wires) connector"
  assumes "understood cl topic part (cn_settings s) ranges" and "cl_leader cl \<noteq> -1"
    and "mc_response (cn_cached_metadata s) = None"
    and "metadata_broker (wire_network (cluster_peer K room cl topic part) lib rs nw) mode s =
      Some (Ok (connection_of x (cn_settings s) ranges, gen), s1)"
    and "idle (st_client_id (cn_settings s)) s1"
  shows "\<exists>e v. get_leader (wire_network (cluster_peer K room cl topic part) lib rs nw) topic part mode s =
    Some (Ok (cl_leader cl, None), s1\<lparr>cn_env := e, cn_topology := topology_update (cn_topology s1)
      (msr_brokers (norm_MetadataResponse v (metadata_answer cl topic part (Some [topic]))))\<rparr>) \<and>
    settles (st_client_id (cn_settings s)) s1 e"
proof -
  let ?c = "connection_of x (cn_settings s) ranges"
  from assms(1) obtain v where u: "wf_ranges ranges" "choose_version Metadata_type ranges = Ok v"
    "length (as_bytes (st_client_id (cn_settings s))) < 2 ^ 15" "length (as_bytes topic) < 2 ^ 15"
    "fits (st_max_message_size (cn_settings s))
      (broker_write_MetadataResponse v (metadata_answer cl topic part (Some [topic])))"
    by (auto simp: understood_def offers_wf)
  let ?r = "norm_MetadataResponse v (metadata_answer cl topic part (Some [topic]))"
  obtain e where e: "nw_metadata (wire_network (cluster_peer K room cl topic part) lib rs nw) ?c
      (metadata_request (Some [topic])) s1 = (Ok ?r, s1\<lparr>cn_env := e\<rparr>)" "settles (st_client_id (cn_settings s)) s1 e"
    using metadata_answered [of ?c s1 v topic cl part K room] u assms(5)
    unfolding wire_network_fields by (auto simp: connection_of_def)
  from get_leader_first [OF assms(3,4) e(1) answered_throttle answered_leader [OF assms(2)]] e(2) show ?thesis
    by (intro exI [of _ e] exI [of _ v]) simp
qed

text \<open>
  A new client connects to one of the bootstrap brokers, whichever comes first, and learns of the
  leader from it.
\<close>

definition knows_leader :: "'x cluster \<Rightarrow> Broker \<Rightarrow> connection_settings \<Rightarrow> 'p \<Rightarrow> ('c, ('x, 'p) wires) connector \<Rightarrow> bool" where
  "knows_leader cl broker settings p s \<longleftrightarrow> get_broker (cn_topology s) (cl_leader cl) = Some broker \<and>
     cn_settings s = settings \<and> mc_response (cn_cached_metadata s) = None \<and>
     idle (st_client_id settings) s \<and> wi_peer (cn_env s) = p"

lemma leader_from_bootstrap:
  fixes e0 :: "(('t, 'l) Transport, kept) wires"
  assumes "bootstrap \<noteq> []" and "understood cl topic part settings ranges"
    and "idle (st_client_id settings) (connector_new bootstrap settings config e0 ::
      (('t, 'l) Transport connection, (('t, 'l) Transport, kept) wires) connector)"
    and "\<And>bs s. \<exists>bs'. nw_shuffle nw bs s = (bs', s) \<and> mset bs' = mset bs"
    and "find (\<lambda>b. mrb_node_id b = cl_leader cl) (rev (cl_brokers cl)) = Some b" and "cl_leader cl \<noteq> -1"
    and "dials lib settings dial (set bootstrap)"
  shows "\<exists>s. get_leader (wire_network (cluster_peer K room cl topic part) lib rs nw) topic part CachedArbitrary
      (connector_new bootstrap settings config e0) = Some (Ok (cl_leader cl, None), s) \<and>
    knows_leader cl (broker_from b) settings (wi_peer e0) s"
proof -
  let ?nw = "wire_network (cluster_peer K room cl topic part) lib rs nw"
  let ?s = "connector_new bootstrap settings config e0 :: (('t, 'l) Transport connection, (('t, 'l) Transport, kept) wires) connector"
  have s: "cn_settings ?s = settings" "cn_topology ?s = []" "mc_response (cn_cached_metadata ?s) = None"
    "bc_broker (cn_cached_arbitrary_broker ?s) = None" "brokers ?s = map Bootstrap bootstrap" "cn_env ?s = e0"
    by (simp_all add: connector_new_def metadata_cache_default_def broker_cache_start_def brokers_def topology_is_empty_def)
  obtain url bs where bs: "nw_shuffle ?nw (brokers ?s) ?s = (Bootstrap url # bs, ?s)" "url \<in> set bootstrap"
  proof -
    obtain bs where bs: "nw_shuffle nw (brokers ?s) ?s = (bs, ?s)" "set bs = Bootstrap ` set bootstrap"
      using assms(4) [of "brokers ?s" ?s] s(5) by (metis list.set_map mset_eq_setD)
    with assms(1) that show thesis by (cases bs) (auto simp: wire_network_fields(3))
  qed
  let ?c = "connection_of (dial url) settings ranges"
  obtain e1 where e1: "nw_connect ?nw (Bootstrap url) ?s = Some (Ok ?c, ?s\<lparr>cn_env := e1\<rparr>)"
    "settles (st_client_id settings) ?s e1"
    using connect_at_cluster [of cl topic part ?s ranges lib dial _ "Bootstrap url" K room rs nw] assms(2,3,7) bs(2)
    unfolding s(1) by auto
  from arbitrary_get_first [OF s(4) bs(1) e1(1)] obtain gen cache where
    get: "arbitrary_get ?nw ?s = Some (Ok (?c, gen), ?s\<lparr>cn_env := e1, cn_cached_arbitrary_broker := cache\<rparr>)" by blast
  let ?s1 = "?s\<lparr>cn_env := e1, cn_cached_arbitrary_broker := cache\<rparr>"
  have "metadata_broker ?nw CachedArbitrary ?s = Some (Ok (?c, Some gen), ?s1)" using get by (simp add: metadata_broker_def)
  from leader_at_cluster [of cl topic part ?s ranges K room lib rs nw CachedArbitrary "dial url" "Some gen" ?s1]
    this assms(2,6) s(1,3) e1(2)
  obtain e2 v where e2: "get_leader ?nw topic part CachedArbitrary ?s = Some (Ok (cl_leader cl, None),
      ?s1\<lparr>cn_env := e2, cn_topology := topology_update (cn_topology ?s1)
        (msr_brokers (norm_MetadataResponse v (metadata_answer cl topic part (Some [topic]))))\<rparr>)"
    "settles (st_client_id settings) ?s1 e2"
    by (auto simp: settles_def)
  have "topology_inv []" by (simp add: topology_inv_def)
  from answered_brokers [OF this assms(5)] e2(2) e1(2) s have "knows_leader cl (broker_from b) settings (wi_peer e0)
      (?s1\<lparr>cn_env := e2, cn_topology := topology_update (cn_topology ?s1)
        (msr_brokers (norm_MetadataResponse v (metadata_answer cl topic part (Some [topic]))))\<rparr>)"
    by (simp add: knows_leader_def settles_def)
  with e2(1) show ?thesis by blast
qed

text \<open>It connects to the leader and asks it as well.\<close>

lemma leader_confirmed:
  fixes s :: "(('t, 'l) Transport connection, (('t, 'l) Transport, kept) wires) connector"
  assumes "knows_leader cl broker settings p s" and "understood cl topic part settings ranges"
    and "cl_leader cl \<noteq> -1" and "dials lib settings dial {broker_display broker}"
  shows "\<exists>s1 s2. connector_connect (wire_network (cluster_peer K room cl topic part) lib rs nw) (cl_leader cl) s =
      Some (Ok (Some (connection_of (dial (broker_display broker)) settings ranges)), s1) \<and>
    get_leader (wire_network (cluster_peer K room cl topic part) lib rs nw) topic part
      (SpecificBroker (connection_of (dial (broker_display broker)) settings ranges)) s1 =
      Some (Ok (cl_leader cl, None), s2) \<and> idle (st_client_id settings) s2 \<and> wi_peer (cn_env s2) = p"
proof -
  let ?nw = "wire_network (cluster_peer K room cl topic part) lib rs nw"
  let ?x = "dial (broker_display broker)"
  let ?c = "connection_of ?x settings ranges"
  from assms(1) have s: "get_broker (cn_topology s) (cl_leader cl) = Some broker" "cn_settings s = settings"
    "mc_response (cn_cached_metadata s) = None" "idle (st_client_id settings) s" "wi_peer (cn_env s) = p"
    by (simp_all add: knows_leader_def)
  obtain e1 where e1: "nw_connect ?nw (Topology broker) s = Some (Ok ?c, s\<lparr>cn_env := e1\<rparr>)"
    "settles (st_client_id settings) s e1"
    using connect_at_cluster [of cl topic part s ranges lib dial _ "Topology broker" K room rs nw] assms(2,4) s(2,4) by auto
  have "metadata_broker ?nw (SpecificBroker ?c) (s\<lparr>cn_env := e1\<rparr>) = Some (Ok (?c, None), s\<lparr>cn_env := e1\<rparr>)"
    by (simp add: metadata_broker_def)
  with leader_at_cluster [of cl topic part "s\<lparr>cn_env := e1\<rparr>" ranges K room lib rs nw "SpecificBroker ?c" ?x None
      "s\<lparr>cn_env := e1\<rparr>"] assms(2,3) s(2,3) e1(2)
  obtain e2 v where "get_leader ?nw topic part (SpecificBroker ?c) (s\<lparr>cn_env := e1\<rparr>) = Some (Ok (cl_leader cl, None),
      s\<lparr>cn_env := e2, cn_topology := topology_update (cn_topology s)
        (msr_brokers (norm_MetadataResponse v (metadata_answer cl topic part (Some [topic]))))\<rparr>)"
    "settles (st_client_id settings) (s\<lparr>cn_env := e1\<rparr>) e2"
    by (auto simp: settles_def)
  moreover have "connector_connect ?nw (cl_leader cl) s = Some (Ok (Some ?c), s\<lparr>cn_env := e1\<rparr>)"
    using e1(1) s(1) by (simp add: connector_connect_def)
  ultimately show ?thesis using e1(2) s(5) by (auto simp: settles_def)
qed

text \<open>\<open>PartitionClient::new\<close>: at its end the client is connected to the leader.\<close>

lemma partition_client_new_at_cluster:
  fixes e0 :: "(('t, 'l) Transport, kept) wires"
    and nw :: "(('t, 'l) Transport connection, (('t, 'l) Transport, kept) wires) network"
  assumes "bootstrap \<noteq> []" and "understood cl (pcl_topic pcl) (pcl_partition pcl) settings ranges"
    and "\<And>x. ready (wi_messengers e0 x) \<and> m_client_id (wi_messengers e0 x) = st_client_id settings"
    and "\<And>bs s. \<exists>bs'. nw_shuffle nw bs s = (bs', s) \<and> mset bs' = mset bs"
    and "find (\<lambda>b. mrb_node_id b = cl_leader cl) (rev (cl_brokers cl)) = Some b" and "cl_leader cl \<noteq> -1"
    and "dials lib settings dial (insert (broker_display (broker_from b)) (set bootstrap))"
  shows "\<exists>w. partition_client_new (wire_network (cluster_peer K room cl (pcl_topic pcl) (pcl_partition pcl)) lib rs nw) pcl
      (connector_new bootstrap settings config e0) = Some (Ok (), w) \<and>
    linked (connection_of (dial (broker_display (broker_from b))) settings ranges) w \<and> peer_of w = wi_peer e0"
proof -
  let ?topic = "pcl_topic pcl" and ?part = "pcl_partition pcl"
  let ?nw = "wire_network (cluster_peer K room cl ?topic ?part) lib rs nw"
  let ?s = "connector_new bootstrap settings config e0 :: (('t, 'l) Transport connection, (('t, 'l) Transport, kept) wires) connector"
  let ?c = "connection_of (dial (broker_display (broker_from b))) settings ranges"
  have idle: "idle (st_client_id settings) ?s" using assms(3) by (simp add: idle_def connector_new_def)
  have dials: "dials lib settings dial (set bootstrap)" "dials lib settings dial {broker_display (broker_from b)}"
    using assms(7) by (simp_all add: dials_def)
  obtain s1 where s1: "get_leader ?nw ?topic ?part CachedArbitrary ?s = Some (Ok (cl_leader cl, None), s1)"
    "knows_leader cl (broker_from b) settings (wi_peer e0) s1"
    using leader_from_bootstrap [OF assms(1,2) idle assms(4-6) dials(1)] by blast
  obtain s2 s3 where s3: "connector_connect ?nw (cl_leader cl) s1 = Some (Ok (Some ?c), s2)"
    "get_leader ?nw ?topic ?part (SpecificBroker ?c) s2 = Some (Ok (cl_leader cl, None), s3)"
    "idle (st_client_id settings) s3" "wi_peer (cn_env s3) = wi_peer e0"
    using leader_confirmed [OF s1(2) assms(2,6) dials(2)] by blast
  have "connect_leader ?nw ?topic ?part ?s = Some (Ok (?c, None, None), s3)"
    using s1(1) s3(1,2) by (simp add: connect_leader_def)
  then have "partition_get ?nw ?topic ?part (current_broker_start, ?s) =
      Some (Ok (?c, 1), (partition_store ?c None None current_broker_start, s3))"
    by (simp add: partition_get_def current_broker_start_def partition_store_def)
  then have "partition_client_new ?nw pcl ?s = Some (Ok (), (partition_store ?c None None current_broker_start, s3))"
    unfolding partition_client_new_def maybe_retry_def by (subst retry_with_backoff.simps) (simp add: retry_attempt_def)
  moreover have "linked ?c (partition_store ?c None None current_broker_start, s3)"
    using s3(3) by (simp add: linked_def partition_store_def idle_def connection_of_def)
  ultimately show ?thesis using s3(4) by auto
qed

end
