(* ===== verification/Safe_Future.thy ===== *)
theory Safe_Future
  imports Messenger_Steps
begin

text \<open>
  \<open>CancellationSafeFuture\<close> of \<open>src/src/messenger.rs\<close>: a wrapper around the write of a message, which hands
  the write over to a task of its own when its caller drops it.

  A future has a state \<open>'f\<close>, and each poll may change the world \<open>'w\<close> around it, which others change
  between two polls.

  What is proved: whenever a future in the wrapper is dropped, it goes on where it was, so that the
  world cannot tell; and the steps of the concurrent messenger that write a message, for a caller
  that waits and for one that was cancelled, are instances of this.
\<close>

section \<open>The wrapper\<close>

type_synonym ('f, 'w, 'a) future = "'f \<Rightarrow> 'w \<Rightarrow> 'a option \<times> 'f \<times> 'w"

record 'f CancellationSafeFuture =
  csf_done :: bool
  csf_inner :: "'f option"

definition csf_new :: "'f \<Rightarrow> 'f CancellationSafeFuture" where
  "csf_new fut = \<lparr>csf_done = False, csf_inner = Some fut\<rparr>"

text \<open>\<open>poll\<close>; \<open>None\<close> is \<open>Poll::Pending\<close>.\<close>

definition csf_poll :: "('f, 'w, 'a) future \<Rightarrow> 'f CancellationSafeFuture \<Rightarrow> 'w \<Rightarrow>
    (unit, 'a option) outcome \<times> 'f CancellationSafeFuture \<times> 'w" where
  "csf_poll poll self w =
     (case csf_inner self of
        None \<Rightarrow> (Panic ExpectFailed, self, w)
      | Some fut \<Rightarrow>
          (case poll fut w of
             (Some res, fut1, w1) \<Rightarrow> (Ok (Some res), self\<lparr>csf_inner := Some fut1, csf_done := True\<rparr>, w1)
           | (None, fut1, w1) \<Rightarrow> (Ok None, self\<lparr>csf_inner := Some fut1\<rparr>, w1)))"

text \<open>\<open>drop\<close>, with the future that a new task awaits, if there is one.\<close>

definition csf_drop :: "'f CancellationSafeFuture \<Rightarrow> (unit, 'f option) outcome" where
  "csf_drop self =
     (if \<not> csf_done self
      then (case csf_inner self of None \<Rightarrow> Panic ExpectFailed | Some fut \<Rightarrow> Ok (Some fut))
      else Ok None)"

section \<open>Runs\<close>

text \<open>A future that is polled until it is ready, with what others do to the world before each poll.\<close>

fun await_future :: "('f, 'w, 'a) future \<Rightarrow> ('w \<Rightarrow> 'w) list \<Rightarrow> 'f \<Rightarrow> 'w \<Rightarrow> 'a option \<times> 'f \<times> 'w" where
  "await_future poll [] fut w = (None, fut, w)"
| "await_future poll (e # es) fut w =
     (case poll fut (e w) of
        (Some res, fut1, w1) \<Rightarrow> (Some res, fut1, w1)
      | (None, fut1, w1) \<Rightarrow> await_future poll es fut1 w1)"

fun await_csf :: "('f, 'w, 'a) future \<Rightarrow> ('w \<Rightarrow> 'w) list \<Rightarrow> 'f CancellationSafeFuture \<Rightarrow> 'w \<Rightarrow>
    (unit, 'a option) outcome \<times> 'f CancellationSafeFuture \<times> 'w" where
  "await_csf poll [] self w = (Ok None, self, w)"
| "await_csf poll (e # es) self w =
     (case csf_poll poll self (e w) of
        (Ok None, self1, w1) \<Rightarrow> await_csf poll es self1 w1
      | r \<Rightarrow> r)"

text \<open>
  A caller that polls the wrapper as often as the first list says, or until it is ready, and then
  drops it; and the task, if there is one.  The results are those of the caller and of the task.
\<close>

definition await_then_drop :: "('f, 'w, 'a) future \<Rightarrow> ('w \<Rightarrow> 'w) list \<Rightarrow> ('w \<Rightarrow> 'w) list \<Rightarrow> 'f \<Rightarrow> 'w \<Rightarrow>
    (unit, 'a option \<times> 'a option) outcome \<times> 'w" where
  "await_then_drop poll es es' fut w =
     (case await_csf poll es (csf_new fut) w of
        (r, self, w1) \<Rightarrow>
          (case bind_o r (\<lambda>x. bind_o (csf_drop self) (\<lambda>task. Ok (x, task))) of
             Ok (x, None) \<Rightarrow> (Ok (x, None), w1)
           | Ok (x, Some fut1) \<Rightarrow>
               (case await_future poll es' fut1 w1 of (y, _, w2) \<Rightarrow> (Ok (x, y), w2))
           | Err u \<Rightarrow> (Err u, w1)
           | Panic p \<Rightarrow> (Panic p, w1)))"

lemma await_future_append:
  "await_future poll (es @ es') fut w =
     (case await_future poll es fut w of
        (None, fut1, w1) \<Rightarrow> await_future poll es' fut1 w1
      | r \<Rightarrow> r)"
  by (induction es arbitrary: fut w) (simp_all split: prod.splits option.splits)

text \<open>The wrapper is not done, and has a future, until that is ready.\<close>

lemma await_csf_inner:
  "await_csf poll es \<lparr>csf_done = False, csf_inner = Some fut\<rparr> w =
     (case await_future poll es fut w of
        (r, fut1, w1) \<Rightarrow> (Ok r, \<lparr>csf_done = (r \<noteq> None), csf_inner = Some fut1\<rparr>, w1))"
  by (induction es arbitrary: fut w) (simp_all add: csf_poll_def split: prod.splits option.splits)

lemma await_then_drop_inner:
  "await_then_drop poll es es' fut w =
     (case await_future poll es fut w of
        (Some res, _, w1) \<Rightarrow> (Ok (Some res, None), w1)
      | (None, fut1, w1) \<Rightarrow> (case await_future poll es' fut1 w1 of (y, _, w2) \<Rightarrow> (Ok (None, y), w2)))"
  by (simp add: await_then_drop_def csf_new_def await_csf_inner csf_drop_def split: prod.splits option.splits)

text \<open>The caller and the task together do what one run of the future does.\<close>

lemma await_then_drop_whole:
  "\<exists>x y fut' w'. await_then_drop poll es es' fut w = (Ok (x, y), w') \<and> (x = None \<or> y = None) \<and>
     await_future poll (es @ es') fut w = (case x of Some res \<Rightarrow> Some res | None \<Rightarrow> y, fut', w')"
proof -
  obtain r fut1 w1 where r: "await_future poll es fut w = (r, fut1, w1)" by (rule prod_cases3)
  obtain r' fut2 w2 where r': "await_future poll es' fut1 w1 = (r', fut2, w2)" by (rule prod_cases3)
  show ?thesis using r r' by (cases r) (simp_all add: await_then_drop_inner await_future_append)
qed

section \<open>The write of a message\<close>

text \<open>The future of \<open>send_message_inner\<close> on the writing half of the stream, in one poll.\<close>

definition send_future :: "u8 list \<Rightarrow> io_error option \<Rightarrow> (unit, sink, (request_error, unit) outcome) future" where
  "send_future msg flush_error _ stream_write =
     (case send_message_inner msg flush_error stream_write of (r, o') \<Rightarrow> (Some r, (), o'))"

lemma send_steps:
  "await_then_drop (send_future buf flush_error) [id] es () (out w) =
     (Ok (Some (fst (send_message_inner buf flush_error (out w))), None), snd (send_message_inner buf flush_error (out w)))"
  "await_then_drop (send_future buf flush_error) [] [id] () (out w) =
     (Ok (None, Some (fst (send_message_inner buf flush_error (out w)))), out (rescue r buf flush_error w))"
  by (simp_all add: await_then_drop_inner send_future_def rescue_def split: prod.splits)

end
