(* ===== verification/Fuzz.thy ===== *)
theory Fuzz
  imports Wire
begin

text \<open>
  The fuzz targets of \<open>src/fuzz/fuzz_targets/\<close>: any bytes as the response to a request, through the
  messenger on a transport that has them already (\<open>protocol_reader.rs\<close>), and any bytes as the body
  of a record batch (\<open>record_batch_body_reader.rs\<close>).

  Writes to the mock transport always succeed.  The timeouts are only looked at in that a request
  which never ends is a panic.

  What is proved: no input makes a target panic.
\<close>

datatype fuzz_error =
    FuzzRead read_error
  | FuzzRequest request_error
  | FuzzNotImplemented ApiKey

text \<open>The mock transport has one message, the size of which is the limit of the messenger.\<close>

definition send_recv :: "request_type \<Rightarrow> (ApiVersion \<Rightarrow> 'r \<Rightarrow> vwres) \<Rightarrow> (ApiVersion \<Rightarrow> 'a reader) \<Rightarrow> 'r \<Rightarrow>
    u8 list \<Rightarrow> ApiKey \<Rightarrow> ApiVersion \<Rightarrow> (fuzz_error, unit) outcome" where
  "send_recv rt wr rd request data api_key api_version =
     (case write_message data \<lparr>written = [], capacity = None\<rparr> of
        (Ok _, transport_data) \<Rightarrow>
          bind_o (ApiVersionRange_new api_version api_version) (\<lambda>range.
          let messenger = messenger_new DEFAULT_CLIENT_ID (written transport_data, None) None
          in bind_o (map_err FuzzRequest (fst (request_with_version_ranges (length data) (\<lambda>_ _. ([], ()))
                [api_key \<mapsto> range] rt (\<lambda>v. wr v request) rd (messenger, ())))) (\<lambda>_.
             Ok ()))
      | _ \<Rightarrow> Panic ExpectFailed)"

definition driver :: "crates \<Rightarrow> u8 list \<Rightarrow> (fuzz_error, unit) outcome" where
  "driver K data =
     bind_o (map_err FuzzRead (read_Int16 (data, None))) (\<lambda>(key, s).
     bind_o (map_err FuzzRead (read_Int16 s)) (\<lambda>(version, cursor).
       let api_key = ApiKey_from_Int16 key; api_version = ApiVersion version; rest = fst cursor
       in case api_key of
            ApiVersions \<Rightarrow> send_recv ApiVersions_type write_ApiVersionsRequest read_ApiVersionsResponse
              \<lparr>avq_client_software_name = Some rstring_empty, avq_client_software_version = Some rstring_empty,
               avq_tagged_fields = Some []\<rparr> rest api_key api_version
          | CreateTopics \<Rightarrow> send_recv CreateTopics_type write_CreateTopicsRequest read_CreateTopicsResponse
              \<lparr>ctq_topics = [], ctq_timeout_ms = 0, ctq_validate_only = None, ctq_tagged_fields = None\<rparr>
              rest api_key api_version
          | Fetch \<Rightarrow> send_recv Fetch_type write_FetchRequest (read_FetchResponse K)
              \<lparr>frq_replica_id = 0, frq_max_wait_ms = 0, frq_min_bytes = 0, frq_max_bytes = None,
               frq_isolation_level = None, frq_topics = []\<rparr> rest api_key api_version
          | ListOffsets \<Rightarrow> send_recv ListOffsets_type write_ListOffsetsRequest read_ListOffsetsResponse
              \<lparr>loq_replica_id = 0, loq_isolation_level = None, loq_topics = []\<rparr> rest api_key api_version
          | Metadata \<Rightarrow> send_recv Metadata_type write_MetadataRequest read_MetadataResponse
              \<lparr>mrq_topics = None, mrq_allow_auto_topic_creation = None\<rparr> rest api_key api_version
          | Produce \<Rightarrow> send_recv Produce_type (write_ProduceRequest K) read_ProduceResponse
              \<lparr>prq_transactional_id = None, prq_acks = 0, prq_timeout_ms = 0, prq_topic_data = []\<rparr>
              rest api_key api_version
          | _ \<Rightarrow> Err (FuzzNotImplemented api_key)))"

definition record_batch_body_reader :: "crates \<Rightarrow> u8 list \<Rightarrow> (read_error, RecordBatchBody) outcome" where
  "record_batch_body_reader K data = bind_o (read_RecordBatchBody K (data, None)) (\<lambda>(body, _). Ok body)"

section \<open>The mock transport\<close>

text \<open>
  It reads from a cursor over the data and writes to a sink that takes everything, both streams of
  the runtime.  The targets above have the bytes of the one and the unlimited capacity of the other.
\<close>

record ('c, 'k) MockTransport =
  mt_data :: 'c
  mt_sink :: 'k

definition mock_new :: "(u8 list \<Rightarrow> 'c) \<Rightarrow> 'k \<Rightarrow> u8 list \<Rightarrow> ('c, 'k) MockTransport" where
  "mock_new cursor sink data = \<lparr>mt_data = cursor data, mt_sink = sink\<rparr>"

definition on_data :: "('c \<Rightarrow> 'r \<times> 'c) \<Rightarrow> ('c, 'k) MockTransport \<Rightarrow> 'r \<times> ('c, 'k) MockTransport" where
  "on_data f t = (case f (mt_data t) of (r, c) \<Rightarrow> (r, t\<lparr>mt_data := c\<rparr>))"

definition on_sink :: "('k \<Rightarrow> 'r \<times> 'k) \<Rightarrow> ('c, 'k) MockTransport \<Rightarrow> 'r \<times> ('c, 'k) MockTransport" where
  "on_sink f t = (case f (mt_sink t) of (r, k) \<Rightarrow> (r, t\<lparr>mt_sink := k\<rparr>))"

definition mock_io :: "'c async_io \<Rightarrow> 'k async_io \<Rightarrow> ('c, 'k) MockTransport async_io" where
  "mock_io cursor sink =
     \<lparr>poll_read = (\<lambda>room. on_data (poll_read cursor room)),
      poll_write = (\<lambda>buf. on_sink (poll_write sink buf)),
      poll_flush = on_sink (poll_flush sink),
      poll_shutdown = on_sink (poll_shutdown sink)\<rparr>"

text \<open>It is a byte stream if they are, and what is written is never read.\<close>

sublocale two_streams \<subseteq> mock: byte_stream "mock_io tcp tls"
  by unfold_locales (auto simp: mock_io_def on_data_def on_sink_def dest: tcp.read_fits tls.write_fits split: prod.splits)

lemma mock_directions:
  "poll_write (mock_io cursor sink) buf t = (r, t') \<Longrightarrow> mt_data t' = mt_data t"
  "poll_read (mock_io cursor sink) room t = (r', t') \<Longrightarrow> mt_sink t' = mt_sink t"
  by (auto simp: mock_io_def on_data_def on_sink_def split: prod.splits)

section \<open>No panic\<close>

lemma send_recv_no_panic:
  assumes "response_reader rd rt" and "request_writer wr rt" and "wf_type rt" and "length data < 2 ^ 31"
  shows "\<not> is_panic (send_recv rt wr rd request data api_key api_version)"
proof -
  let ?range = "\<lparr>vr_min = api_version, vr_max = api_version\<rparr>"
  let ?w = "messenger_new DEFAULT_CLIENT_ID (frame_bytes data, None) None"
  have range: "(ApiVersionRange_new api_version api_version :: (fuzz_error, ApiVersionRange) outcome) = Ok ?range"
    by (simp add: ApiVersionRange_new_def)
  have "wf_ranges [api_key \<mapsto> ?range]" by (simp add: wf_ranges_def)
  moreover have "readable (length data) (fst (incoming ?w) @ [], snd (incoming ?w))"
    by (cases data) (simp_all add: readable_def messenger_new_def)
  moreover have "settled ?w" by (simp add: settled_def messenger_new_def)
  moreover have "length (as_bytes (m_client_id ?w)) < 2 ^ 15"
    by (simp add: messenger_new_def DEFAULT_CLIENT_ID_def as_bytes_str ascii_bytes_def)
  ultimately have "\<not> is_panic (fst (request_with_version_ranges (length data) (\<lambda>_ _. ([], ()))
      [api_key \<mapsto> ?range] rt (\<lambda>v. wr v request) rd (?w, ())))"
    using request_ends [where answer = "\<lambda>_ _. ([], ())" and m = "length data" and w = ?w and msg = request and p = "()",
        OF assms(1-3)] by (simp add: not_le)
  with write_message_unlimited [OF assms(4), of "\<lparr>written = [], capacity = None\<rparr>"] show ?thesis
    by (simp add: send_recv_def Let_def range)
qed

lemma wf_types:
  "wf_type ApiVersions_type" "wf_type CreateTopics_type" "wf_type Fetch_type" "wf_type ListOffsets_type"
  "wf_type Metadata_type" "wf_type Produce_type"
  by (simp_all add: wf_type_def ApiVersions_type_def CreateTopics_type_def Fetch_type_def ListOffsets_type_def
      Metadata_type_def Produce_type_def version_range_def less_eq_ApiVersion_def)

text \<open>The kinds of messages that do not depend on the crates.\<close>

lemmas send_recv_kinds =
  send_recv_no_panic [OF api_versions.response_reader_axioms api_versions_out.request_writer_axioms wf_types(1)]
  send_recv_no_panic [OF create_topics.response_reader_axioms create_topics_out.request_writer_axioms wf_types(2)]
  send_recv_no_panic [OF list_offsets.response_reader_axioms list_offsets_out.request_writer_axioms wf_types(4)]
  send_recv_no_panic [OF metadata.response_reader_axioms metadata_out.request_writer_axioms wf_types(5)]
  send_recv_no_panic [OF produce.response_reader_axioms produce_out.request_writer_axioms wf_types(6)]

context record_crates
begin

lemma driver_no_panic:
  assumes "length data < 2 ^ 31"
  shows "\<not> is_panic (driver K data)"
proof (cases "4 \<le> length data")
  case True
  obtain key where key: "read_Int16 (data, None) = Ok (key, (drop 2 data, None))"
    using True by (simp add: read_Int16_def)
  have "read_exact 2 (drop 2 data, None) = Ok (take 2 (drop 2 data), (drop 4 data, None))" using True by simp
  then obtain version where version: "read_Int16 (drop 2 data, None) = Ok (version, (drop 4 data, None))"
    by (simp add: read_Int16_def del: read_exact_simp)
  have rest: "length (drop 4 data) < 2 ^ 31" using assms by simp
  note send_recv_no_panic [OF response_reader_Fetch fetch_out.request_writer_axioms wf_types(3) rest]
  with send_recv_kinds [OF rest] key version show ?thesis
    by (simp add: driver_def Let_def split: ApiKey.splits)
next
  case False
  have "read_Int16 (drop 2 data, None) = Err (IO UnexpectedEof)"
    unfolding read_Int16_def using False by (intro rbind_Err) simp
  moreover have "read_Int16 (data, None) = (if 2 \<le> length data
      then Ok (from_be_bytes 0 (take 2 data), (drop 2 data, None)) else Err (IO UnexpectedEof))"
    by (simp add: read_Int16_def)
  ultimately show ?thesis by (simp add: driver_def)
qed

lemma record_batch_body_reader_no_panic: "\<not> is_panic (record_batch_body_reader K data)"
  using read_RecordBatchBody_no_panic [of "(data, None)"] by (auto simp: record_batch_body_reader_def split: prod.splits)

end

end
