(* ===== verification/Spec2Isabelle.thy ===== *)
theory Spec2Isabelle
  imports Log_Consumer Log_Producer Discovery Safe_Future Fuzz
begin

text \<open>
  \<^bold>\<open>rskafka: verification of a client for Apache Kafka\<close>

  rskafka is a client for Apache Kafka brokers.  Its layers, from the bottom: byte-level types
  (\<open>src/src/protocol/primitives.rs\<close>, \<open>vec_builder.rs\<close>), record batches with checksums and
  compression (\<open>protocol/record.rs\<close>), request and response messages in several versions each
  (\<open>protocol/messages/\<close>), frames on a byte stream (\<open>protocol/frame.rs\<close>), the messenger, which
  multiplexes requests over one stream and negotiates versions (\<open>messenger.rs\<close>), the connector
  with its caches (\<open>connection.rs\<close>, \<open>connection/topology.rs\<close>, \<open>client/metadata_cache.rs\<close>) and its
  retries (\<open>backoff.rs\<close>), the clients for a partition and for the controller
  (\<open>client/partition.rs\<close>, \<open>client/controller.rs\<close>), and on top of a partition client the batching
  producer (\<open>client/producer.rs\<close> and \<open>client/producer/\<close>) and the stream consumer
  (\<open>client/consumer.rs\<close>).  This development covers all of these layers.

  \<^bold>\<open>Common conventions.\<close>  Machine integers are words of their width; \<open>usize\<close> is \<open>nat\<close>, with the
  conversions and their failures written out for 64 bits.  A fallible function returns an
  \<open>outcome\<close>: \<open>Ok\<close>, \<open>Err\<close> with the error of the source, or \<open>Panic\<close> with its cause, so that a panic
  (an \<open>expect\<close>, an arithmetic overflow, an index out of bounds, an \<open>unreachable!\<close>) is a value
  that the theorems speak about.  A reader is a function of a stream, which is the bytes that
  will arrive and what happens after them: the end, or an error of the transport.  A writer
  returns the bytes it writes.  Message texts of errors are reduced to the values they mention.
  Log output is left out.  An operation that can run forever returns an \<open>option\<close>, in which \<open>None\<close>
  is not returning.  Concurrent code is a step relation, one step per piece of code that runs
  without an await point or under one lock.

  \<^bold>\<open>The theories of the protocol and what they model.\<close>
    \<^item> \<open>Kafka_Prelude\<close>: outcomes, streams, reader and writer combinators, big-endian bytes,
      checked conversions.  \<open>Rust_String\<close>: \<open>String\<close> as UTF-8 checked bytes.
    \<^item> \<open>Codec\<close>: \<open>ReadError\<close> and \<open>WriteError\<close> (\<open>protocol/traits.rs\<close>) and the interfaces of the
      library as locales: \<open>stream_reader\<close> (reads a prefix and does not depend on what follows),
      \<open>safe_reader\<close> (does not panic, and a shorter input gives an unexpected end of file),
      \<open>norm_codec\<close> and \<open>codec\<close> (reading gives back what was written, up to a normal form).
    \<^item> \<open>Vec_Builder\<close>: \<open>VecBuilder\<close> with its blocks; the locale \<open>bounded_builder\<close> is the contract
      its clients rely on.  Since a builder is shown to give the result of the plain loop
      \<open>read_items\<close>, for element types that are not empty and fit a block, the other theories use
      that loop where the source fills a builder with elements, and the model of the builder
      itself where it reads bytes (\<open>read_bytes\<close>).
    \<^item> \<open>Primitives\<close>: all types of \<open>primitives.rs\<close> but \<open>Records\<close>.  \<open>Varint_Crate\<close>: what is relied on of
      the crate \<open>integer_encoding\<close>, a parameter of the model, with the zigzag encoding as an
      instance.
    \<^item> \<open>Api_Keys\<close>, \<open>Api_Errors\<close>: the codes of \<open>api_key.rs\<close>, \<open>api_version.rs\<close> and \<open>error.rs\<close>.
    \<^item> \<open>Frame\<close>: \<open>read_message\<close> and \<open>write_message\<close>; the locale \<open>message_channel\<close> is what the two ends
      of a transport rely on.  The sink has a capacity, after which writes fail.
    \<^item> \<open>Record_Format\<close>, \<open>Snappy\<close>, \<open>Record_Batch\<close>: \<open>record.rs\<close> and \<open>Records\<close>.  The crates for compression
      and checksums are the parameters \<open>snap_lib\<close> and \<open>crates\<close>; the locales \<open>snap_crate\<close> and
      \<open>record_crates\<close> state what their documentation promises, and both have a concrete
      instance.
    \<^item> \<open>Messages_Common\<close>, \<open>Messages_Admin\<close>, \<open>Messages_Data\<close>: every message of \<open>protocol/messages/\<close>, with the
      constants of its \<open>RequestBody\<close> as a \<open>request_type\<close>.  The locales \<open>response_stream\<close>,
      \<open>response_reader\<close> and \<open>request_writer\<close> are what the messenger relies on, and every message
      type interprets them.  The \<open>broker_\<close> functions are reference readers for requests, written
      from the format the writers document, since the client only writes them.
    \<^item> \<open>Throttle\<close>: \<open>throttle.rs\<close>, \<open>validation.rs\<close>.
    \<^item> \<open>Messenger\<close>: version choice, encoding, decoding and \<open>sync_versions\<close>.  \<open>Messenger_Steps\<close>: the
      concurrent messenger as a step relation on a \<open>world\<close> of calls, the shared state, the incoming
      stream, the sink and the background task.
      \<open>Safe_Future\<close>: the wrapper that lets the write of a cancelled call go on, from poll to poll.
    \<^item> \<open>Transport\<close>: \<open>connection/transport.rs\<close> and \<open>connection/transport/sasl.rs\<close>, and \<open>sync_versions\<close> and
      \<open>do_sasl\<close> over a connection.  TCP, SOCKS5, TLS and the sessions of \<open>rsasl\<close> are parameters; the
      locale \<open>byte_stream\<close> is the contract of the streams of the crates.

  \<^bold>\<open>The theories of the clients and what they model.\<close>
    \<^item> \<open>Client_Record\<close>, \<open>Client_Errors\<close>: \<open>record.rs\<close>, \<open>client/error.rs\<close> and what the two versions of
      \<open>maybe_retry\<close> decide for an error (\<open>partition_verdict\<close>, \<open>controller_verdict\<close>).  The crate \<open>chrono\<close>
      is a parameter with the locale \<open>chrono_crate\<close>.
    \<^item> \<open>Partition\<close>: the functions of \<open>partition.rs\<close> that build requests and process responses.
    \<^item> \<open>Backoff\<close>: \<open>backoff.rs\<close>; the random number, the sleep and the operation are parameters, the
      locale \<open>rand_crate\<close> is the contract of the first.  \<open>f64\<close> is modelled by real numbers.
    \<^item> \<open>Broker_Cache\<close>: topology, metadata cache and the cached connection with its generation; the
      locale \<open>generation_cache\<close> is the contract of every cache with generations, of which the code
      has four.  \<open>Broker_Connector\<close>: \<open>BrokerConnector\<close>; what it asks of the network is the
      parameter \<open>network\<close>, which may change the whole state, as other tasks do.  \<open>Establish\<close>:
      \<open>BrokerRepresentation::connect\<close>, which gives the \<open>network\<close> its connections.
    \<^item> \<open>Clients\<close>: \<open>PartitionClient\<close> with leader discovery, \<open>ControllerClient\<close>, \<open>list_topics\<close> and the
      builders with their settings.  Sending a request is a parameter here.
    \<^item> \<open>Wire\<close>: \<open>Messenger::request\<close> for one call after the other, composed of the operations of
      \<open>Messenger_Steps\<close> and shown to be runs of it; it gives the clients their requests and the
      connector its network, over bytes.  \<open>Log_Broker\<close>: a reference broker for one partition at the
      other end of the bytes, and the list of records that client and broker together implement.
    \<^item> \<open>Cluster\<close>: the brokers of a cluster, all of which answer requests for versions and metadata, and
      the leader those for the log.  \<open>Discovery\<close>: the connections and requests that a new client makes
      up to the leader, over the bytes of these brokers.
    \<^item> \<open>Log_Consumer\<close>, \<open>Log_Producer\<close>: the stream of the consumer and the steps of the batching producer on
      the state of a connection to that broker.  The locale \<open>log_states\<close> is what the stream relies on.
    \<^item> \<open>Fuzz\<close>: the fuzz targets of \<open>src/fuzz/fuzz_targets/\<close>, on top of \<open>Wire\<close> and \<open>Record_Batch\<close>.
    \<^item> \<open>Consumer\<close>: \<open>StreamConsumer\<close>, with \<open>poll_next\<close> over the answers that have arrived; the locale
      \<open>partition_log\<close> is what it relies on.  \<open>Log_Service\<close>: a log of stored batches, as the partition
      client sees it, which is shown to keep that contract.
    \<^item> \<open>Aggregator\<close>: the trait \<open>Aggregator\<close> as a record of functions, its contract as the locales
      \<open>aggregator_contract\<close> and \<open>faithful_aggregator\<close>, \<open>RecordAggregator\<close> as an instance, and the
      broadcast of one value.  \<open>Producer\<close>: \<open>BatchBuilder\<close> and \<open>ProducerInner\<close>.  \<open>Producer_Steps\<close>: callers,
      linger timers, flush tasks, manual flushes, cancellation and drop as a step relation \<open>pstep\<close>,
      the abstract queue of batches it refines, and the locales \<open>batch_producer\<close> and
      \<open>faithful_producer\<close> in which its properties are proved for every aggregator that keeps the
      contract and every client.

  \<^bold>\<open>What is proved.\<close>  Round trips (C1, C2, C3, C32, C34, C39, C40): what is written is read back,
  for frames, numbers, arrays, codes, batches with any compression, for a produce request from
  the caller to a broker at the other end of the transport, and for records from producing to
  fetching.  All layers together (C4 to C7): the partition client over the messenger, the frames and
  the messages, with a broker at the other end, implements a list of records; the batching producer
  on top of it gives each caller the position of its record there, the consumer streams it, and a
  new client gets from the bootstrap brokers to the connection that this takes.
  Robustness against any input (C11 to C15, C28, C33, C34): no response makes the client panic
  or loop, with the exceptions the code has, and neither does any input of the fuzz targets;
  cut-off data is recognised; damage to a batch is detected.  The concurrent messenger (C16 to C20,
  C29, C30), by invariants over all interleavings: responses go to the call they answer, a call that waits
  is always served or told of the failure, and the wire holds whole frames in some order of the calls; one case in which it does not stay so is C29, while C30 says that the write of a cancelled call
  goes on.
  The producer (C9, C10, C21, C36), also over all interleavings: each caller gets the offset of its
  own record, the producer refines a queue of batches, no caller waits in vain, batches keep the
  limit.  The consumer (C8): the stream is the log, whatever the polls and answers.  The
  clients (C22 to C27, C37): results come from a broker, the leader is confirmed, connections are
  authenticated, caches drop only what they should, retries end by the deadline and keep their
  bounds, the topology is a map.  Versions and requests (C31, C38) and an optimised routine
  (C35).

  \<^bold>\<open>Bounds and fuel.\<close>  The loop of \<open>VecBuilder::read_exact\<close> has \<open>remaining_elements\<close> rounds of fuel: each
  round reads at least one byte, and running out of fuel is the panic \<open>Diverges\<close>, which is shown
  not to occur.  The skip loop of \<open>read_message\<close>, \<open>retry_with_backoff\<close> and \<open>next_item\<close> are partial
  functions into \<open>option\<close>; C33, C26 and C6 say when they return.  So are the loops of \<open>sync_versions\<close> and
  \<open>do_sasl\<close> over a connection, which a broker can keep going.  All other loops are total functions with
  termination proofs.  The messenger serves every call as long as at most \<open>2 ^ 32\<close> correlation
  IDs have been handed out; the counter wraps around as in the code, and nothing else depends
  on that bound.  \<open>sync_loop\<close> consumes the answers its requests get and is \<open>None\<close> while it waits;
  \<open>poll_next\<close> consumes the answers that have arrived and is \<open>Pending\<close> when there are no more.
  \<open>await_response\<close> is total, since each message it handles is gone from the stream; a call that
  would wait forever is the panic \<open>Diverges\<close>, which C14 and C15 exclude.  The
  generations of caches are unbounded numbers, since a 64-bit counter does not wrap around in
  the life of a process; the flush clock of the producer is a word, as the code says it wraps.

  \<^bold>\<open>Not modelled.\<close>  \<open>Display\<close> impls other than those that make up a URL, logs and the texts for them
  (\<open>sorted_ranges_repr\<close>); the enum \<open>ProduceError\<close>, which no code uses; how long a linger timer runs;
  module declarations, tests and benchmarks.  The crates for sockets, proxies, TLS,
  SASL sessions, random numbers, times, compression and checksums are parameters.  All compression
  features of the crate are taken to be enabled, and so are proxies and TLS, for which
  \<open>transport_features\<close> says that the code without them does the same where they are not configured.

  \<^bold>\<open>What could follow.\<close>  Several writes of the producer at once, over the concurrent messenger, instead
  of one after the other; and a leader that changes while a client is connected.
\<close>

section \<open>Sample data\<close>

definition sample_record :: Record where
  "sample_record = \<lparr>timestamp_delta = 0, offset_delta = 0, rec_key = None,
     rec_value = Some [104, 105], rec_headers = []\<rparr>"

definition sample_batch :: RecordBatch where
  "sample_batch = \<lparr>base_offset = 7, partition_leader_epoch = 0, last_offset_delta = 0,
     first_timestamp = 0, max_timestamp = 0, producer_id = -1, producer_epoch = -1,
     base_sequence = -1, records = Records [sample_record], compression = Gzip,
     is_transactional = False, timestamp_type = CreateTime\<rparr>"

definition sample_produce :: ProduceRequest where
  "sample_produce = \<lparr>prq_transactional_id = None, prq_acks = -1, prq_timeout_ms = 1000,
     prq_topic_data = [\<lparr>prt_name = rstring_empty,
       prt_partition_data = [\<lparr>prp_index = 3, prp_records = [sample_batch]\<rparr>]\<rparr>]\<rparr>"

definition empty_sink :: sink where
  "empty_sink = \<lparr>written = [], capacity = None\<rparr>"

lemma write_sample_record:
  "write_Record zigzag_varint sample_record = Ok [16, 0, 0, 0, 1, 4, 104, 105, 0]"
  by (simp add: write_Record_def write_Record_inner_def sample_record_def write_Varint_def
      write_Varlong_def write_opt_bytes_def zigzag_varint_def zz_small write_Int8_def
      to_be_bytes_def i32_try_from_usize_def)

lemma stored_varints: "varints stored_crates = zigzag_varint"
  by (simp add: stored_crates_def)

lemma write_sample_body:
  obtains data where "write_RecordBatchBodyRef stored_crates (batch_body sample_batch) = Ok data"
    "length data = 49"
proof
  show "write_RecordBatchBodyRef stored_crates (batch_body sample_batch) =
      Ok (to_be_bytes 2 (1 :: i16) @ to_be_bytes 4 (0 :: i32) @ to_be_bytes 8 (0 :: i64) @
        to_be_bytes 8 (0 :: i64) @ to_be_bytes 8 (- 1 :: i64) @ to_be_bytes 2 (- 1 :: i16) @
        to_be_bytes 4 (- 1 :: i32) @ to_be_bytes 4 (1 :: i32) @ [16, 0, 0, 0, 1, 4, 104, 105, 0])"
    by (simp add: write_RecordBatchBodyRef_def batch_body_def sample_batch_def attributes_of_def
        write_compressed_def write_records_def stored_varints write_sample_record
        write_Int16_def write_Int32_def write_Int64_def i32_try_from_usize_def)
      (simp add: stored_crates_def)
qed simp

lemma sample_batch_at: "sample_batch\<lparr>base_offset := 7\<rparr> = sample_batch"
  by (simp add: sample_batch_def)

lemma write_sample_batch_at:
  obtains bs where "write_RecordBatch stored_crates (sample_batch\<lparr>base_offset := x\<rparr>) = Ok bs" "length bs = 70"
proof -
  obtain data where "write_RecordBatchBodyRef stored_crates (batch_body sample_batch) = Ok data"
    "length data = 49" by (rule write_sample_body)
  moreover have "batch_body (sample_batch\<lparr>base_offset := x\<rparr>) = batch_body sample_batch"
    by (simp add: batch_body_def)
  ultimately show thesis
    by (intro that [of "to_be_bytes 8 x @ to_be_bytes 4 (58 :: i32) @
        to_be_bytes 4 (partition_leader_epoch sample_batch) @ to_be_bytes 1 (2 :: i8) @
        to_be_bytes 4 (crc32c stored_crates data) @ data"])
      (simp_all add: write_RecordBatch_def write_Int64_def write_Int32_def write_Int8_def
        i32_try_from_usize_def Let_def from_to_be_bytes)
qed

lemmas write_sample_batch = write_sample_batch_at [of 7, unfolded sample_batch_at]

lemma write_sample_records_at:
  obtains bs where "write_Records stored_crates [sample_batch\<lparr>base_offset := x\<rparr>] = Ok bs" "length bs = 74"
proof -
  obtain b where "write_RecordBatch stored_crates (sample_batch\<lparr>base_offset := x\<rparr>) = Ok b" "length b = 70"
    by (rule write_sample_batch_at)
  then show thesis
    by (intro that [of "to_be_bytes 4 (70 :: i32) @ b"])
      (simp_all add: write_Records_def write_NullableBytes_def write_Int32_def
        i32_try_from_usize_def)
qed

lemmas write_sample_records = write_sample_records_at [of 7, unfolded sample_batch_at]

lemma write_sample_produce:
  obtains bs where "write_ProduceRequest stored_crates (ApiVersion 7) sample_produce = Ok bs"
    "length bs = 96"
proof -
  obtain b where b: "write_Records stored_crates [sample_batch] = Ok b" "length b = 74"
    by (rule write_sample_records)
  show thesis
    by (rule that [of "to_be_bytes 2 (- 1 :: i16) @ to_be_bytes 2 (- 1 :: i16) @
        to_be_bytes 4 (1000 :: i32) @ to_be_bytes 4 (1 :: i32) @ to_be_bytes 2 (0 :: i16) @
        to_be_bytes 4 (1 :: i32) @ to_be_bytes 4 (3 :: i32) @ b"])
      (simp_all add: write_ProduceRequest_def sample_produce_def Let_def write_NullableString_def
        write_Int16_def write_Int32_def write_versioned_array_def i32_try_from_usize_def
        write_ProduceRequestTopicData_def write_String_def i16_try_from_usize_def
        write_ProduceRequestPartitionData_def vw_def b)
qed

section \<open>From the client to the broker\<close>

text \<open>
  C1: A produce request that the client encodes in the version it negotiated and writes to the
  transport arrives: a broker that reads the frame, then the request header and then the body
  finds the API key, the negotiated version, the correlation ID and the client ID of the
  request, and exactly the topics, partitions and record batches that were sent, with nothing
  left over.
\<close>

theorem produce_end_to_end:
  assumes "record_crates K" and "wf_ranges ranges"
    and "choose_version Produce_type ranges = Ok v"
    and "encode_request client Produce_type (\<lambda>v. write_ProduceRequest K v r) v cid = Ok msg"
    and "write_message msg w = (Ok (), w')" and "written w = []" and "length msg \<le> limit"
  shows "read_message limit (written w' @ rest, e) = Some (Ok msg, (rest, e)) \<and>
    (\<exists>body. read_RequestHeader (header_version_of Produce_type v) (msg, None) =
       Ok (\<lparr>request_api_key = Produce, request_api_version = v, rqh_correlation_id = cid,
            client_id = Some (Some client), rqh_tagged_fields = None\<rparr>, (body, None)) \<and>
     broker_ProduceRequest K (body, None) = Ok (r, ([], None)))"
proof -
  have v: "in_range v (API_VERSION_RANGE Produce_type)"
    using assms(2,3) by (rule_tac choose_version_in_range(1))
      (auto simp: wf_type_def Produce_type_def version_range_def less_eq_ApiVersion_def)
  have frame: "read_message limit (written w' @ rest, e) = Some (Ok msg, (rest, e))"
    using write_message_ok [OF assms(5)] assms(6,7) by (simp add: read_message_frame)
  from assms(4) obtain body where body: "write_ProduceRequest K v r = Ok body"
    "read_RequestHeader (header_version_of Produce_type v) (msg @ [], None) =
      Ok (\<lparr>request_api_key = ApiKey_from_Int16 (Int16_from_ApiKey (API_KEY Produce_type)),
           request_api_version = v, rqh_correlation_id = cid, client_id = Some (Some client),
           rqh_tagged_fields =
             (if use_tagged_fields_in_request Produce_type v then Some [] else None)\<rparr>,
         (body @ [], None))"
    by (rule encode_request_header)
  have "\<not> use_tagged_fields_in_request Produce_type v"
    using v by (simp add: use_tagged_fields_in_request_def Produce_type_def less_eq_ApiVersion_def)
  moreover have "broker_ProduceRequest K (body @ [], None) = Ok (r, ([], None))"
    using codec_roundtrip [OF record_crates.codec_ProduceRequest [OF assms(1) v] body(1)] .
  ultimately show ?thesis
    using frame body(2) by (simp add: Produce_type_def ApiKey_from_Int16_def)
qed

lemma encode_sample_produce:
  obtains msg where "encode_request rstring_empty Produce_type
    (\<lambda>v. write_ProduceRequest stored_crates v sample_produce) (ApiVersion 7) 5 = Ok msg"
    "length msg = 106"
proof -
  obtain b where b: "write_ProduceRequest stored_crates (ApiVersion 7) sample_produce = Ok b"
    "length b = 96" by (rule write_sample_produce)
  show thesis
    by (rule that [of "to_be_bytes 2 (0 :: i16) @ to_be_bytes 2 (7 :: i16) @ to_be_bytes 4 (5 :: i32) @
        to_be_bytes 2 (0 :: i16) @ b"])
      (simp_all add: encode_request_def request_header_of_def header_version_of_def
        use_tagged_fields_in_request_def Produce_type_def less_eq_ApiVersion_def
        write_RequestHeader_def write_or_default_def write_NullableString_def write_Int16_def
        write_Int32_def i16_try_from_usize_def vw_def Let_def b)
qed

definition sample_ranges :: version_ranges where
  "sample_ranges = [Produce \<mapsto> version_range 0 9, Metadata \<mapsto> version_range 2 12]"

lemma sample_ranges_wf: "wf_ranges sample_ranges"
  by (auto simp: wf_ranges_def sample_ranges_def version_range_def less_eq_ApiVersion_def
      split: if_splits)

lemma sample_version: "choose_version Produce_type sample_ranges = Ok (ApiVersion 7)"
  by (simp add: choose_version_def sample_ranges_def Produce_type_def match_versions_def
      version_range_def less_eq_ApiVersion_def min_def)

theorem produce_end_to_end_witness:
  "\<exists>msg w'. write_message msg empty_sink = (Ok (), w') \<and>
     read_message 1000 (written w', None) = Some (Ok msg, ([], None)) \<and>
     (\<exists>h body. read_RequestHeader (ApiVersion 1) (msg, None) = Ok (h, (body, None)) \<and>
        rqh_correlation_id h = 5 \<and>
        broker_ProduceRequest stored_crates (body, None) = Ok (sample_produce, ([], None)))"
proof -
  obtain msg where msg: "encode_request rstring_empty Produce_type
    (\<lambda>v. write_ProduceRequest stored_crates v sample_produce) (ApiVersion 7) 5 = Ok msg"
    "length msg = 106" by (rule encode_sample_produce)
  have w: "write_message msg empty_sink = (Ok (), empty_sink\<lparr>written := frame_bytes msg\<rparr>)"
    using write_message_unlimited [of msg empty_sink] msg(2) by (simp add: empty_sink_def)
  have "header_version_of Produce_type (ApiVersion 7) = ApiVersion 1"
    by (simp add: header_version_of_def use_tagged_fields_in_request_def Produce_type_def
        less_eq_ApiVersion_def)
  with produce_end_to_end [OF stored.record_crates_axioms sample_ranges_wf sample_version msg(1) w,
      of 1000 "[]" None] w msg(2)
  show ?thesis by (fastforce simp: empty_sink_def)
qed

section \<open>From the producer to the consumer\<close>


lemma sample_batch_produced:
  "build_produce_request utc 3 rstring_empty [sample_client_record] CGzip =
    Ok \<lparr>prq_transactional_id = None, prq_acks = -1, prq_timeout_ms = 30000,
      prq_topic_data = [\<lparr>prt_name = rstring_empty,
        prt_partition_data = [\<lparr>prp_index = 3, prp_records = [sample_batch\<lparr>base_offset := 0\<rparr>]\<rparr>]\<rparr>]\<rparr>"
  by (simp add: build_produce_request_def produce_batch_def sub_panic_def Let_def sample_batch_def
      protocol_record_def sample_record_def sample_client_record_def utc_def utc_millis_def utc_limit_def)


text \<open>
  C8: The stream of a consumer is the log: whatever the polls and fetches, what has come out of
  it are the records of the stored batches, each once and in the order of their offsets, from
  the offset the stream was started at, up to some point.  It is assumed that the broker
  answers fetches with batches of the log, from that with the offset on, or with errors, which
  must not be that the offset is gone if the consumer was not started at a given offset.  An
  error that comes out of the stream is its last item.
\<close>

theorem consumer_streams_the_log:
  assumes "chrono_crate C exact" and "stored_log C exact 0 kept"
    and "A \<subseteq> log_behaviours C part topic kept" and "keeps_offsets A (cb_start_offset b)"
    and "consumes A (build_consumer b) items c"
  shows "(delivered items = [] \<or> (\<exists>x. begins A (cb_start_offset b) x \<and>
      prefix (delivered items) (from_offset x (log_records kept)))) \<and>
    (\<forall>xs err ys. items = xs @ [Err err] @ ys \<longrightarrow> ys = [] \<and> sc_terminated c)"
  using partition_log.stream_is_log [OF log_partition_log [OF assms(1-3)] assms(5,4)]
    consumes_after_error [OF assms(5)] by blast

theorem consumer_streams_the_log_witness:
  "\<exists>items c. consumes {sample_fetch_client} (build_consumer (consumer_builder (StartAt 8))) items c \<and>
     length (delivered items) = 1 \<and>
     prefix (delivered items) (from_offset 8 (log_records sample_log))"
proof -
  let ?c = "build_consumer (consumer_builder (StartAt 8)) :: int StreamConsumer"
  have "0 < length (from_offset 8 (log_records sample_log))"
    by (simp add: sample_log_records from_offset_def)
  with partition_log.stream_goes_on [OF log_partition_log [OF utc.chrono_crate_axioms sample_log_stored,
        of "{sample_fetch_client}" 3 rstring_empty] consumes.start, of "consumer_builder (StartAt 8)" 8
        sample_fetch_client] sample_client_behaves sample_client_answers
  obtain r w c' rest where "poll_next [sample_fetch_client] ?c = (Ready (Some (Ok (r, w))), c', rest)"
    by (auto simp: consumer_builder_def)
  from consumes.polled [OF consumes.start _ this, of "{sample_fetch_client}"]
  have "consumes {sample_fetch_client} ?c [Ok (r, w)] c'" by simp
  moreover from this consumer_streams_the_log [OF utc.chrono_crate_axioms sample_log_stored,
      of "{sample_fetch_client}" 3 rstring_empty "consumer_builder (StartAt 8)"] sample_client_behaves
  have "prefix [r] (from_offset 8 (log_records sample_log))"
    by (fastforce simp: consumer_builder_def begins_def)
  ultimately show ?thesis by (intro exI [of _ "[Ok (r, w)]"] exI [of _ c']) simp
qed

text \<open>
  It goes on for as long as the log does: when the client answers every fetch, with a record if
  there is one, then the next poll returns exactly the next record of the log.
\<close>

lemma consumer_goes_on:
  assumes "chrono_crate C exact" and "stored_log C exact 0 kept"
    and "A \<subseteq> log_behaviours C part topic kept" and "answering (log_records kept) A"
    and "consumes A (build_consumer b) items c" and "starts A (cb_start_offset b) x" and "a \<in> A"
    and "length (delivered items) < length (from_offset x (log_records kept))"
  shows "\<exists>w c' rest. poll_next [a] c =
    (Ready (Some (Ok (from_offset x (log_records kept) ! length (delivered items), w))), c', rest)"
  using partition_log.stream_goes_on [OF log_partition_log [OF assms(1-3)] assms(5,6,4,7,8)] .

section \<open>The batching producer\<close>

text \<open>
  C9: In every state that any interleaving of callers, timers, flushes, failures and answers
  leads to, a caller that got an offset from the batching producer got that of its own record:
  its record is in a batch that was written, and the offset is the one the client returned for
  that position of the batch.  No caller ever sees a panic.
\<close>

theorem caller_gets_its_offset:
  assumes "producer_reaches C part topic limit compr w"
    and "pw_callers w n = Some c" and "pc_state c = Returned r"
  shows "case r of
      Ok off \<Rightarrow> \<exists>t \<in> set (rt_tasks (pw_runtime w)). \<exists>offs. \<exists>k < length (ft_batch t).
        ft_state t = Answered (Inr offs) \<and> ft_batch t ! k = pc_input c \<and> offs ! k = off
    | Err e \<Rightarrow> True
    | Panic p \<Rightarrow> False"
proof -
  from assms(1) have "(pstep record_aggregator (partition_answers C part topic))\<^sup>*\<^sup>*
      (producer_start (RecordAggregator_new limit) compr) w"
    by (simp add: producer_reaches_def)
  from rp.caller_status [OF this ra_start assms(2,3)] show ?thesis
    by (cases r) (auto simp: own_offset_def)
qed


text \<open>
  C10: The batching producer is a queue of batches: every step of callers, timers, tasks and
  flushes is, for the batches that were handed to the client and the open one, some operations
  of a queue whose open batch is appended to or closed, and the records that are appended are
  those the step has taken.  So the batches are, one after the other and with the open one, the
  records that were taken, each once and in order, as long as the producer is not dropped.
\<close>

theorem producer_refines_batch_queue:
  assumes "producer_reaches C part topic limit compr w"
    and "pstep record_aggregator (partition_answers C part topic) w w'"
  shows "(\<exists>ops. queue_of (\<lambda>r. [r]) ra_contents (pw_inner w') (pw_runtime w') =
      fold queue_apply ops (queue_of (\<lambda>r. [r]) ra_contents (pw_inner w) (pw_runtime w)) \<and>
      pw_pushed w' = pw_pushed w @ enqueued ops) \<and>
    (\<not> pw_dropped w' \<longrightarrow>
      queue_contents (queue_of (\<lambda>r. [r]) ra_contents (pw_inner w') (pw_runtime w')) = pw_pushed w')"
proof -
  from assms(1) have reach: "(pstep record_aggregator (partition_answers C part topic))\<^sup>*\<^sup>*
      (producer_start (RecordAggregator_new limit) compr) w"
    by (simp add: producer_reaches_def)
  with assms(2) have "(pstep record_aggregator (partition_answers C part topic))\<^sup>*\<^sup>*
      (producer_start (RecordAggregator_new limit) compr) w'"
    by simp
  with rp.producer_refines [OF reach ra_start assms(2)] rp.inputs_in_order [OF _ ra_start]
  show ?thesis by blast
qed

text \<open>
  C36: No batch that is written is larger than the limit of the aggregator, in the approximate
  size of its records.
\<close>

theorem batches_within_limit:
  assumes "producer_reaches C part topic limit compr w" and "t \<in> set (rt_tasks (pw_runtime w))"
  shows "sum_list (map approximate_size (ft_batch t)) \<le> limit"
proof -
  from assms(1) have "(pstep record_aggregator (partition_answers C part topic))\<^sup>*\<^sup>*
      (producer_start (RecordAggregator_new limit) compr) w"
    by (simp add: producer_reaches_def)
  from rp.batches_fit [OF this ra_start assms(2)] show ?thesis by (simp add: batch_fits_def)
qed

text \<open>A producer with one caller, up to the end of its call.\<close>

definition sample_producer :: "int record_producer" where
  "sample_producer = producer_start (RecordAggregator_new 100) CGzip"

definition sample_waiting :: "int record_producer" where
  "sample_waiting = produce_call record_aggregator 0 sample_client_record sample_producer"

definition sample_flushed :: "int record_producer" where
  "sample_flushed = linger_call record_aggregator 0 (the (pw_callers sample_waiting 0)) 0 sample_waiting"

definition sample_answered :: "int record_producer" where
  "sample_answered = sample_flushed\<lparr>pw_runtime :=
     (case task_answered 0 (Inr [7]) (pw_runtime sample_flushed) of Ok rt \<Rightarrow> rt)\<rparr>"

lemmas sample_producer_simps = sample_producer_def sample_waiting_def sample_flushed_def
  sample_answered_def producer_start_def ProducerInner_new_def bb_new_def produce_call_def
  inner_try_push_def inner_push_def bb_try_push_def caller_role_def inner_flush_def
  background_flush_def next_batch_def linger_call_def set_caller_def set_locked_def
  RecordAggregator_new_def record_aggregator_def ra_try_push_def ra_flush_def approximate_size_def
  sample_client_record_def task_answered_def rt_broadcast_def end_task_def broadcast_def
  broadcast_default_def broadcast_drop_def Let_def

lemma sample_waiting_caller: "pw_callers sample_waiting 0 = Some \<lparr>pc_input = sample_client_record,
    pc_state = Waiting \<lparr>h_receiver = 0, h_tag = 0\<rparr>, pc_linger = LingerRunning 0\<rparr>"
  by (simp add: sample_producer_simps)

lemma sample_flushed_caller: "pw_callers sample_flushed 0 = Some \<lparr>pc_input = sample_client_record,
    pc_state = Waiting \<lparr>h_receiver = 0, h_tag = 0\<rparr>, pc_linger = LingerDone None\<rparr>"
  by (simp add: sample_producer_simps)

lemma sample_flushed_task: "rt_tasks (pw_runtime sample_flushed) = [\<lparr>ft_batch = [sample_client_record],
    ft_compression = CGzip, ft_deagg = (), ft_channel = 0, ft_state = Running\<rparr>]"
  by (simp add: sample_producer_simps)

lemma sample_answer: "task_answered 0 (Inr [7]) (pw_runtime sample_flushed) = Ok (pw_runtime sample_answered)"
  by (simp add: sample_producer_simps)

lemma sample_answered_channel: "sh_data (rt_channels (pw_runtime sample_answered) ! 0) =
    Some (Inr (Inr \<lparr>aggregated_status = [7], status_deagg = ()\<rparr>))"
  by (simp add: sample_producer_simps write_result_def)

lemma sample_partition_answers: "partition_answers utc 3 rstring_empty [sample_client_record] CGzip (Inr [7])"
proof -
  let ?response = "\<lparr>psr_responses = [\<lparr>pst_name = rstring_empty, pst_partition_responses =
    [\<lparr>psp_index = 3, psp_error = None, psp_base_offset = 7, psp_log_append_time_ms = None,
      psp_log_start_offset = None\<rparr>]\<rparr>], psr_throttle_time_ms = None\<rparr>"
  have "produce_result utc 3 rstring_empty [sample_client_record] CGzip ?response = Ok [7]"
    by (simp add: produce_result_def sample_batch_produced process_produce_response_def only_one_def
        exactly_one_def add_panic_def checked_add_def)
  then show ?thesis unfolding partition_answers_def by auto
qed

lemma sample_step_flushed:
  "pstep record_aggregator (partition_answers utc 3 rstring_empty) sample_waiting sample_flushed"
  unfolding sample_flushed_def
  by (rule pstep.linger) (simp_all add: sample_waiting_caller)

lemma sample_steps:
  "producer_reaches utc 3 rstring_empty 100 CGzip sample_waiting"
  "producer_reaches utc 3 rstring_empty 100 CGzip sample_flushed"
  "producer_reaches utc 3 rstring_empty 100 CGzip sample_answered"
proof -
  let ?step = "pstep record_aggregator (partition_answers utc 3 rstring_empty)"
  have "?step sample_producer sample_waiting"
    unfolding sample_waiting_def by (rule pstep.produce) (simp_all add: sample_producer_simps)
  then have 1: "?step\<^sup>*\<^sup>* sample_producer sample_waiting" by (rule r_into_rtranclp)
  with sample_step_flushed have 2: "?step\<^sup>*\<^sup>* sample_producer sample_flushed" by simp
  have "?step sample_flushed (sample_flushed\<lparr>pw_runtime := pw_runtime sample_answered\<rparr>)"
    using sample_partition_answers sample_answer
    by (intro pstep.answered [where k = 0 and t = "\<lparr>ft_batch = [sample_client_record],
        ft_compression = CGzip, ft_deagg = (), ft_channel = 0, ft_state = Running\<rparr>" and a = "Inr [7]"])
      (simp_all add: sample_flushed_task)
  then have "?step sample_flushed sample_answered" by (simp add: sample_answered_def)
  with 2 have "?step\<^sup>*\<^sup>* sample_producer sample_answered" by simp
  with 1 2 show "producer_reaches utc 3 rstring_empty 100 CGzip sample_waiting"
    "producer_reaches utc 3 rstring_empty 100 CGzip sample_flushed"
    "producer_reaches utc 3 rstring_empty 100 CGzip sample_answered"
    by (simp_all add: producer_reaches_def sample_producer_def)
qed

theorem caller_gets_its_offset_witness:
  "\<exists>w c t. producer_reaches utc 3 rstring_empty 100 CGzip w \<and> pw_callers w 0 = Some c \<and>
     pc_state c = Returned (Ok 7) \<and> t \<in> set (rt_tasks (pw_runtime w)) \<and>
     sample_client_record \<in> set (ft_batch t)"
proof -
  let ?c = "the (pw_callers sample_answered 0)"
  let ?c' = "?c\<lparr>pc_state := Returned (Ok 7)\<rparr>"
  have c: "pw_callers sample_answered 0 = Some ?c" "pc_state ?c = Waiting \<lparr>h_receiver = 0, h_tag = 0\<rparr>"
    "pc_input ?c = sample_client_record"
    using sample_flushed_caller by (simp_all add: sample_answered_def)
  have h: "handle_received record_aggregator \<lparr>h_receiver = 0, h_tag = 0\<rparr>
      (Inr (Inr \<lparr>aggregated_status = [7], status_deagg = ()\<rparr>)) = Ok 7"
    by (simp add: handle_received_def handle_result_def record_aggregator_def ra_deaggregate_def)
  have "sh_data (rt_channels (pw_runtime sample_answered) ! h_receiver \<lparr>h_receiver = 0, h_tag = 0 :: nat\<rparr>) =
      Some (Inr (Inr \<lparr>aggregated_status = [7], status_deagg = ()\<rparr>))"
    by (simp add: sample_answered_channel)
  from pstep.received [OF c(1,2) this, of record_aggregator "partition_answers utc 3 rstring_empty"]
  have "pstep record_aggregator (partition_answers utc 3 rstring_empty) sample_answered
      (set_caller 0 ?c' sample_answered)"
    unfolding h .
  with sample_steps(3) have reach: "producer_reaches utc 3 rstring_empty 100 CGzip (set_caller 0 ?c' sample_answered)"
    unfolding producer_reaches_def by (rule rtranclp.rtrancl_into_rtrancl)
  let ?w = "set_caller 0 ?c' sample_answered"
  have at: "pw_callers ?w 0 = Some ?c'" by (simp add: set_caller_def)
  have "pc_state ?c' = Returned (Ok 7)" by simp
  from caller_gets_its_offset [OF reach at this] c(3) obtain t k where
    "t \<in> set (rt_tasks (pw_runtime ?w))" "k < length (ft_batch t)" "ft_batch t ! k = sample_client_record"
    by auto
  then have "t \<in> set (rt_tasks (pw_runtime ?w)) \<and> sample_client_record \<in> set (ft_batch t)"
    using nth_mem [of k "ft_batch t"] by simp
  with reach at \<open>pc_state ?c' = Returned (Ok 7)\<close> show ?thesis by blast
qed


theorem producer_refines_batch_queue_witness:
  "pw_pushed sample_flushed = [sample_client_record] \<and>
   queue_contents (queue_of (\<lambda>r. [r]) ra_contents (pw_inner sample_flushed) (pw_runtime sample_flushed)) =
     [sample_client_record]"
proof -
  have "pw_pushed sample_flushed = [sample_client_record]" "\<not> pw_dropped sample_flushed"
    by (simp_all add: sample_producer_simps)
  with producer_refines_batch_queue [OF sample_steps(1) sample_step_flushed] show ?thesis by simp
qed

theorem batches_within_limit_witness:
  "\<exists>t \<in> set (rt_tasks (pw_runtime sample_flushed)). ft_batch t = [sample_client_record] \<and>
     sum_list (map approximate_size (ft_batch t)) \<le> 100"
  using batches_within_limit [OF sample_steps(2)] by (simp add: sample_flushed_task)

section \<open>Retries and caches\<close>

text \<open>
  C26: With a deadline every request of a client comes to an end, as long as its attempts do and
  the broker does not throttle it: after finitely many failures the deadline is exceeded.  A
  broker that throttles every attempt keeps the request waiting forever, whatever the deadline.
\<close>

theorem requests_end_by_deadline:
  assumes "rand_crate draw" and "sound_config config" and "cfg_deadline config = Some deadline"
  shows "((\<forall>w. \<exists>r w'. f w = Some (r, w') \<and> (\<forall>t. r \<noteq> Err (Throttle t))) \<longrightarrow>
      (\<exists>r w'. maybe_retry draw sleep config policy invalidate f w = Some (r, w'))) \<and>
    ((\<forall>w. \<exists>t w'. f w = Some (Err (Throttle t), w')) \<longrightarrow>
      maybe_retry draw sleep config policy invalidate f w = None)"
  using maybe_retry_returns [OF assms, of f sleep policy invalidate w] maybe_retry_throttled [of f]
  by auto

theorem requests_end_by_deadline_witness:
  "\<exists>r w. maybe_retry draw_middle (\<lambda>_ w. w) (default_backoff\<lparr>cfg_deadline := Some 60\<rparr>)
     controller_verdict (\<lambda>_ w. w) (\<lambda>w. Some (Err (Error (Timeout, None)), w)) (0 :: nat) =
     Some (r, w :: nat) \<and> (r :: unit client_result) \<noteq> Ok ()"
proof -
  let ?f = "\<lambda>w :: nat. Some (Err (Error (Timeout, None)) :: (attempt_error, unit) outcome, w)"
  have "sound_config (default_backoff\<lparr>cfg_deadline := Some 60\<rparr>)"
    by (simp add: sound_config_def default_backoff_def)
  from requests_end_by_deadline [OF middle.rand_crate_axioms this, of 60 ?f "\<lambda>_ w. w" controller_verdict "\<lambda>_ w. w" 0]
  obtain r w where run: "maybe_retry draw_middle (\<lambda>_ w. w) (default_backoff\<lparr>cfg_deadline := Some 60\<rparr>)
      controller_verdict (\<lambda>_ w. w) ?f 0 = Some (r, w)"
    by auto
  with maybe_retry_ends [OF run] show ?thesis by auto
qed




text \<open>
  C23: A partition client works with a leader that agrees: when it has no connection and gets
  one, that is a connection to the broker which the metadata of the cluster names as the leader,
  and that broker itself has answered, over this connection, that it is the leader.  The
  connection is cached under a new generation.
\<close>

theorem leader_is_confirmed:
  assumes "partition_get nw topic part (b, s) = Some (Ok (broker, gen), (b', s'))"
  shows "cb_broker b' = Some broker \<and> gen = cb_gen_broker b' \<and>
    (cb_broker b = None \<longrightarrow> (\<exists>leader bk s1 s2 m.
       get_broker (cn_topology s1) leader = Some bk \<and> nw_connect nw (Topology bk) s1 = Some (Ok broker, s2) \<and>
       request_metadata nw (SpecificBroker broker) (Some [topic]) s2 = Some (Ok (m, None), s') \<and>
       leader_of topic part m = Ok leader \<and> gen = cb_gen_broker b + 1))"
  using partition_get_Ok [OF assms] .

text \<open>
  C25: Giving up a connection never drops another one: after any sequence of connections and
  invalidations, by any users, an invalidation with the generation that a user has got with a
  connection removes exactly that connection if it is still cached, and nothing otherwise.
\<close>

theorem stale_invalidation_is_harmless:
  assumes "cache_history partition_cached partition_cache_gen partition_cache_store partition_invalidate w H"
    and "(gen, v) \<in> H"
  shows "partition_cached (partition_invalidate gen w) =
    (if partition_cached w = Some v \<and> gen = partition_cache_gen w then None else partition_cached w)"
  using leader.invalidate_own [OF assms] .

text \<open>
  C37: The topology is a map from broker IDs to brokers: updating it with the brokers of a
  metadata response keeps it well formed, and gives every ID in the response its last entry
  there, and leaves the others as they are.
\<close>

theorem topology_is_a_map:
  assumes "topology_inv t"
  shows "topology_inv (topology_update t bs) \<and>
    get_broker (topology_update t bs) k =
      (case find (\<lambda>b. mrb_node_id b = k) (rev bs) of
         Some b \<Rightarrow> Some (broker_from b)
       | None \<Rightarrow> get_broker t k)"
  using topology_update_map [OF assms, of bs] map_of_find [of bs k]
  by (simp add: get_broker_def map_add_def split: option.splits)

text \<open>A network of one broker, which is the leader.\<close>

definition sample_metadata :: MetadataResponse where
  "sample_metadata = \<lparr>msr_throttle_time_ms = None,
     msr_brokers = [\<lparr>mrb_node_id = 1, mrb_host = rstring_empty, mrb_port = 9092, mrb_rack = None\<rparr>],
     msr_cluster_id = None, msr_controller_id = Some 1,
     msr_topics = [\<lparr>mst_error = None, mst_name = rstring_empty, mst_is_internal = None,
       mst_partitions = [\<lparr>mrp_error = None, mrp_partition_index = 3, mrp_leader_id = 1,
         mrp_replica_nodes = None, mrp_isr_nodes = None\<rparr>]\<rparr>]\<rparr>"

definition sample_network :: "(i32, unit) network" where
  "sample_network = \<lparr>nw_connect = (\<lambda>b s. Some (Ok (case representation_id b of Some i \<Rightarrow> i | None \<Rightarrow> 0), s)),
     nw_metadata = (\<lambda>c request s. (Ok sample_metadata, s)), nw_shuffle = (\<lambda>bs s. (bs, s)),
     nw_draw = draw_middle, nw_sleep = (\<lambda>d s. s)\<rparr>"

definition sample_connector :: "(i32, unit) connector" where
  "sample_connector =
     remember_response (metadata_request None) sample_metadata (connector_new [] (builder_settings (ClientBuilder_new [])) default_backoff ())"

lemma sample_metadata_request:
  "metadata_request_with_retry sample_network (SpecificBroker c) request b s = Some (Ok sample_metadata, s)"
  by (subst metadata_request_with_retry_def, subst retry_with_backoff.simps)
    (simp add: metadata_attempt_def metadata_broker_def sample_network_def sample_metadata_def
      maybe_throttle_def u64_try_from_i32_def)

lemma sample_partition_get:
  "\<exists>b' s'. partition_get sample_network rstring_empty 3 (current_broker_start, sample_connector) =
     Some (Ok (1, 1), (b', s'))"
proof -
  have hit: "metadata_get (Some [rstring_empty]) (cn_cached_metadata sample_connector) =
      (Some (sample_metadata, 1), cn_cached_metadata sample_connector)"
    by (simp add: metadata_get_def sample_connector_def remember_response_def metadata_request_def
        connector_new_def metadata_update_def metadata_cache_default_def sample_metadata_def Let_def)
  have leader: "leader_of rstring_empty 3 sample_metadata = Ok 1"
    by (simp add: leader_of_def sample_metadata_def only_one_def exactly_one_def)
  have "get_leader sample_network rstring_empty 3 CachedArbitrary sample_connector =
      Some (Ok (1, Some 1), sample_connector)"
    using leader by (simp add: get_leader_def request_metadata_def hit)
  moreover have "connector_connect sample_network 1 sample_connector = Some (Ok (Some 1), sample_connector)"
    by (simp add: connector_connect_def get_broker_def sample_connector_def remember_response_def
        metadata_request_def connector_new_def topology_update_def topology_entry_def
        sample_metadata_def broker_from_def sample_network_def)
  moreover have "\<exists>s. get_leader sample_network rstring_empty 3 (SpecificBroker 1) sample_connector =
      Some (Ok (1, None), s)"
    using leader by (simp add: get_leader_def request_metadata_def sample_metadata_request)
  ultimately show ?thesis
    by (auto simp: partition_get_def connect_leader_def current_broker_start_def partition_store_def)
qed

theorem leader_is_confirmed_witness:
  "\<exists>m s s'. request_metadata sample_network (SpecificBroker 1) (Some [rstring_empty]) s = Some (Ok (m, None), s') \<and>
     leader_of rstring_empty 3 m = Ok 1"
proof -
  obtain b' s' where got: "partition_get sample_network rstring_empty 3 (current_broker_start, sample_connector) =
     Some (Ok (1, 1), (b', s'))"
    using sample_partition_get by blast
  from leader_is_confirmed [OF got] obtain leader bk s1 s2 m where
    "nw_connect sample_network (Topology bk) s1 = Some (Ok 1, s2)" "get_broker (cn_topology s1) leader = Some bk"
    "request_metadata sample_network (SpecificBroker 1) (Some [rstring_empty]) s2 = Some (Ok (m, None), s')"
    "leader_of rstring_empty 3 m = Ok leader"
    by (auto simp: current_broker_start_def)
  moreover from this(3) have "m = sample_metadata"
    by (auto simp: request_metadata_def sample_metadata_request)
  moreover have "leader_of rstring_empty 3 sample_metadata = Ok 1"
    by (simp add: leader_of_def sample_metadata_def only_one_def exactly_one_def)
  ultimately show ?thesis by blast
qed

theorem stale_invalidation_is_harmless_witness:
  "partition_cached (partition_invalidate 1 (partition_cache_store (8 :: i32, None, None)
     (partition_cache_store (7, None, None) (current_broker_start, sample_connector)))) = Some (8, None, None)"
proof -
  let ?w = "(current_broker_start, sample_connector)"
  let ?w2 = "partition_cache_store (8 :: i32, None, None) (partition_cache_store (7, None, None) ?w)"
  have "partition_cached ?w = None" by (simp add: partition_cached_def current_broker_start_def)
  from cache_history.stored [OF cache_history.stored [OF cache_history.start [of partition_cached, OF this]],
      of partition_cache_gen partition_cache_store partition_invalidate "(8, None, None)" "(7, None, None)"]
  have "cache_history partition_cached partition_cache_gen partition_cache_store partition_invalidate ?w2
      {(2, (8, None, None)), (1, (7, None, None))}"
    by (simp add: partition_cache_gen_def partition_cache_store_def partition_store_def
        current_broker_start_def numeral_2_eq_2)
  from stale_invalidation_is_harmless [OF this, of 1 "(7, None, None)"] show ?thesis
    by (simp add: partition_cached_def partition_cache_store_def partition_store_def)
qed

theorem topology_is_a_map_witness:
  "get_broker (topology_update [] (msr_brokers sample_metadata)) 1 =
     Some \<lparr>br_id = 1, br_host = rstring_empty, br_port = 9092\<rparr>"
proof -
  have "topology_inv []" by (simp add: topology_inv_def)
  from topology_is_a_map [OF this, of "msr_brokers sample_metadata" 1] show ?thesis
    by (simp add: sample_metadata_def broker_from_def)
qed

text \<open>A partition client that is connected.\<close>

definition sample_client :: partition_client where
  "sample_client = \<lparr>pcl_topic = rstring_empty, pcl_partition = 3, pcl_backoff_config = default_backoff,
     pcl_unknown_topic_handling = HandleRetry\<rparr>"



section \<open>The partition client and a broker\<close>


text \<open>An empty partition, a record that is produced, and a broker that sends one batch at a time.\<close>

definition sample_connection :: "unit connection" where
  "sample_connection = \<lparr>co_transport = (), co_max_message_size = 100000, co_client_id = rstring_empty,
     co_version_ranges = [Produce \<mapsto> version_range 0 9, Fetch \<mapsto> version_range 0 13,
       ListOffsets \<mapsto> version_range 0 7]\<rparr>"

definition sample_linked :: "(unit connection, (unit, kept) wires) partition_world" where
  "sample_linked = (current_broker_start\<lparr>cb_broker := Some sample_connection\<rparr>,
     connector_new [] (builder_settings (ClientBuilder_new [])) default_backoff
       \<lparr>wi_messengers = (\<lambda>_. messenger_new rstring_empty ([], None) None),
        wi_peer = \<lparr>kb_batches = [], kb_next = 0\<rparr>\<rparr>)"

definition sample_cluster :: "unit cluster" where
  "sample_cluster = \<lparr>cl_node = (\<lambda>_. 1), cl_keys = [], cl_brokers = [], cl_leader = 1\<rparr>"

lemma sample_cluster: "cl_node sample_cluster x = cl_leader sample_cluster"
  by (simp add: sample_cluster_def)

abbreviation sample_peer :: "(unit, kept) peer" where
  "sample_peer \<equiv> cluster_peer stored_crates (\<lambda>_ _. 1) sample_cluster (pcl_topic sample_client) (pcl_partition sample_client)"

lemma sample_serves: "serves_log stored_crates (\<lambda>_ _. 1) (pcl_topic sample_client) (pcl_partition sample_client)
    sample_peer (co_transport sample_connection)"
  by (rule cluster_serves_log [OF sample_cluster])

lemma sample_linked: "linked sample_connection sample_linked" "holds C exact (peer_of sample_linked) []"
  by (simp_all add: linked_def sample_linked_def ready_def messenger_new_def sample_connection_def connector_new_def
      holds_def)

lemma sample_linked_versions:
  "wf_ranges (co_version_ranges sample_connection)"
  "choose_version Produce_type (co_version_ranges sample_connection) = Ok (ApiVersion 7)"
  "choose_version Fetch_type (co_version_ranges sample_connection) = Ok (ApiVersion 4)"
  "choose_version ListOffsets_type (co_version_ranges sample_connection) = Ok (ApiVersion 3)"
  by (auto simp: sample_connection_def wf_ranges_def choose_version_def Produce_type_def Fetch_type_def
      ListOffsets_type_def match_versions_def version_range_def less_eq_ApiVersion_def min_def split: if_splits)


lemma sample_small:
  "2 ^ 16 \<le> co_max_message_size sample_connection" "length (as_bytes (pcl_topic sample_client)) < 2 ^ 15"
  "length (as_bytes (co_client_id sample_connection)) < 2 ^ 15"
  by (simp_all add: sample_connection_def sample_client_def)








text \<open>A broker with one record.\<close>

definition sample_broker :: kept where
  "sample_broker = keep_batch (sample_batch\<lparr>base_offset := 0\<rparr>) \<lparr>kb_batches = [], kb_next = 0\<rparr>"



lemma sample_broker_holds: "holds utc utc_exact sample_broker [sample_client_record]"
proof -
  have "produce_batch utc [sample_client_record] CGzip = Ok (sample_batch\<lparr>base_offset := 0\<rparr>)"
    using sample_batch_produced by (auto simp: build_produce_request_def)
  with keep_batch_holds [OF sample_linked(2), of utc "[sample_client_record]"] sample_sendable show ?thesis
    by (simp add: sample_broker_def sample_linked_def connector_new_def)
qed

lemma sample_broker_deliverable:
  "deliverable stored_crates (\<lambda>_ _. 1) (co_max_message_size sample_connection) max_bytes sample_broker"
proof -
  obtain bs where "write_Records stored_crates [sample_batch\<lparr>base_offset := 0\<rparr>] = Ok bs" "length bs = 74"
    by (rule write_sample_records_at)
  moreover have "\<exists>bs. write_Records stored_crates [] = Ok bs \<and> length bs = 4"
    by (simp add: write_Records_def write_NullableBytes_def write_Int32_def i32_try_from_usize_def)
  ultimately show ?thesis
    by (auto simp: deliverable_def sample_broker_def keep_batch_def sample_connection_def Let_def)
qed

interpretation sample_wire: log_states "wire_offsets sample_peer nw sample_client"
  "wire_fetch stored_crates sample_peer nw utc sample_client"
  "\<lambda>w. linked sample_connection w \<and> peer_of w = sample_broker" "at_offsets 0 0 [sample_client_record]" 0
  "of_nat (length [sample_client_record])" for nw :: "(unit connection, (unit, kept) wires) network"
  by (rule wire_log_states [OF stored.record_crates_axioms utc.chrono_crate_axioms sample_linked_versions(1)
      sample_broker_holds sample_small sample_linked_versions(3,4) sample_broker_deliverable sample_serves])
















section \<open>Record batches\<close>

text \<open>
  C2: A sequence of record batches that was written, with any compression of each batch, is
  read back unchanged, and the reader stops right behind it.
\<close>

theorem records_roundtrip:
  assumes "record_crates K" and "write_Records K rs = Ok bs"
  shows "read_Records K (bs @ rest, e) = Ok (rs, (rest, e))"
  using codec_roundtrip [OF record_crates.codec_Records [OF assms(1)] assms(2)] .

theorem records_roundtrip_witness:
  "\<exists>bs. write_Records stored_crates [sample_batch] = Ok bs \<and>
     read_Records stored_crates (bs @ [1, 2], None) = Ok ([sample_batch], ([1, 2], None))"
proof -
  obtain bs where bs: "write_Records stored_crates [sample_batch] = Ok bs" "length bs = 74"
    by (rule write_sample_records)
  from records_roundtrip [OF stored.record_crates_axioms bs(1)] bs(1) show ?thesis by blast
qed

text \<open>
  C12: When the bytes of a fetch end inside a batch, as they do when the broker cuts a response
  off at the requested size, the reader returns exactly the complete batches before it.  A fetch
  response that is itself cut off anywhere is reported as an unexpected end of file; it is never
  taken for a shorter response.
\<close>

theorem fetches_cut_off:
  assumes "record_crates K"
  shows "(\<forall>rs r buf bs k bytes rest e. wconcat (write_RecordBatch K) rs = Ok buf \<longrightarrow>
      write_RecordBatch K r = Ok bs \<longrightarrow> k < length bs \<longrightarrow>
      write_NullableBytes (Some (buf @ take k bs)) = Ok bytes \<longrightarrow>
      read_Records K (bytes @ rest, e) = Ok (rs, (rest, e))) \<and>
    (\<forall>v p rest e x k. in_range v (API_VERSION_RANGE Fetch_type) \<longrightarrow>
      read_FetchResponse K v (p @ rest, e) = Ok (x, (rest, e)) \<longrightarrow> k < length p \<longrightarrow>
      read_FetchResponse K v (take k p, None) = Err (IO UnexpectedEof))"
proof -
  have "response_stream (read_FetchResponse K) Fetch_type"
    using record_crates.response_reader_Fetch [OF assms] by (simp add: response_reader_def)
  from response_stream.cut_off [OF this] record_crates.read_Records_cut [OF assms] show ?thesis by blast
qed

theorem fetches_cut_off_witness:
  "(\<exists>buf bytes. write_RecordBatch stored_crates sample_batch = Ok buf \<and>
     write_NullableBytes (Some (buf @ take 69 buf)) = Ok bytes \<and>
     read_Records stored_crates (bytes, None) = Ok ([sample_batch], ([], None))) \<and>
   (\<exists>x. read_FetchResponse stored_crates (ApiVersion 4) (replicate 8 0, None) = Ok (x, ([], None)) \<and>
     read_FetchResponse stored_crates (ApiVersion 4) (replicate 5 0, None) = Err (IO UnexpectedEof))"
proof
  note cut = fetches_cut_off [OF stored.record_crates_axioms]
  obtain buf where buf: "write_RecordBatch stored_crates sample_batch = Ok buf" "length buf = 70"
    by (rule write_sample_batch)
  then have all: "wconcat (write_RecordBatch stored_crates) [sample_batch] = Ok buf" by simp
  obtain bytes where bytes: "write_NullableBytes (Some (buf @ take 69 buf)) = Ok bytes"
    using buf(2) by (simp add: write_NullableBytes_def write_Int32_def i32_try_from_usize_def)
  have "69 < length buf" using buf(2) by simp
  from cut [THEN conjunct1, rule_format, OF all buf(1) this bytes, of "[]" None] buf(1) bytes
  show "\<exists>buf bytes. write_RecordBatch stored_crates sample_batch = Ok buf \<and>
     write_NullableBytes (Some (buf @ take 69 buf)) = Ok bytes \<and>
     read_Records stored_crates (bytes, None) = Ok ([sample_batch], ([], None))" by auto
  have "read_FetchResponse stored_crates (ApiVersion 4) (replicate 8 0 @ [], None) =
      Ok (\<lparr>fsr_throttle_time_ms = Some 0, fsr_responses = []\<rparr>, ([], None))"
    by (simp add: read_FetchResponse_def read_versioned_array_def read_Int32_def or_empty_def
        numeral_eq_Suc usize_try_from_signed_def)
  from this cut [THEN conjunct2, rule_format, OF _ this, of 5]
  show "\<exists>x. read_FetchResponse stored_crates (ApiVersion 4) (replicate 8 0, None) = Ok (x, ([], None)) \<and>
     read_FetchResponse stored_crates (ApiVersion 4) (replicate 5 0, None) = Err (IO UnexpectedEof)"
    by (simp add: Fetch_type_def)
qed

text \<open>
  C11: Damage to the checked part of a batch is reported as a checksum error, unless the damaged
  data happens to have the checksum of the original: it is never returned as records.
\<close>

theorem batch_damage_detected:
  assumes "record_crates K" and "write_RecordBatch K r = Ok bs"
    and "write_RecordBatchBodyRef K (batch_body r) = Ok data"
    and "length damaged = length data" and "crc32c K damaged \<noteq> crc32c K data"
  shows "read_RecordBatch K (take (length bs - length data) bs @ damaged @ rest, e) =
    Err (Malformed (CrcMismatch (crc32c K damaged) (crc32c K data)))"
  using record_crates.read_RecordBatch_damaged [OF assms] .

text \<open>Damage in the last byte changes a checksum that is the sum of the bytes.\<close>

definition summing_crates :: crates where
  "summing_crates = stored_crates\<lparr>crc32c := (\<lambda>bs. \<Sum>b\<leftarrow>bs. ucast b)\<rparr>"

lemma record_crates_crc: "record_crates (K\<lparr>crc32c := f\<rparr>) = record_crates K"
  by (simp add: record_crates_def record_crates_axioms_def)

theorem batch_damage_detected_witness:
  "\<exists>bs data. write_RecordBatch summing_crates (sample_batch\<lparr>records := Records []\<rparr>) = Ok bs \<and>
     length data = 40 \<and>
     read_RecordBatch summing_crates (take 21 bs @ butlast data @ [1], None) =
       Err (Malformed (CrcMismatch (crc32c summing_crates (butlast data @ [1]))
         (crc32c summing_crates data)))"
proof -
  let ?r = "sample_batch\<lparr>records := Records []\<rparr>"
  have zero: "to_be_bytes 4 (0 :: i32) = [0, 0, 0, 0]" by (simp add: to_be_bytes_def upt_rec)
  define p where "p = to_be_bytes 2 (1 :: i16) @ to_be_bytes 4 (0 :: i32) @ to_be_bytes 8 (0 :: i64) @
    to_be_bytes 8 (0 :: i64) @ to_be_bytes 8 (- 1 :: i64) @ to_be_bytes 2 (- 1 :: i16) @
    to_be_bytes 4 (- 1 :: i32) @ [0, 0, 0]"
  have p: "write_RecordBatchBodyRef summing_crates (batch_body ?r) = Ok (p @ [0])" "length p = 39"
    by (simp_all add: write_RecordBatchBodyRef_def batch_body_def sample_batch_def attributes_of_def
        write_compressed_def write_records_def summing_crates_def stored_crates_def
        write_Int16_def write_Int32_def write_Int64_def i32_try_from_usize_def zero p_def)
  define bs where "bs = to_be_bytes 8 (base_offset ?r) @ to_be_bytes 4 (49 :: i32) @
    to_be_bytes 4 (partition_leader_epoch ?r) @ to_be_bytes 1 (2 :: i8) @
    to_be_bytes 4 (crc32c summing_crates (p @ [0])) @ p @ [0]"
  have bs: "write_RecordBatch summing_crates ?r = Ok bs"
    using p by (simp add: write_RecordBatch_def write_Int64_def write_Int32_def write_Int8_def
        i32_try_from_usize_def Let_def from_to_be_bytes bs_def)
  have K: "record_crates summing_crates"
    using stored.record_crates_axioms by (simp add: summing_crates_def record_crates_crc)
  have "crc32c summing_crates (p @ [1]) \<noteq> crc32c summing_crates (p @ [0])"
    by (simp add: summing_crates_def)
  from batch_damage_detected [OF K bs p(1) _ this, of "[]" None]
  have "read_RecordBatch summing_crates (take (length bs - 40) bs @ p @ [1], None) =
    Err (Malformed (CrcMismatch (crc32c summing_crates (p @ [1])) (crc32c summing_crates (p @ [0]))))"
    using p(2) by simp
  moreover have "length bs - 40 = 21" using p(2) by (simp add: bs_def)
  ultimately show ?thesis
    using bs p(2) by (intro exI [of _ bs] exI [of _ "p @ [0]"]) simp
qed

section \<open>Responses\<close>






section \<open>The messenger\<close>

text \<open>
  C16: In every state that any interleaving of calls, cancellations, transport failures and
  broker messages can lead to, a call that has returned a response has returned one with its
  own correlation ID.
\<close>

theorem responses_are_correlated:
  assumes "reachable max_message_size w" and "calls w r = Some c"
    and "c_phase c = Finished (Ok resp)"
  shows "rsh_correlation_id (resp_header resp) = c_cid c"
  using finished_answers [OF assms] .

text \<open>
  C17: As long as not more than \<open>2 ^ 32\<close> calls have been made, the channel of a call that waits
  is never closed without an answer, so that \<open>expect("Who closed this channel?!")\<close> does not
  fail: either the answer is there, or the sender is registered under the ID of the call.
\<close>

theorem waiting_call_is_served:
  assumes "reachable max_message_size w" and "allocated w \<le> 2 ^ 32"
    and "calls w r = Some c" and "is_waiting (c_phase c)"
  shows "c_chan c \<noteq> Closed \<and>
    (c_chan c = Empty \<longrightarrow> (\<exists>ar. (c_cid c, ar) \<in> set (entries w) \<and> ar_channel ar = r))"
  using invD(5) [OF reachable_minv [OF assms(1)] assms(2)] assms(3,4)
  by (simp add: inv_served_def Messenger_Steps.served_def)



text \<open>A run of the messenger: one call, whose response arrives.\<close>

definition run_body :: "ApiVersion \<Rightarrow> vwres" where
  "run_body v = write_MetadataRequest v \<lparr>mrq_topics = None, mrq_allow_auto_topic_creation = None\<rparr>"

definition run_bytes :: "u8 list" where
  "run_bytes = [0, 3, 0, 4, 0, 0, 0, 0, 0, 0, 255, 255, 255, 255, 1]"

lemma run_bytes_eq: "run_bytes = to_be_bytes 2 (3 :: i16) @ to_be_bytes 2 (4 :: i16) @
    to_be_bytes 4 (0 :: i32) @ to_be_bytes 2 (0 :: i16) @ to_be_bytes 4 (- 1 :: i32) @ [1]"
  by code_simp

lemma encode_run: "encode_request rstring_empty Metadata_type run_body (ApiVersion 4) 0 = Ok run_bytes"
  by (simp add: encode_request_def request_header_of_def header_version_of_def
      use_tagged_fields_in_request_def Metadata_type_def less_eq_ApiVersion_def
      write_RequestHeader_def write_or_default_def write_NullableString_def write_Int16_def
      write_Int32_def i16_try_from_usize_def vw_def Let_def run_body_def write_MetadataRequest_def
      write_versioned_array_def write_Boolean_def run_bytes_eq)

lemma run_version: "choose_version Metadata_type sample_ranges = Ok (ApiVersion 4)"
  by (simp add: choose_version_def sample_ranges_def Metadata_type_def match_versions_def
      version_range_def less_eq_ApiVersion_def min_def)

definition run_call :: "phase \<Rightarrow> channel \<Rightarrow> call" where
  "run_call ph ch = \<lparr>c_cid = 0, c_type = Metadata_type, c_body = run_body, c_version = ApiVersion 4,
     c_phase = ph, c_chan = ch\<rparr>"

lemma run_call_simps [simp]:
  "(run_call ph ch)\<lparr>c_phase := ph'\<rparr> = run_call ph' ch" "c_phase (run_call ph ch) = ph"
  "(run_call ph ch)\<lparr>c_chan := ch'\<rparr> = run_call ph ch'" "c_chan (run_call ph ch) = ch"
  "c_cid (run_call ph ch) = 0" "\<not> c_tagged (run_call ph ch)"
  by (simp_all add: run_call_def c_tagged_def use_tagged_fields_in_response_def Metadata_type_def
      less_eq_ApiVersion_def)

lemma new_run_call: "new_call Metadata_type run_body (ApiVersion 4) 0 = run_call Allocated Empty"
  by (simp add: new_call_def run_call_def)

definition run_begun :: "stream \<Rightarrow> usize option \<Rightarrow> world" where
  "run_begun s room = allocate Metadata_type run_body (ApiVersion 4) (messenger_new rstring_empty s room)"

definition run_registered :: "stream \<Rightarrow> usize option \<Rightarrow> world" where
  "run_registered s room = register 0 (run_call Allocated Empty) run_bytes (run_begun s room)"

lemmas run_defs = run_begun_def run_registered_def register_def map_insert_def messenger_new_def
  allocate_def new_run_call

lemma calls_begun: "calls (run_begun s room) 0 = Some (run_call Allocated Empty)"
  "m_client_id (run_begun s room) = rstring_empty"
  by (simp_all add: run_defs)

lemma calls_registered: "calls (run_registered s room) 0 = Some (run_call (Sending run_bytes) Empty)"
  by (simp add: run_defs)

lemma out_registered: "out (run_registered s room) = \<lparr>written = [], capacity = room\<rparr>"
  "mstate (run_registered s room) = RequestMap [(0, \<lparr>ar_channel = 0, ar_tagged = False\<rparr>)]"
  "incoming (run_registered s room) = s" "reader_alive (run_registered s room)"
  "allocated (run_registered s room) = 1"
  by (simp_all add: run_defs)

lemma reach_registered: "reachable 10 (run_registered s room)"
proof -
  have "reachable 10 (run_begun s room)"
    unfolding run_begun_def
    by (rule reachable.step [OF reachable.init mstep.start [OF run_version]]) (simp add: messenger_new_def)
  moreover have "call_buffer (run_begun s room) (run_call Allocated Empty) = Ok run_bytes"
    using encode_run by (simp add: call_buffer_def calls_begun) (simp add: run_call_def)
  ultimately show ?thesis
    unfolding run_registered_def
    by (intro reachable.step [OF _ mstep.registered [OF calls_begun(1)]]) simp_all
qed

definition run_message :: "u8 list" where
  "run_message = to_be_bytes 4 (0 :: i32) @ [9]"

definition run_sent :: world where
  "run_sent = set_phase 0 Awaiting ((run_registered (frame_bytes run_message, None) None)
     \<lparr>out := \<lparr>written = frame_bytes run_bytes, capacity = None\<rparr>\<rparr>)"

lemma calls_sent: "calls run_sent 0 = Some (run_call Awaiting Empty)"
  by (simp add: run_sent_def calls_registered)

lemma reach_sent: "reachable 10 run_sent"
  unfolding run_sent_def
proof (rule reachable.step [OF reach_registered], rule mstep.sent [OF calls_registered])
  show "send_message_inner run_bytes None (out (run_registered (frame_bytes run_message, None) None)) =
      (Ok (), \<lparr>written = frame_bytes run_bytes, capacity = None\<rparr>)"
    using write_message_unlimited [of run_bytes "\<lparr>written = [], capacity = None\<rparr>"]
    by (simp add: out_registered run_bytes_def send_message_inner_def)
qed simp

definition run_response :: response where
  "run_response = \<lparr>resp_header = \<lparr>rsh_correlation_id = 0, rsh_tagged_fields = None\<rparr>,
     resp_data = [9], resp_size = 5\<rparr>"

definition run_answered :: world where
  "run_answered = handle_message run_message (run_sent\<lparr>incoming := ([], None)\<rparr>)"

definition run_finished :: world where
  "run_finished = set_phase 0 (Finished (Ok run_response)) run_answered"

lemma reach_answered: "reachable 10 run_answered"
  unfolding run_answered_def
proof (rule reachable.step [OF reach_sent], rule mstep.reader)
  show "reader_alive run_sent" by (simp add: run_sent_def out_registered)
  have "incoming run_sent = (frame_bytes run_message @ [], None)"
    by (simp add: run_sent_def out_registered)
  then show "reader_round 10 run_sent =
      Some (handle_message run_message (run_sent\<lparr>incoming := ([], None)\<rparr>))"
    using read_message_frame [of run_message 10 "[]" None]
    by (simp add: reader_round_def run_message_def)
qed

lemma calls_answered: "calls run_answered 0 = Some (run_call Awaiting (Full (Ok run_response)))"
proof -
  have header: "read_ResponseHeader (ApiVersion 0) (run_message, None) =
      Ok (\<lparr>rsh_correlation_id = 0, rsh_tagged_fields = None\<rparr>, ([9], None))"
    by (simp add: read_ResponseHeader_def run_message_def read_Int32_def from_to_be_bytes)
  have "mstate run_sent = RequestMap [(0, \<lparr>ar_channel = 0, ar_tagged = False\<rparr>)]"
    by (simp add: run_sent_def out_registered)
  with header show ?thesis
    by (simp add: run_answered_def handle_message_def run_response_def run_message_def calls_sent)
qed

lemma reach_finished: "reachable 10 run_finished"
  unfolding run_finished_def
  by (rule reachable.step [OF reach_answered], rule mstep.received [OF calls_answered]) simp_all

theorem responses_are_correlated_witness:
  "reachable 10 run_finished \<and>
   (\<exists>c. calls run_finished 0 = Some c \<and> c_phase c = Finished (Ok run_response) \<and>
     rsh_correlation_id (resp_header run_response) = c_cid c)"
proof -
  have "calls run_finished 0 = Some (run_call (Finished (Ok run_response)) (Full (Ok run_response)))"
    by (simp add: run_finished_def calls_answered)
  from reach_finished this responses_are_correlated [OF reach_finished this] show ?thesis by simp
qed

theorem waiting_call_is_served_witness:
  "reachable 10 run_sent \<and> allocated run_sent \<le> 2 ^ 32 \<and>
   (\<exists>c ar. calls run_sent 0 = Some c \<and> c_phase c = Awaiting \<and>
     (c_cid c, ar) \<in> set (entries run_sent) \<and> ar_channel ar = 0)"
proof -
  have n: "allocated run_sent \<le> 2 ^ 32" by (simp add: run_sent_def out_registered)
  from waiting_call_is_served [OF reach_sent n calls_sent] calls_sent n reach_sent show ?thesis
    by (auto simp: is_waiting_def)
qed








text \<open>
  C30: Cancelling a call does not cut off its message.  A future in a \<open>CancellationSafeFuture\<close>, polled
  by its caller any number of times and then dropped, is not lost: the caller and the task that
  takes it over, together, poll it through the same states as a caller that goes on would have, with
  the same effects on the world and the same result, which one of the two gets.  No \<open>expect\<close> of the
  wrapper fails.  The steps in which the messenger writes a message, for a call that waits and for
  one that was cancelled, have this effect on the stream.
\<close>

theorem cancelled_writes_go_on:
  "(\<exists>x y fut' w'. await_then_drop poll es es' fut w = (Ok (x, y), w') \<and> (x = None \<or> y = None) \<and>
     await_future poll (es @ es') fut w = (case x of Some res \<Rightarrow> Some res | None \<Rightarrow> y, fut', w')) \<and>
   await_then_drop (send_future buf flush_error) [id] later () (out world) =
     (Ok (Some (fst (send_message_inner buf flush_error (out world))), None),
      snd (send_message_inner buf flush_error (out world))) \<and>
   await_then_drop (send_future buf flush_error) [] [id] () (out world) =
     (Ok (None, Some (fst (send_message_inner buf flush_error (out world)))), out (rescue r buf flush_error world))"
  using await_then_drop_whole send_steps by (intro conjI)

section \<open>Versions and requests\<close>





lemma match_versions_iff:
  assumes "vr_min a \<le> vr_max a" and "vr_min b \<le> vr_max b"
  shows "match_versions a b = Some v \<longleftrightarrow>
    (in_range v a \<and> in_range v b \<and> (\<forall>u. in_range u a \<and> in_range u b \<longrightarrow> u \<le> v))"
proof
  assume "match_versions a b = Some v"
  then show "in_range v a \<and> in_range v b \<and> (\<forall>u. in_range u a \<and> in_range u b \<longrightarrow> u \<le> v)"
    using match_versions_Some [of a b v] match_versions_highest [of a b v] assms by blast
next
  assume v: "in_range v a \<and> in_range v b \<and> (\<forall>u. in_range u a \<and> in_range u b \<longrightarrow> u \<le> v)"
  then obtain u where u: "match_versions a b = Some u"
    using match_versions_complete [of v a b] by blast
  with match_versions_Some [OF u assms] match_versions_highest [OF u, of v] v
  show "match_versions a b = Some v" by (metis antisym)
qed

text \<open>
  C31: Versions are negotiated as they should be.  Two version ranges that are not empty match
  exactly when they have a common version, and the version chosen is the highest common one.  The
  negotiation with a broker, whatever it answers, does not panic, and the version ranges it ends
  with are not empty; each of its requests is made in the upper bound it tries.
\<close>

theorem versions_negotiated:
  "(\<forall>a b v. vr_min a \<le> vr_max a \<longrightarrow> vr_min b \<le> vr_max b \<longrightarrow>
     (match_versions a b = Some v \<longleftrightarrow>
      in_range v a \<and> in_range v b \<and> (\<forall>u. in_range u a \<and> in_range u b \<longrightarrow> u \<le> v))) \<and>
   (\<forall>answers r. (\<forall>a \<in> set answers. sync_answer a) \<longrightarrow> sync_versions answers = Some r \<longrightarrow>
     \<not> is_panic r \<and> (\<forall>m. r = Ok m \<longrightarrow> wf_ranges m)) \<and>
   (\<forall>b \<in> set sync_bounds. choose_version ApiVersions_type (sync_ranges b) = Ok (ApiVersion b))"
  using sync_loop_ok [where bounds = sync_bounds] sync_request_matches match_versions_iff
  by (simp add: sync_versions_def)

definition sample_versions :: ApiVersionsResponse where
  "sample_versions = \<lparr>avr_error_code = None,
     avr_api_keys = [\<lparr>avk_api_key = Fetch, avk_min_version = ApiVersion 0,
       avk_max_version = ApiVersion 11, avk_tagged_fields = None\<rparr>],
     avr_throttle_time_ms = Some 0, avr_tagged_fields = None\<rparr>"

theorem versions_negotiated_witness:
  "match_versions (version_range 0 9) (version_range 3 7) = Some (ApiVersion 7) \<and>
   in_range (ApiVersion 7) (version_range 0 9) \<and>
   (\<exists>m. sync_versions [Err (ReadVersionedError (IO UnexpectedEof)), Ok sample_versions] = Some (Ok m) \<and>
     wf_ranges m \<and> m Fetch = Some (version_range 0 11))"
proof (intro conjI)
  show chosen: "match_versions (version_range 0 9) (version_range 3 7) = Some (ApiVersion 7)"
    by (simp add: match_versions_def version_range_def less_eq_ApiVersion_def min_def)
  with versions_negotiated [THEN conjunct1, rule_format, of "version_range 0 9" "version_range 3 7" "ApiVersion 7"]
  show "in_range (ApiVersion 7) (version_range 0 9)" by (simp add: version_range_def less_eq_ApiVersion_def)
  have sync: "sync_versions [Err (ReadVersionedError (IO UnexpectedEof)), Ok sample_versions] =
      Some (Ok [Fetch \<mapsto> version_range 0 11])"
    by (simp add: sync_versions_def sync_bounds_def ApiVersions_type_def version_range_def upto.simps
        sample_versions_def maybe_throttle_cases is_flipped_def less_ApiVersion_def
        ApiVersionRange_new_def)
  moreover have "\<forall>a \<in> set [Err (ReadVersionedError (IO UnexpectedEof)), Ok sample_versions]. sync_answer a"
    by (simp add: sync_answer_def)
  with versions_negotiated sync have "wf_ranges [Fetch \<mapsto> version_range 0 11]" by blast
  ultimately show "\<exists>m. sync_versions [Err (ReadVersionedError (IO UnexpectedEof)), Ok sample_versions] = Some (Ok m) \<and>
     wf_ranges m \<and> m Fetch = Some (version_range 0 11)" by simp
qed

section \<open>Establishing a connection\<close>

text \<open>
  C24: A connection that the connector hands out is what it should be: its transport was opened
  to the address of the broker in the topology, its version ranges are sound, and when SASL is
  configured the broker has offered the mechanism and accepted every message of the session up to
  its end.
\<close>

theorem connections_are_authenticated:
  assumes "connector_connect (establishing lib rs lk nw) broker_id s = Some (Ok (Some c), s')"
  shows "\<exists>broker s1. get_broker (cn_topology s) broker_id = Some broker \<and>
    transport_connect lib (broker_display broker) (st_tls_config (cn_settings s))
      (st_socks5_proxy (cn_settings s)) s = (Ok (co_transport c), s1) \<and>
    wf_ranges (co_version_ranges c) \<and>
    (\<forall>config. st_sasl_config (cn_settings s) = Some config \<longrightarrow>
      (\<exists>s2. authenticates rs (lk_sasl lk c) config s2 s'))"
proof -
  from assms obtain broker where "get_broker (cn_topology s) broker_id = Some broker"
    and "establish lib rs lk (cn_settings s) (Topology broker) s = Some (Ok c, s')"
    by (auto simp: connector_connect_def establishing_def split: option.splits)
  with establish_Ok show ?thesis by fastforce
qed

text \<open>A broker that offers the mechanism PLAIN and accepts one message.\<close>

definition sample_lib :: "(unit, unit, unit, 'w) transport_lib" where
  "sample_lib = \<lparr>tl_tcp = (\<lambda>_ w. (Inr (), w)), tl_socks5 = (\<lambda>_ _ _ w. (Inr (), w)),
     tl_server_name = (\<lambda>_. None), tl_tls = (\<lambda>_ _ _ w. (Inr (), w))\<rparr>"

definition sample_rsasl :: "(unit, nat) rsasl" where
  "sample_rsasl = \<lparr>rs_mechname = (\<lambda>_. True), rs_config = (\<lambda>_ _. Some ()), rs_start = (\<lambda>_ _. Some 0),
     rs_step = (\<lambda>n _. Inr (n = 0, [0, 97, 0, 98], 1))\<rparr>"

definition sample_link :: "('x, 'w) link" where
  "sample_link = \<lparr>lk_versions = (\<lambda>_ _ _ w. (Ok sample_versions, w)),
     lk_sasl = (\<lambda>_. \<lparr>sl_handshake = (\<lambda>_ w. (Ok \<lparr>shr_error_code = None, shr_mechanisms = Some [str ''PLAIN'']\<rparr>, w)),
       sl_authenticate = (\<lambda>_ w. (Ok \<lparr>sar_error_code = None, sar_error_message = None, sar_auth_bytes = [],
         sar_session_lifetime_ms = None, sar_tagged_fields = None\<rparr>, w))\<rparr>),
     lk_sleep = (\<lambda>_ w. w)\<rparr>"

definition sample_sasl :: SaslConfig where
  "sample_sasl = SaslPlain \<lparr>cr_username = str ''a'', cr_password = str ''b''\<rparr>"

lemma sample_sync:
  "sync_run (lk_versions sample_link c) (lk_sleep sample_link) sync_bounds w =
     Some (Ok [Fetch \<mapsto> version_range 0 11], w)"
proof -
  have decide: "sync_decide (Ok sample_versions) = SyncReturn (Ok [Fetch \<mapsto> version_range 0 11])"
    by (simp add: sample_versions_def maybe_throttle_cases is_flipped_def less_ApiVersion_def
        version_range_def ApiVersionRange_new_def)
  have bounds: "sync_bounds = [3, 2, 1, 0]"
    by (simp add: sync_bounds_def ApiVersions_type_def version_range_def upto.simps)
  have "lk_versions sample_link c request ranges w = (Ok sample_versions, w)" for request ranges
    by (simp add: sample_link_def)
  then show ?thesis
    by (subst bounds, subst sync_run.simps) (simp only: list.case prod.case decide sync_decision.case)
qed

lemma sample_do_sasl: "do_sasl sample_rsasl (lk_sasl sample_link c) sample_sasl w = Some (Ok (), w)"
  by (simp add: do_sasl_def sasl_handshake_def choose_mechanism_def sample_sasl_def sample_link_def
      sample_rsasl_def or_empty_def sasl_loop.simps sasl_authentication_def)

definition sample_sasl_connector :: "((unit, unit) Transport connection, unit) connector" where
  "sample_sasl_connector = remember_response (metadata_request None) sample_metadata
     (connector_new [] (builder_settings (with_sasl_config sample_sasl (ClientBuilder_new []))) default_backoff ())"

definition sample_sasl_network :: "((unit, unit) Transport connection, unit) network" where
  "sample_sasl_network = establishing sample_lib sample_rsasl sample_link
     \<lparr>nw_connect = (\<lambda>_ _. None), nw_metadata = (\<lambda>_ _ s. (Ok sample_metadata, s)),
      nw_shuffle = (\<lambda>bs s. (bs, s)), nw_draw = draw_middle, nw_sleep = (\<lambda>_ s. s)\<rparr>"

lemma sample_sasl_connector_simps:
  "get_broker (cn_topology sample_sasl_connector) 1 =
     Some \<lparr>br_id = 1, br_host = rstring_empty, br_port = 9092\<rparr>"
  "cn_settings sample_sasl_connector = builder_settings (with_sasl_config sample_sasl (ClientBuilder_new []))"
  by (simp_all add: sample_sasl_connector_def get_broker_def remember_response_def metadata_request_def
      connector_new_def topology_update_def topology_entry_def sample_metadata_def broker_from_def Let_def)

lemma sample_transport:
  "transport_connect sample_lib url None None w = (Ok (PlainStream ()), w)"
  by (simp add: transport_connect_def connect_tcp_def wrap_tls_def sample_lib_def)

theorem connections_are_authenticated_witness:
  "\<exists>c s. connector_connect sample_sasl_network 1 sample_sasl_connector = Some (Ok (Some c), s) \<and>
     wf_ranges (co_version_ranges c) \<and>
     (\<exists>s2. authenticates sample_rsasl (lk_sasl sample_link c) sample_sasl s2 s)"
proof -
  have sasl: "st_sasl_config (cn_settings sample_sasl_connector) = Some sample_sasl"
    by (simp add: sample_sasl_connector_simps builder_settings_def with_sasl_config_def)
  have "\<exists>c. connector_connect sample_sasl_network 1 sample_sasl_connector = Some (Ok (Some c), sample_sasl_connector)"
    by (simp add: connector_connect_def sample_sasl_network_def establishing_def establish_def
        sample_sasl_connector_simps builder_settings_def with_sasl_config_def ClientBuilder_new_def
        sample_transport sample_sync log_in_def sample_do_sasl Let_def)
  then obtain c where
    connected: "connector_connect sample_sasl_network 1 sample_sasl_connector = Some (Ok (Some c), sample_sasl_connector)"
    by blast
  from connections_are_authenticated [OF this [unfolded sample_sasl_network_def]] sasl connected
  show ?thesis by blast
qed

section \<open>Frames\<close>



text \<open>
  C33: With a positive limit, reading a message always returns, without panic, on every input;
  with limit 0 it does not return on any message that is not empty.
\<close>

theorem read_message_returns_iff:
  "(0 < max_message_size \<longrightarrow>
      (\<exists>r. read_message max_message_size s = Some r \<and> \<not> is_panic (fst r))) \<and>
   (0 < length msg \<and> length msg < 2 ^ 31 \<longrightarrow> read_message 0 (frame_bytes msg @ rest, e) = None)"
  using read_message_total [of max_message_size s] by (simp add: read_message_frame)

theorem read_message_returns_iff_witness:
  "(\<exists>r. read_message 1 ([0, 0, 0, 200], None) = Some r \<and> \<not> is_panic (fst r)) \<and>
   read_message 0 (frame_bytes [7] @ [], None) = None"
  using read_message_returns_iff [of 1 "([0, 0, 0, 200], None)" "[7]" "[]" None] by simp

section \<open>Snappy\<close>



section \<open>Primitive types\<close>

lemma uvarint_codec:
  "(\<exists>bs. write_UnsignedVarint n = Ok bs \<and>
      (\<forall>rest e. read_UnsignedVarint (bs @ rest, e) = Ok (n, (rest, e)))) \<and>
   (\<forall>m bs cs. write_UnsignedVarint n = Ok bs \<longrightarrow> write_UnsignedVarint m = Ok (bs @ cs) \<longrightarrow>
      cs = [] \<and> m = n)"
  using write_UnsignedVarint_total [of n] uvarint.roundtrip uvarint.prefix_free [of n] by metis

text \<open>
  C35: Reading a vector element by element through a builder with blocks of bounded size gives
  the result of the plain loop, and reading a byte string in such blocks is one read: the bound
  on the memory that an announced length can claim is invisible otherwise.
\<close>

theorem vec_builder_is_invisible:
  assumes "0 < element_size" and "element_size \<le> DEFAULT_BLOCK_SIZE"
  shows "read_vec element_size len rd = read_items len rd \<and> read_bytes len = read_exact len"
  using assms read_vec_eq [of element_size len rd] by simp

theorem vec_builder_is_invisible_witness:
  "read_vec 4 2 read_Int32 = read_items 2 read_Int32"
  using vec_builder_is_invisible [of 4 2 read_Int32] by (simp add: DEFAULT_BLOCK_SIZE_def)

lemma arrays_roundtrip:
  assumes "codec rd wr"
  shows "(write_Array wr xs = Ok bs \<longrightarrow> read_Array rd (bs @ rest, e) = Ok (xs, (rest, e))) \<and>
    (write_CompactArray wr xs = Ok cs \<longrightarrow> read_CompactArray rd (cs @ rest, e) = Ok (xs, (rest, e)))"
  using norm_codec.roundtrip [OF norm_codec_Array [OF codec_is_norm [OF assms]], of xs bs rest e]
    norm_codec.roundtrip [OF norm_codec_CompactArray [OF codec_is_norm [OF assms]], of xs cs rest e]
  by (simp add: option.map_ident)

lemma protocol_codes:
  "Int16_from_Error (Error_new code) = code \<and> (Error_new code = None \<longleftrightarrow> code = 0) \<and>
   (Error_new (Int16_from_Error err) = err \<longleftrightarrow> canonical_error err) \<and>
   Int16_from_ApiKey (ApiKey_from_Int16 code) = code \<and>
   (ApiKey_from_Int16 (Int16_from_ApiKey key) = key \<longleftrightarrow> canonical_key key)"
  using canonical_error_iff [of err] canonical_iff [of key] by (simp add: Error_new_None_iff)

text \<open>
  C39: Every 64-bit number has an unsigned-varint encoding, which is read back as that number
  with nothing else touched, and no encoding is a proper prefix of another.  An array whose
  elements can be written and read back can be, with its length, in the plain and in the compact
  form, and the absent array stays absent.  The codes of the protocol: every error code and every request type
  code is read and written back as itself, 0 is the only code of success, and an error or an API
  key is recovered from its code exactly when it is not an \<open>Unknown\<close> with the code of a named one.
\<close>

theorem primitives_roundtrip:
  "(\<exists>bs. write_UnsignedVarint n = Ok bs \<and>
      (\<forall>rest e. read_UnsignedVarint (bs @ rest, e) = Ok (n, (rest, e)))) \<and>
   (\<forall>m bs cs. write_UnsignedVarint n = Ok bs \<longrightarrow> write_UnsignedVarint m = Ok (bs @ cs) \<longrightarrow>
      cs = [] \<and> m = n) \<and>
   (codec rd wr \<longrightarrow>
      (\<forall>xs bs rest e. write_Array wr xs = Ok bs \<longrightarrow> read_Array rd (bs @ rest, e) = Ok (xs, (rest, e))) \<and>
      (\<forall>xs bs rest e. write_CompactArray wr xs = Ok bs \<longrightarrow>
         read_CompactArray rd (bs @ rest, e) = Ok (xs, (rest, e)))) \<and>
   Int16_from_Error (Error_new code) = code \<and> (Error_new code = None \<longleftrightarrow> code = 0) \<and>
   (Error_new (Int16_from_Error err) = err \<longleftrightarrow> canonical_error err) \<and>
   Int16_from_ApiKey (ApiKey_from_Int16 code) = code \<and>
   (ApiKey_from_Int16 (Int16_from_ApiKey key) = key \<longleftrightarrow> canonical_key key)"
  using uvarint_codec [of n] arrays_roundtrip [of rd wr] protocol_codes [of code err key] by metis

theorem primitives_roundtrip_witness:
  "write_UnsignedVarint 5 = Ok [5] \<and> read_UnsignedVarint ([5, 9], None) = Ok (5, ([9], None)) \<and>
   (\<exists>bs. write_Array write_TaggedFields (Some [[(1, [2])], []]) = Ok bs \<and>
     read_Array read_TaggedFields (bs @ [3], None) = Ok (Some [[(1, [2])], []], ([3], None)))"
proof -
  have five: "write_UnsignedVarint 5 = Ok [5]" by (simp add: write_uvarint_small)
  obtain bs where bs: "write_Array write_TaggedFields (Some [[(1, [2])], []]) = Ok bs"
    by (simp add: write_Array_def write_ArrayRef_def write_TaggedFields_def write_TaggedField_def
        i32_try_from_usize_def u64_try_from_usize_def write_Int32_def write_uvarint_small)
  have "read_UnsignedVarint ([5] @ [9], None) = Ok (5, ([9], None))"
    using five conjunct1 [OF primitives_roundtrip [of 5]] by auto
  moreover have "read_Array read_TaggedFields (bs @ [3], None) = Ok (Some [[(1, [2])], []], ([3], None))"
    using bs primitives_roundtrip [of 5 read_TaggedFields write_TaggedFields, THEN conjunct2, THEN conjunct2,
        THEN conjunct1] codec_TaggedFields by blast
  ultimately show ?thesis using five bs by simp
qed

section \<open>Further messages and helpers\<close>

lemma fetch_request_at_broker:
  assumes "in_range v (API_VERSION_RANGE Fetch_type)" and "write_FetchRequest v r = Ok bs"
  shows "broker_FetchRequest (bs @ rest, e) =
    Ok (r\<lparr>frq_max_bytes := Some (unwrap_or 0x7FFFFFFF (frq_max_bytes r)),
          frq_isolation_level := Some (unwrap_or ReadUncommitted (frq_isolation_level r))\<rparr>, (rest, e))"
  using norm_codec.roundtrip [OF norm_codec_FetchRequest [OF assms(1)] assms(2)]
  by (simp add: norm_FetchRequest_def)

lemma api_versions_roundtrip:
  assumes "write_ApiVersionsResponse v r = Ok bs"
  shows "read_ApiVersionsResponse v (bs @ rest, e) = Ok (norm_ApiVersionsResponse v r, (rest, e))"
  using api_versions_codec.roundtrip [OF assms] .

definition sample_fetch :: FetchRequest where
  "sample_fetch = \<lparr>frq_replica_id = NORMAL_CONSUMER, frq_max_wait_ms = 100, frq_min_bytes = 1,
     frq_max_bytes = None, frq_isolation_level = Some ReadCommitted, frq_topics = []\<rparr>"

text \<open>
  C40: A fetch request is read by a broker as it was written, where a request without a limit
  asks for as much as the protocol can express, and one without an isolation level reads
  uncommitted records.  An API version response is read back as it was written, in every version,
  up to the fields that the version lacks and to keys and errors given by number instead of by
  name.
\<close>

theorem messages_roundtrip:
  "(in_range v (API_VERSION_RANGE Fetch_type) \<longrightarrow> write_FetchRequest v request = Ok bs \<longrightarrow>
      broker_FetchRequest (bs @ rest, e) =
        Ok (request\<lparr>frq_max_bytes := Some (unwrap_or 0x7FFFFFFF (frq_max_bytes request)),
              frq_isolation_level := Some (unwrap_or ReadUncommitted (frq_isolation_level request))\<rparr>, (rest, e))) \<and>
   (write_ApiVersionsResponse v' response = Ok bs' \<longrightarrow>
      read_ApiVersionsResponse v' (bs' @ rest, e) = Ok (norm_ApiVersionsResponse v' response, (rest, e)))"
  using fetch_request_at_broker api_versions_roundtrip by blast

theorem messages_roundtrip_witness:
  "(\<exists>bs. write_FetchRequest (ApiVersion 4) sample_fetch = Ok bs \<and>
      broker_FetchRequest (bs, None) = Ok (sample_fetch\<lparr>frq_max_bytes := Some 0x7FFFFFFF\<rparr>, ([], None))) \<and>
   (\<exists>bs. write_ApiVersionsResponse (ApiVersion 1) sample_versions = Ok bs \<and>
      read_ApiVersionsResponse (ApiVersion 1) (bs, None) = Ok (sample_versions, ([], None)))"
proof -
  obtain bs where bs: "write_FetchRequest (ApiVersion 4) sample_fetch = Ok bs"
    by (simp add: write_FetchRequest_def sample_fetch_def write_Int32_def write_Int8_def
        write_versioned_array_def i32_try_from_usize_def vw_def)
  obtain bs' where bs': "write_ApiVersionsResponse (ApiVersion 1) sample_versions = Ok bs'"
    by (simp add: write_ApiVersionsResponse_def sample_versions_def write_error_code_def
        write_Int16_def write_Int32_def write_versioned_array_def i32_try_from_usize_def vw_def
        write_ApiVersionsResponseApiKey_def write_or_default_def)
  have "norm_ApiVersionsResponse (ApiVersion 1) sample_versions = sample_versions"
    by (simp add: norm_ApiVersionsResponse_def norm_ApiVersionsResponseApiKey_def
        sample_versions_def ApiKey_from_Int16_def canonical_error_def)
  with messages_roundtrip [of "ApiVersion 4" sample_fetch bs "[]" None "ApiVersion 1" sample_versions bs'] bs bs'
  show ?thesis by (simp add: Fetch_type_def sample_fetch_def unwrap_or_def)
qed

end
